(* ===== verification/Prelude.thy ===== *)
theory Prelude
  imports Main "HOL-Library.Sublist"
begin

text \<open>
  Shared vocabulary of the development of \<^verbatim>\<open>src/main/resources/static/app.js\<close>:
  the collections of rules the component theories add to, the string building blocks
  the client's template literals are made of (newlines and indentation), and generic
  lemmas on lists, options and maps that the component proofs share.
\<close>

named_theorems handler_simps
  "equations of the client's handlers and continuations, for unfolding in proofs"

named_theorems render_simps
  "equations of the row templates and the rendering loop"

text \<open>The characters of the template literals.\<close>

definition nl :: string where
  "nl = [CHR 0x0A]"

definition spaces :: "nat \<Rightarrow> string" where
  "spaces n = replicate n (CHR 0x20)"

lemma length_spaces [simp]: "length (spaces n) = n"
  by (simp add: spaces_def)

lemma length_nl [simp]: "length nl = 1"
  by (simp add: nl_def)

text \<open>Generic facts the components share.\<close>

lemma sublist_in_append_right [intro]: "sublist ys zs \<Longrightarrow> sublist ys (xs @ zs)"
  by (metis sublist_append_leftI sublist_order.order.trans)

lemma sublist_in_append_left [intro]: "sublist ys xs \<Longrightarrow> sublist ys (xs @ zs)"
  by (metis sublist_append_rightI sublist_order.order.trans)

end
