(* ===== verification/Js_Value.thy ===== *)
theory Js_Value
  imports Prelude
begin

text \<open>
  The JavaScript values the client reads from parsed JSON responses and the operations of
  the language it applies to them in \<^verbatim>\<open>app.js\<close>: property access (\<open>user.id\<close>,
  which throws on \<open>null\<close>), string conversion in template literals (\<open>${v}\<close>),
  truthiness and \<open>v || ''\<close>, assignment to \<open>textContent\<close>, and
  \<open>JSON.stringify\<close> of a string.  These are the semantics of ECMAScript that the
  source relies on, written from the language definition; strings are lists of
  8-bit characters.
\<close>

section \<open>Values\<close>

text \<open>
  A value produced by \<open>response.json()\<close>. JSON numbers are modelled as integers
  (the data model of the API has integer ids and counts); \<open>undefined\<close>, which JSON
  cannot produce but a missing property yields, is \<open>None\<close> of \<open>jval option\<close>.
\<close>

datatype jval =
    JNull
  | JBool bool
  | JNum int
  | JStr string
  | JArr "jval list"
  | JObj "(string \<times> jval) list"

text \<open>The exceptions the client catches.\<close>

datatype js_error =
    TypeError            \<comment> \<open>property of \<open>null\<close>, \<open>forEach\<close> of a non-array\<close>
  | SyntaxError          \<comment> \<open>\<open>response.json()\<close> on a body that is not JSON\<close>
  | NetworkError         \<comment> \<open>\<open>fetch\<close> rejected: transport failure\<close>
  | HttpError int        \<comment> \<open>\<open>throw new Error(`HTTP error! status: ...`)\<close>\<close>

section \<open>Property access\<close>

text \<open>
  \<open>v.k\<close>: on \<open>null\<close> it throws a \<open>TypeError\<close>; on an object parsed by
  \<open>JSON.parse\<close> it is the value of the last member named \<open>k\<close> (later duplicates
  win); on any other value the keys the client reads (\<open>id\<close>, \<open>username\<close>,
  \<open>ipAddress\<close>, \<open>city\<close>, \<open>country\<close>) are not properties, so it is
  \<open>undefined\<close>.
\<close>

fun get_prop :: "jval \<Rightarrow> string \<Rightarrow> js_error + jval option" where
  "get_prop JNull k = Inl TypeError"
| "get_prop (JObj kvs) k = Inr (map_of (rev kvs) k)"
| "get_prop v k = Inr None"

text \<open>The value a read yields on a value that is not \<open>null\<close>.\<close>

definition jprop :: "jval \<Rightarrow> string \<Rightarrow> jval option" where
  "jprop v k = (case get_prop v k of Inl e \<Rightarrow> None | Inr x \<Rightarrow> x)"

lemma get_prop_Inl_iff [simp]: "get_prop v k = Inl e \<longleftrightarrow> v = JNull \<and> e = TypeError"
  by (cases v) auto

lemma get_prop_not_null: "v \<noteq> JNull \<Longrightarrow> get_prop v k = Inr (jprop v k)"
  by (cases v) (auto simp: jprop_def)

section \<open>String conversion\<close>

text \<open>Decimal notation of numbers, as \<open>Number.prototype.toString\<close> prints integers.\<close>

definition decimal_digits :: string where
  "decimal_digits = ''0123456789''"

definition digit_char :: "nat \<Rightarrow> char" where
  "digit_char d = decimal_digits ! d"

fun show_nat :: "nat \<Rightarrow> string" where
  "show_nat n = (if n < 10 then [digit_char n] else show_nat (n div 10) @ [digit_char (n mod 10)])"

declare show_nat.simps [simp del]

definition show_int :: "int \<Rightarrow> string" where
  "show_int i = (if i < 0 then CHR ''-'' # show_nat (nat (- i)) else show_nat (nat i))"

text \<open>\<open>Array.prototype.join\<close>.\<close>

fun join :: "string \<Rightarrow> string list \<Rightarrow> string" where
  "join sep [] = []"
| "join sep [s] = s"
| "join sep (s # ss) = s @ sep @ join sep ss"

text \<open>
  \<open>ToString\<close> of a value: arrays join their elements with commas, \<open>null\<close> elements
  giving the empty string; every plain object prints as \<open>[object Object]\<close>.
\<close>

fun to_str :: "jval \<Rightarrow> string" where
  "to_str JNull = ''null''"
| "to_str (JBool b) = (if b then ''true'' else ''false'')"
| "to_str (JNum n) = show_int n"
| "to_str (JStr s) = s"
| "to_str (JArr vs) = join '','' (map (\<lambda>v. if v = JNull then [] else to_str v) vs)"
| "to_str (JObj kvs) = ''[object Object]''"

text \<open>A substitution \<open>${e}\<close> of a template literal; \<open>undefined\<close> prints as itself.\<close>

definition tmpl :: "jval option \<Rightarrow> string" where
  "tmpl v = (case v of None \<Rightarrow> ''undefined'' | Some x \<Rightarrow> to_str x)"

text \<open>Truthiness, and \<open>v || ''\<close>.\<close>

fun truthy :: "jval option \<Rightarrow> bool" where
  "truthy None = False"
| "truthy (Some JNull) = False"
| "truthy (Some (JBool b)) = b"
| "truthy (Some (JNum n)) = (n \<noteq> 0)"
| "truthy (Some (JStr s)) = (s \<noteq> [])"
| "truthy (Some (JArr vs)) = True"
| "truthy (Some (JObj kvs)) = True"

definition or_empty :: "jval option \<Rightarrow> jval option" where
  "or_empty v = (if truthy v then v else Some (JStr []))"

text \<open>\<open>el.textContent = v\<close>: \<open>null\<close> empties the element, anything else is converted.\<close>

definition text_content :: "jval \<Rightarrow> string" where
  "text_content v = (case v of JNull \<Rightarrow> [] | x \<Rightarrow> to_str x)"

section \<open>\<open>JSON.stringify\<close> of a string\<close>

text \<open>Quote characters of the markup and of JSON text.\<close>

definition dq :: string where
  "dq = [CHR 0x22]"

definition sq :: string where
  "sq = [CHR 0x27]"

definition bs :: char where
  "bs = CHR 0x5C"

definition hex_digit :: "nat \<Rightarrow> char" where
  "hex_digit d = ''0123456789abcdef'' ! d"

text \<open>
  QuoteJSONString of ECMA-262: backspace, tab, newline, form feed, carriage return,
  quotation mark and backslash get their two-character escapes, the other control
  characters \<open>\u00XX\<close> in lower-case hexadecimal, every other character stands
  for itself.
\<close>

definition quote_char :: "char \<Rightarrow> string" where
  "quote_char c =
     (if c = CHR 0x08 then [bs, CHR ''b'']
      else if c = CHR 0x09 then [bs, CHR ''t'']
      else if c = CHR 0x0A then [bs, CHR ''n'']
      else if c = CHR 0x0C then [bs, CHR ''f'']
      else if c = CHR 0x0D then [bs, CHR ''r'']
      else if c = CHR 0x22 then [bs, CHR 0x22]
      else if c = bs then [bs, bs]
      else if of_char c < (32::nat)
        then [bs, CHR ''u'', CHR ''0'', CHR ''0'',
              hex_digit (of_char c div 16), hex_digit (of_char c mod 16)]
      else [c])"

definition json_quote :: "string \<Rightarrow> string" where
  "json_quote s = dq @ concat (map quote_char s) @ dq"

section \<open>Lemmas\<close>

text \<open>\<open>${v || ''}\<close> prints the value when it is truthy, and nothing otherwise.\<close>

lemma tmpl_or_empty: "tmpl (or_empty v) = (if truthy v then tmpl v else [])"
  by (simp add: or_empty_def tmpl_def)

end
