(* ===== verification/Http_Api.thy ===== *)
theory Http_Api
  imports Js_Value
begin

text \<open>
  The remote API as the client sees it (\<^verbatim>\<open>app.js\<close>, line 1 and the \<open>fetch\<close>
  calls): the base URL, the requests each handler issues, and the responses it may get
  back.  A response is either a transport failure (the promise of \<open>fetch\<close> rejects)
  or a status with a body, whose \<open>response.json()\<close> is a value or a syntax error.
\<close>

definition BASE_URL :: string where
  "BASE_URL = ''http://localhost:8080/api''"

datatype http_method = GET | POST | DELETE

record request =
  req_method :: http_method
  url :: string
  headers :: "(string \<times> string) list"
  body :: "string option"

datatype response =
    NetFail
  | Resp int "jval option"   \<comment> \<open>status, and the body read by \<open>response.json()\<close>\<close>

text \<open>\<open>response.ok\<close>: the status is in the range 200--299.\<close>

definition resp_ok :: "int \<Rightarrow> bool" where
  "resp_ok st \<longleftrightarrow> 200 \<le> st \<and> st \<le> 299"

subsection \<open>Endpoints\<close>

definition users_url :: string where
  "users_url = BASE_URL @ ''/users''"

definition locations_url :: string where
  "locations_url = BASE_URL @ ''/locations''"

definition request_count_url :: string where
  "request_count_url = BASE_URL @ ''/request-count''"

text \<open>\<open>`${BASE_URL}/location?ip=${ipAddress}`\<close>: the address is inserted as it is.\<close>

definition location_url :: "string \<Rightarrow> string" where
  "location_url ip = BASE_URL @ ''/location?ip='' @ ip"

definition user_url :: "jval option \<Rightarrow> string" where
  "user_url uid = BASE_URL @ ''/users/'' @ tmpl uid"

definition location_item_url :: "jval option \<Rightarrow> string" where
  "location_item_url lid = BASE_URL @ ''/locations/'' @ tmpl lid"

subsection \<open>Requests\<close>

text \<open>\<open>fetch(url)\<close> with no options is a \<open>GET\<close> with no body.\<close>

definition get_request :: "string \<Rightarrow> request" where
  "get_request u = \<lparr>req_method = GET, url = u, headers = [], body = None\<rparr>"

text \<open>\<open>JSON.stringify({ username })\<close>.\<close>

definition username_body :: "string \<Rightarrow> string" where
  "username_body name = ''{'' @ dq @ ''username'' @ dq @ '':'' @ json_quote name @ ''}''"

definition post_username :: "string \<Rightarrow> string \<Rightarrow> request" where
  "post_username u name =
     \<lparr>req_method = POST, url = u, headers = [(''Content-Type'', ''application/json'')],
      body = Some (username_body name)\<rparr>"

definition delete_request :: "string \<Rightarrow> request" where
  "delete_request u = \<lparr>req_method = DELETE, url = u, headers = [], body = None\<rparr>"

end
