(* ===== verification/Render.thy ===== *)
theory Render
  imports Js_Value
begin

text \<open>
  The row binders of \<^verbatim>\<open>app.js\<close>: the markup assigned to \<open>tr.innerHTML\<close> for one
  user (lines 11--19) and one location (lines 35--45), and the \<open>forEach\<close> loops
  (lines 10--21 and 34--47) that append one row per element to the table body and stop
  at the first element whose properties cannot be read.  A table body is the list of the
  markup strings of its rows, in order.
\<close>

section \<open>Row templates\<close>

text \<open>A line of the template: a newline, then the indentation of the source.\<close>

definition line :: "nat \<Rightarrow> string \<Rightarrow> string" where
  "line n s = nl @ spaces n @ s"

text \<open>The JavaScript of the Edit button of a user row, as the template writes it.\<close>

definition edit_user_handler :: "string \<Rightarrow> string \<Rightarrow> string" where
  "edit_user_handler i n = ''startEditUser('' @ i @ '', '' @ sq @ n @ sq @ '')''"

text \<open>The JavaScript of the Edit button of a location row.\<close>

definition edit_location_handler :: "string \<Rightarrow> string \<Rightarrow> string \<Rightarrow> string \<Rightarrow> string" where
  "edit_location_handler i ip city country =
     ''startEditLocation('' @ i @ '', '' @ sq @ ip @ sq @ '', '' @ sq @ city @ sq @ '', ''
       @ sq @ country @ sq @ '')''"

text \<open>The JavaScript of the Delete buttons of a user row and of a location row.\<close>

definition delete_user_handler :: "string \<Rightarrow> string" where
  "delete_user_handler i = ''deleteUser('' @ i @ '')''"

definition delete_location_handler :: "string \<Rightarrow> string" where
  "delete_location_handler i = ''deleteLocation('' @ i @ '')''"

definition user_row_html :: "string \<Rightarrow> string \<Rightarrow> string" where
  "user_row_html i n =
     line 16 (''<td>'' @ i @ ''</td>'') @
     line 16 (''<td id='' @ dq @ ''username-'' @ i @ dq @ ''>'' @ n @ ''</td>'') @
     line 16 ''<td>'' @
     line 20 (''<button onclick='' @ dq @ edit_user_handler i n @ dq @ ''>Edit</button>'') @
     line 20 (''<button onclick='' @ dq @ delete_user_handler i @ dq @ ''>Delete</button>'') @
     line 16 ''</td>'' @
     line 12 []"

text \<open>
  The user row binder: the template reads \<open>user.id\<close> and \<open>user.username\<close>;
  reading a property of \<open>null\<close> throws.
\<close>

definition user_row :: "jval \<Rightarrow> js_error + string" where
  "user_row u =
     (case get_prop u ''id'' of Inl e \<Rightarrow> Inl e | Inr i \<Rightarrow>
      (case get_prop u ''username'' of Inl e \<Rightarrow> Inl e | Inr n \<Rightarrow>
       Inr (user_row_html (tmpl i) (tmpl n))))"

definition location_row_html :: "string \<Rightarrow> string \<Rightarrow> string \<Rightarrow> string \<Rightarrow> string" where
  "location_row_html i ip city country =
     line 16 (''<td>'' @ i @ ''</td>'') @
     line 16 (''<td id='' @ dq @ ''ip-'' @ i @ dq @ ''>'' @ ip @ ''</td>'') @
     line 16 (''<td id='' @ dq @ ''city-'' @ i @ dq @ ''>'' @ city @ ''</td>'') @
     line 16 (''<td id='' @ dq @ ''country-'' @ i @ dq @ ''>'' @ country @ ''</td>'') @
     line 16 ''<td>'' @
     line 20 (''<button onclick='' @ dq @ edit_location_handler i ip city country @ dq @ ''>Edit</button>'') @
     line 20 (''<button onclick='' @ dq @ delete_location_handler i @ dq @ ''>Delete</button>'') @
     line 16 ''</td>'' @
     line 12 []"

text \<open>The location row binder: city and country go through \<open>|| ''\<close>, the address does not.\<close>

definition location_row :: "jval \<Rightarrow> js_error + string" where
  "location_row l =
     (case get_prop l ''id'' of Inl e \<Rightarrow> Inl e | Inr i \<Rightarrow>
      (case get_prop l ''ipAddress'' of Inl e \<Rightarrow> Inl e | Inr ip \<Rightarrow>
       (case get_prop l ''city'' of Inl e \<Rightarrow> Inl e | Inr c \<Rightarrow>
        (case get_prop l ''country'' of Inl e \<Rightarrow> Inl e | Inr co \<Rightarrow>
         Inr (location_row_html (tmpl i) (tmpl ip) (tmpl (or_empty c)) (tmpl (or_empty co)))))))"

section \<open>The rendering loop\<close>

text \<open>
  \<open>xs.forEach(x => { ...; tbody.appendChild(tr); })\<close> over the rows already in the
  body: each element's row is appended in order; the first element whose binder throws
  ends the loop, with the rows appended so far left in the body.
\<close>

fun render_rows :: "(jval \<Rightarrow> js_error + string) \<Rightarrow> string list \<Rightarrow> jval list \<Rightarrow> string list \<times> js_error option" where
  "render_rows row acc [] = (acc, None)"
| "render_rows row acc (x # xs) =
     (case row x of
        Inl e \<Rightarrow> (acc, Some e)
      | Inr r \<Rightarrow> render_rows row (acc @ [r]) xs)"

text \<open>
  The body of the \<open>try\<close> after \<open>response.json()\<close> returned \<open>v\<close>: the body is
  emptied (\<open>tbody.innerHTML = ''\<close>), then \<open>v.forEach\<close> runs, which throws a
  \<open>TypeError\<close> when \<open>v\<close> is not an array.
\<close>

definition render_table :: "(jval \<Rightarrow> js_error + string) \<Rightarrow> jval \<Rightarrow> string list \<times> js_error option" where
  "render_table row v =
     (case v of JArr xs \<Rightarrow> render_rows row [] xs | _ \<Rightarrow> ([], Some TypeError))"

text \<open>
  The loop's result described without recursion: the rows of the longest prefix of
  elements whose binder succeeds, and the exception of the first that fails.
\<close>

definition render_rows_spec :: "(jval \<Rightarrow> js_error + string) \<Rightarrow> string list \<Rightarrow> jval list \<Rightarrow> string list \<times> js_error option" where
  "render_rows_spec row acc xs =
     (acc @ map projr (takeWhile (\<lambda>r. \<not> isl r) (map row xs)),
      case dropWhile (\<lambda>r. \<not> isl r) (map row xs) of [] \<Rightarrow> None | r # rs \<Rightarrow> Some (projl r))"

section \<open>Rendering lemmas\<close>

text \<open>A binder fails exactly on \<open>null\<close>, and otherwise renders the properties it reads.\<close>

lemma user_row_not_null [render_simps]:
  "u \<noteq> JNull \<Longrightarrow> user_row u = Inr (user_row_html (tmpl (jprop u ''id'')) (tmpl (jprop u ''username'')))"
  by (simp add: user_row_def get_prop_not_null)

lemma user_row_null [render_simps]: "user_row JNull = Inl TypeError"
  by (simp add: user_row_def)

lemma location_row_not_null [render_simps]:
  "l \<noteq> JNull \<Longrightarrow> location_row l =
     Inr (location_row_html (tmpl (jprop l ''id'')) (tmpl (jprop l ''ipAddress''))
            (tmpl (or_empty (jprop l ''city''))) (tmpl (or_empty (jprop l ''country''))))"
  by (simp add: location_row_def get_prop_not_null)

lemma location_row_null [render_simps]: "location_row JNull = Inl TypeError"
  by (simp add: location_row_def)

text \<open>The loop renders every element when every binder call returns a row \<dots>\<close>

lemma render_rows_all:
  "map row xs = map Inr rows \<Longrightarrow> render_rows row acc xs = (acc @ rows, None)"
proof (induction xs arbitrary: acc rows)
  case Nil
  then show ?case by simp
next
  case (Cons x xs)
  then obtain r rs where "rows = r # rs" "row x = Inr r" "map row xs = map Inr rs"
    by (cases rows) auto
  with Cons.IH show ?case by simp
qed

text \<open>\<dots> and keeps the rows before the first element whose binder throws.\<close>

lemma render_rows_stop:
  "map row xs = map Inr rows \<Longrightarrow> row x = Inl e \<Longrightarrow>
   render_rows row acc (xs @ x # ys) = (acc @ rows, Some e)"
proof (induction xs arbitrary: acc rows)
  case Nil
  then show ?case by simp
next
  case (Cons y xs)
  then obtain r rs where "rows = r # rs" "row y = Inr r" "map row xs = map Inr rs"
    by (cases rows) auto
  with Cons.IH Cons.prems(2) show ?case by simp
qed

lemma map_user_row_not_null:
  "JNull \<notin> set us \<Longrightarrow>
   map user_row us = map Inr (map (\<lambda>u. user_row_html (tmpl (jprop u ''id'')) (tmpl (jprop u ''username''))) us)"
  by (induction us) (auto simp: user_row_not_null)

lemma map_location_row_not_null:
  "JNull \<notin> set ls \<Longrightarrow>
   map location_row ls = map Inr (map (\<lambda>l. location_row_html (tmpl (jprop l ''id'')) (tmpl (jprop l ''ipAddress''))
            (tmpl (or_empty (jprop l ''city''))) (tmpl (or_empty (jprop l ''country'')))) ls)"
  by (induction ls) (auto simp: location_row_not_null)

text \<open>
  For a binder that throws exactly on \<open>null\<close> (both binders of the script), the loop
  renders the elements before the first \<open>null\<close>.
\<close>

lemma render_rows_takeWhile_null:
  assumes "row JNull = Inl TypeError" and "\<And>x. x \<noteq> JNull \<Longrightarrow> row x = Inr (f x)"
  shows "render_rows row acc xs =
           (acc @ map f (takeWhile (\<lambda>x. x \<noteq> JNull) xs),
            if JNull \<in> set xs then Some TypeError else None)"
  using assms by (induction xs arbitrary: acc) auto

lemma render_rows_user_row:
  "render_rows user_row acc xs =
     (acc @ map (\<lambda>u. user_row_html (tmpl (jprop u ''id'')) (tmpl (jprop u ''username'')))
              (takeWhile (\<lambda>x. x \<noteq> JNull) xs),
      if JNull \<in> set xs then Some TypeError else None)"
  by (rule render_rows_takeWhile_null) (simp_all add: user_row_null user_row_not_null)

lemma render_rows_location_row:
  "render_rows location_row acc xs =
     (acc @ map (\<lambda>l. location_row_html (tmpl (jprop l ''id'')) (tmpl (jprop l ''ipAddress''))
                      (tmpl (or_empty (jprop l ''city''))) (tmpl (or_empty (jprop l ''country''))))
              (takeWhile (\<lambda>x. x \<noteq> JNull) xs),
      if JNull \<in> set xs then Some TypeError else None)"
  by (rule render_rows_takeWhile_null) (simp_all add: location_row_null location_row_not_null)

text \<open>
  C19: the rendering loop computes the rows of the elements before the first failing one
  and that element's exception, as the non-recursive description says.
\<close>

theorem render_rows_eq_spec: "render_rows row acc xs = render_rows_spec row acc xs"
proof (induction xs arbitrary: acc)
  case Nil
  then show ?case by (simp add: render_rows_spec_def)
next
  case (Cons x xs)
  then show ?case
    by (cases "row x") (simp_all add: render_rows_spec_def)
qed

text \<open>
  C20: a location whose city or country is missing, \<open>null\<close> or empty renders that
  cell (and the matching argument of its Edit button) as the empty string, never as
  \<open>undefined\<close> or \<open>null\<close>.
\<close>

theorem location_row_blank_fields:
  assumes "l \<noteq> JNull"
    and "jprop l ''city'' \<in> {None, Some JNull, Some (JStr [])}"
    and "jprop l ''country'' \<in> {None, Some JNull, Some (JStr [])}"
  shows "location_row l = Inr (location_row_html (tmpl (jprop l ''id'')) (tmpl (jprop l ''ipAddress'')) [] [])"
  using assms by (auto simp: location_row_def get_prop_not_null tmpl_or_empty)

theorem location_row_blank_fields_witness:
  "JObj [(''id'', JNum 7), (''ipAddress'', JStr ''1.2.3.4''), (''city'', JNull)] \<noteq> JNull \<and>
   jprop (JObj [(''id'', JNum 7), (''ipAddress'', JStr ''1.2.3.4''), (''city'', JNull)]) ''city''
     \<in> {None, Some JNull, Some (JStr [])} \<and>
   jprop (JObj [(''id'', JNum 7), (''ipAddress'', JStr ''1.2.3.4''), (''city'', JNull)]) ''country''
     \<in> {None, Some JNull, Some (JStr [])} \<and>
   location_row (JObj [(''id'', JNum 7), (''ipAddress'', JStr ''1.2.3.4''), (''city'', JNull)]) =
     Inr (location_row_html ''7'' ''1.2.3.4'' [] [])"
proof -
  let ?l = "JObj [(''id'', JNum 7), (''ipAddress'', JStr ''1.2.3.4''), (''city'', JNull)]"
  have h: "?l \<noteq> JNull" "jprop ?l ''city'' \<in> {None, Some JNull, Some (JStr [])}"
    "jprop ?l ''country'' \<in> {None, Some JNull, Some (JStr [])}"
    by (simp_all add: jprop_def)
  show ?thesis using location_row_blank_fields [OF h] h
    by (simp add: jprop_def tmpl_def show_int_def show_nat.simps digit_char_def decimal_digits_def)
qed

end
