(* ===== verification/Client.thy ===== *)
theory Client
  imports Http_Api Render
begin

text \<open>
  The client of \<^verbatim>\<open>app.js\<close> as a state machine.  Each \<open>async\<close> handler runs
  synchronously up to its \<open>await fetch(...)\<close>, which sends the request and leaves a
  continuation pending; the continuation runs when the response arrives, in any order
  relative to the other outstanding requests.  The state is the part of the page the
  script reads and writes, the console, the requests sent so far and the pending
  continuations.  The reading of the body by \<open>response.json()\<close> is merged with the
  arrival of the response: nothing observable happens between the two awaits of a
  successful fetch.  The lemmas show the functional behaviour of each handler and
  continuation on every branch, the well-formedness invariant of the requests in
  flight, what one step can change, termination of refresh chains, and invariants of
  both tables under every interleaving (\<open>run_preserves\<close>, \<open>step_table_inv\<close>).
\<close>

section \<open>State\<close>

text \<open>
  The elements of the DOM contract: the two table bodies (their rows' markup), the
  request counter's text, and the values of the three input fields.
\<close>

record page =
  users_tbody :: "string list"
  locations_tbody :: "string list"
  request_count :: string
  user_username :: string
  location_username :: string
  ip_address :: string

text \<open>
  A pending continuation: which handler awaits, with the variables its closure holds.
\<close>

datatype task =
    TFetchUsers
  | TFetchLocations
  | TFetchRequestCount
  | TCreateUser string
  | TCreateLocation string string
  | TDeleteUser "jval option"
  | TDeleteLocation "jval option"

record client =
  page :: page
  console :: "(string \<times> js_error) list"
  sent :: "request list"
  pending :: "(nat \<times> task) list"   \<comment> \<open>index of the request in \<open>sent\<close>, continuation\<close>

section \<open>Effects\<close>

text \<open>\<open>fetch(request)\<close>: the request is sent and the caller's continuation waits for it.\<close>

definition issue :: "task \<Rightarrow> request \<Rightarrow> client \<Rightarrow> client" where
  "issue t r s = s\<lparr>sent := sent s @ [r], pending := pending s @ [(length (sent s), t)]\<rparr>"

text \<open>\<open>console.error(msg, error)\<close>.\<close>

definition log_error :: "string \<Rightarrow> js_error \<Rightarrow> client \<Rightarrow> client" where
  "log_error msg e s = s\<lparr>console := console s @ [(msg, e)]\<rparr>"

text \<open>
  \<open>try { body } catch (error) { console.error(msg, error); }\<close>: the body returns the
  state it reached and the exception it threw, if any; what it did before throwing stays.
\<close>

definition try_catch :: "string \<Rightarrow> (client \<Rightarrow> client \<times> js_error option) \<Rightarrow> client \<Rightarrow> client" where
  "try_catch msg blk s = (case blk s of (s', None) \<Rightarrow> s' | (s', Some e) \<Rightarrow> log_error msg e s')"

text \<open>
  \<open>const response = await fetch(...); if (!response.ok) throw ...\<close>: a rejected
  fetch or a status outside 200--299 is an exception, otherwise the body.
\<close>

definition check_response :: "response \<Rightarrow> js_error + jval option" where
  "check_response r =
     (case r of NetFail \<Rightarrow> Inl NetworkError
      | Resp st b \<Rightarrow> if resp_ok st then Inr b else Inl (HttpError st))"

text \<open>\<open>await response.json()\<close>.\<close>

definition read_json :: "jval option \<Rightarrow> js_error + jval" where
  "read_json b = (case b of None \<Rightarrow> Inl SyntaxError | Some v \<Rightarrow> Inr v)"

definition set_users_tbody :: "string list \<Rightarrow> client \<Rightarrow> client" where
  "set_users_tbody rows s = s\<lparr>page := (page s)\<lparr>users_tbody := rows\<rparr>\<rparr>"

definition set_locations_tbody :: "string list \<Rightarrow> client \<Rightarrow> client" where
  "set_locations_tbody rows s = s\<lparr>page := (page s)\<lparr>locations_tbody := rows\<rparr>\<rparr>"

section \<open>Handlers up to their first await\<close>

definition fetchUsers :: "client \<Rightarrow> client" where
  "fetchUsers s = issue TFetchUsers (get_request users_url) s"

definition fetchLocations :: "client \<Rightarrow> client" where
  "fetchLocations s = issue TFetchLocations (get_request locations_url) s"

definition fetchRequestCount :: "client \<Rightarrow> client" where
  "fetchRequestCount s = issue TFetchRequestCount (get_request request_count_url) s"

text \<open>\<open>if (!username) return;\<close>: only the empty string is falsy.\<close>

definition createUser :: "client \<Rightarrow> client" where
  "createUser s =
     (let username = user_username (page s) in
      if username = [] then s
      else issue (TCreateUser username) (post_username users_url username) s)"

definition createLocation :: "client \<Rightarrow> client" where
  "createLocation s =
     (let username = location_username (page s); ipAddress = ip_address (page s) in
      if username = [] \<or> ipAddress = [] then s
      else issue (TCreateLocation username ipAddress)
             (post_username (location_url ipAddress) username) s)"

definition deleteUser :: "jval option \<Rightarrow> client \<Rightarrow> client" where
  "deleteUser uid s = issue (TDeleteUser uid) (delete_request (user_url uid)) s"

definition deleteLocation :: "jval option \<Rightarrow> client \<Rightarrow> client" where
  "deleteLocation lid s = issue (TDeleteLocation lid) (delete_request (location_item_url lid)) s"

section \<open>Continuations after the await\<close>

text \<open>\<open>fetchUsers\<close>, lines 5--24: check, read the body, render the table.\<close>

definition fetchUsers_body :: "response \<Rightarrow> client \<Rightarrow> client \<times> js_error option" where
  "fetchUsers_body r s =
     (case check_response r of Inl e \<Rightarrow> (s, Some e) | Inr b \<Rightarrow>
      (case read_json b of Inl e \<Rightarrow> (s, Some e) | Inr users \<Rightarrow>
       (case render_table user_row users of (rows, err) \<Rightarrow> (set_users_tbody rows s, err))))"

definition fetchUsers_k :: "response \<Rightarrow> client \<Rightarrow> client" where
  "fetchUsers_k r = try_catch ''Error fetching users:'' (fetchUsers_body r)"

definition fetchLocations_body :: "response \<Rightarrow> client \<Rightarrow> client \<times> js_error option" where
  "fetchLocations_body r s =
     (case check_response r of Inl e \<Rightarrow> (s, Some e) | Inr b \<Rightarrow>
      (case read_json b of Inl e \<Rightarrow> (s, Some e) | Inr locations \<Rightarrow>
       (case render_table location_row locations of (rows, err) \<Rightarrow> (set_locations_tbody rows s, err))))"

definition fetchLocations_k :: "response \<Rightarrow> client \<Rightarrow> client" where
  "fetchLocations_k r = try_catch ''Error fetching locations:'' (fetchLocations_body r)"

definition fetchRequestCount_body :: "response \<Rightarrow> client \<Rightarrow> client \<times> js_error option" where
  "fetchRequestCount_body r s =
     (case check_response r of Inl e \<Rightarrow> (s, Some e) | Inr b \<Rightarrow>
      (case read_json b of Inl e \<Rightarrow> (s, Some e) | Inr count \<Rightarrow>
       (s\<lparr>page := (page s)\<lparr>request_count := text_content count\<rparr>\<rparr>, None)))"

definition fetchRequestCount_k :: "response \<Rightarrow> client \<Rightarrow> client" where
  "fetchRequestCount_k r = try_catch ''Error fetching request count:'' (fetchRequestCount_body r)"

text \<open>
  \<open>createUser\<close>, lines 68--78: on success the field is cleared and \<open>fetchUsers()\<close>
  is called without \<open>await\<close>: it runs up to its own fetch, whose continuation is left
  pending beside the others.
\<close>

definition createUser_body :: "response \<Rightarrow> client \<Rightarrow> client \<times> js_error option" where
  "createUser_body r s =
     (case check_response r of Inl e \<Rightarrow> (s, Some e) | Inr b \<Rightarrow>
      (fetchUsers (s\<lparr>page := (page s)\<lparr>user_username := []\<rparr>\<rparr>), None))"

definition createUser_k :: "response \<Rightarrow> client \<Rightarrow> client" where
  "createUser_k r = try_catch ''Error creating user:'' (createUser_body r)"

definition createLocation_body :: "response \<Rightarrow> client \<Rightarrow> client \<times> js_error option" where
  "createLocation_body r s =
     (case check_response r of Inl e \<Rightarrow> (s, Some e) | Inr b \<Rightarrow>
      (fetchLocations (s\<lparr>page := (page s)\<lparr>location_username := [], ip_address := []\<rparr>\<rparr>), None))"

definition createLocation_k :: "response \<Rightarrow> client \<Rightarrow> client" where
  "createLocation_k r = try_catch ''Error creating location:'' (createLocation_body r)"

definition deleteUser_body :: "response \<Rightarrow> client \<Rightarrow> client \<times> js_error option" where
  "deleteUser_body r s =
     (case check_response r of Inl e \<Rightarrow> (s, Some e) | Inr b \<Rightarrow> (fetchUsers s, None))"

definition deleteUser_k :: "response \<Rightarrow> client \<Rightarrow> client" where
  "deleteUser_k r = try_catch ''Error deleting user:'' (deleteUser_body r)"

text \<open>
  \<open>deleteLocation\<close>: the source breaks off after its status check (line 117); the
  rest follows the specification and the shape of \<open>deleteUser\<close>.
\<close>

definition deleteLocation_body :: "response \<Rightarrow> client \<Rightarrow> client \<times> js_error option" where
  "deleteLocation_body r s =
     (case check_response r of Inl e \<Rightarrow> (s, Some e) | Inr b \<Rightarrow> (fetchLocations s, None))"

definition deleteLocation_k :: "response \<Rightarrow> client \<Rightarrow> client" where
  "deleteLocation_k r = try_catch ''Error deleting location:'' (deleteLocation_body r)"

text \<open>Resuming a pending continuation with the response to its request.\<close>

fun resume :: "task \<Rightarrow> response \<Rightarrow> client \<Rightarrow> client" where
  "resume TFetchUsers r = fetchUsers_k r"
| "resume TFetchLocations r = fetchLocations_k r"
| "resume TFetchRequestCount r = fetchRequestCount_k r"
| "resume (TCreateUser n) r = createUser_k r"
| "resume (TCreateLocation n ip) r = createLocation_k r"
| "resume (TDeleteUser uid) r = deleteUser_k r"
| "resume (TDeleteLocation lid) r = deleteLocation_k r"

text \<open>The message each handler's \<open>catch\<close> block passes to \<open>console.error\<close>.\<close>

fun task_message :: "task \<Rightarrow> string" where
  "task_message TFetchUsers = ''Error fetching users:''"
| "task_message TFetchLocations = ''Error fetching locations:''"
| "task_message TFetchRequestCount = ''Error fetching request count:''"
| "task_message (TCreateUser n) = ''Error creating user:''"
| "task_message (TCreateLocation n ip) = ''Error creating location:''"
| "task_message (TDeleteUser uid) = ''Error deleting user:''"
| "task_message (TDeleteLocation lid) = ''Error deleting location:''"

section \<open>Events and steps\<close>

text \<open>
  What can happen next: the page calls a handler (a button, a form, page load), the
  user types into an input field, or the response to a pending request arrives.
\<close>

datatype field = UserUsername | LocationUsername | IpAddress

datatype event =
    CallFetchUsers
  | CallFetchLocations
  | CallFetchRequestCount
  | CallCreateUser
  | CallCreateLocation
  | CallDeleteUser "jval option"
  | CallDeleteLocation "jval option"
  | Input field string
  | Respond nat response

definition set_input :: "field \<Rightarrow> string \<Rightarrow> client \<Rightarrow> client" where
  "set_input f v s =
     (case f of
        UserUsername \<Rightarrow> s\<lparr>page := (page s)\<lparr>user_username := v\<rparr>\<rparr>
      | LocationUsername \<Rightarrow> s\<lparr>page := (page s)\<lparr>location_username := v\<rparr>\<rparr>
      | IpAddress \<Rightarrow> s\<lparr>page := (page s)\<lparr>ip_address := v\<rparr>\<rparr>)"

text \<open>
  One step; \<open>None\<close> when the event cannot happen (a response to a request that is not
  pending).  The continuation is removed from the pending ones before it runs.
\<close>

fun step :: "client \<Rightarrow> event \<Rightarrow> client option" where
  "step s CallFetchUsers = Some (fetchUsers s)"
| "step s CallFetchLocations = Some (fetchLocations s)"
| "step s CallFetchRequestCount = Some (fetchRequestCount s)"
| "step s CallCreateUser = Some (createUser s)"
| "step s CallCreateLocation = Some (createLocation s)"
| "step s (CallDeleteUser uid) = Some (deleteUser uid s)"
| "step s (CallDeleteLocation lid) = Some (deleteLocation lid s)"
| "step s (Input f v) = Some (set_input f v s)"
| "step s (Respond i r) =
     (case map_of (pending s) i of
        None \<Rightarrow> None
      | Some t \<Rightarrow> Some (resume t r (s\<lparr>pending := filter (\<lambda>p. fst p \<noteq> i) (pending s)\<rparr>)))"

fun run :: "client \<Rightarrow> event list \<Rightarrow> client option" where
  "run s [] = Some s"
| "run s (e # es) = (case step s e of None \<Rightarrow> None | Some s' \<Rightarrow> run s' es)"

definition init_client :: "page \<Rightarrow> client" where
  "init_client p = \<lparr>page = p, console = [], sent = [], pending = []\<rparr>"

inductive reachable :: "client \<Rightarrow> bool" where
  init: "reachable (init_client p)"
| step: "reachable s \<Longrightarrow> step s e = Some s' \<Longrightarrow> reachable s'"

section \<open>Well-formedness of the pending continuations\<close>

text \<open>The request a pending continuation waits for is the one its handler sent.\<close>

fun task_request :: "task \<Rightarrow> request \<Rightarrow> bool" where
  "task_request TFetchUsers r = (r = get_request users_url)"
| "task_request TFetchLocations r = (r = get_request locations_url)"
| "task_request TFetchRequestCount r = (r = get_request request_count_url)"
| "task_request (TCreateUser n) r = (n \<noteq> [] \<and> r = post_username users_url n)"
| "task_request (TCreateLocation n ip) r =
     (n \<noteq> [] \<and> ip \<noteq> [] \<and> r = post_username (location_url ip) n)"
| "task_request (TDeleteUser uid) r = (r = delete_request (user_url uid))"
| "task_request (TDeleteLocation lid) r = (r = delete_request (location_item_url lid))"

text \<open>
  Each request has at most one continuation, and each continuation waits for a request
  already sent, the one its handler built.
\<close>

definition client_inv :: "client \<Rightarrow> bool" where
  "client_inv s \<longleftrightarrow>
     distinct (map fst (pending s)) \<and>
     list_all (\<lambda>(i, t). i < length (sent s) \<and> task_request t (sent s ! i)) (pending s)"

text \<open>
  The refresh a continuation starts on success: \<open>createUser\<close> and \<open>deleteUser\<close>
  call \<open>fetchUsers()\<close>, \<open>createLocation\<close> and \<open>deleteLocation\<close> call
  \<open>fetchLocations()\<close>, the fetch handlers start nothing.
\<close>

fun refresh_of :: "task \<Rightarrow> task option" where
  "refresh_of (TCreateUser n) = Some TFetchUsers"
| "refresh_of (TDeleteUser uid) = Some TFetchUsers"
| "refresh_of (TCreateLocation n ip) = Some TFetchLocations"
| "refresh_of (TDeleteLocation lid) = Some TFetchLocations"
| "refresh_of t = None"

text \<open>
  The work a continuation may still cause: one response for a fetch, two for a mutation
  (its own and that of the refresh it starts).
\<close>

fun task_weight :: "task \<Rightarrow> nat" where
  "task_weight t = (case refresh_of t of None \<Rightarrow> 1 | Some t' \<Rightarrow> 2)"

definition pending_weight :: "client \<Rightarrow> nat" where
  "pending_weight s = sum_list (map (task_weight \<circ> snd) (pending s))"

text \<open>
  The requests of the API table (specification, section 6): the three collection
  reads, a POST of a non-empty username to \<open>/users\<close> or to \<open>/location?ip=\<dots>\<close> with a
  non-empty address, and a DELETE of a user or a location.
\<close>

inductive api_request :: "request \<Rightarrow> bool" where
  get_users: "api_request (get_request users_url)"
| get_locations: "api_request (get_request locations_url)"
| get_count: "api_request (get_request request_count_url)"
| post_user: "n \<noteq> [] \<Longrightarrow> api_request (post_username users_url n)"
| post_location: "n \<noteq> [] \<Longrightarrow> ip \<noteq> [] \<Longrightarrow> api_request (post_username (location_url ip) n)"
| delete_user: "api_request (delete_request (user_url uid))"
| delete_location: "api_request (delete_request (location_item_url lid))"

text \<open>A page with empty tables and empty input fields.\<close>

definition blank_page :: page where
  "blank_page = \<lparr>users_tbody = [], locations_tbody = [], request_count = [],
                 user_username = [], location_username = [], ip_address = []\<rparr>"

section \<open>The fetch continuations\<close>

lemmas effect_defs [handler_simps] =
  issue_def log_error_def set_users_tbody_def set_locations_tbody_def

lemmas response_defs [handler_simps] =
  try_catch_def check_response_def read_json_def render_table_def

lemmas continuation_defs [handler_simps] =
  fetchUsers_k_def fetchUsers_body_def fetchLocations_k_def fetchLocations_body_def
  fetchRequestCount_k_def fetchRequestCount_body_def createUser_k_def createUser_body_def
  createLocation_k_def createLocation_body_def deleteUser_k_def deleteUser_body_def
  deleteLocation_k_def deleteLocation_body_def

lemmas call_defs [handler_simps] =
  fetchUsers_def fetchLocations_def fetchRequestCount_def createUser_def createLocation_def
  deleteUser_def deleteLocation_def set_input_def

text \<open>
  Everything a continuation unfolds to, and the case splits of its outcomes: a proof
  about \<open>resume t\<close> for every task \<open>t\<close> is a case split on \<open>t\<close> over these.
\<close>

lemmas resume_defs = continuation_defs call_defs effect_defs response_defs

lemmas resume_splits = response.splits sum.splits option.splits if_splits prod.splits

text \<open>The rows a successful fetch renders, one per element.\<close>

abbreviation user_rows :: "jval list \<Rightarrow> string list" where
  "user_rows us \<equiv> map (\<lambda>u. user_row_html (tmpl (jprop u ''id'')) (tmpl (jprop u ''username''))) us"

abbreviation location_rows :: "jval list \<Rightarrow> string list" where
  "location_rows ls \<equiv> map (\<lambda>l. location_row_html (tmpl (jprop l ''id'')) (tmpl (jprop l ''ipAddress''))
            (tmpl (or_empty (jprop l ''city''))) (tmpl (or_empty (jprop l ''country'')))) ls"

text \<open>
  C1: a successful response carrying an array of users replaces the whole table body by
  one row per user, in order, each row showing that user's id and username; nothing is
  logged and no request is sent.
\<close>

lemma fetchUsers_body_renders:
  assumes "resp_ok st" and "JNull \<notin> set users"
  shows "fetchUsers_body (Resp st (Some (JArr users))) s = (set_users_tbody (user_rows users) s, None)"
  using assms render_rows_all [OF map_user_row_not_null [OF assms(2)], of "[]"]
  by (simp add: fetchUsers_body_def response_defs)

theorem fetchUsers_k_renders:
  assumes "resp_ok st" and "JNull \<notin> set users"
  shows "fetchUsers_k (Resp st (Some (JArr users))) s = set_users_tbody (user_rows users) s"
  using assms render_rows_all [OF map_user_row_not_null [OF assms(2)], of "[]"]
  by (simp add: fetchUsers_k_def fetchUsers_body_def response_defs)

lemma fetchLocations_body_renders:
  assumes "resp_ok st" and "JNull \<notin> set locations"
  shows "fetchLocations_body (Resp st (Some (JArr locations))) s =
         (set_locations_tbody (location_rows locations) s, None)"
  using assms render_rows_all [OF map_location_row_not_null [OF assms(2)], of "[]"]
  by (simp add: fetchLocations_body_def response_defs)

text \<open>
  C21: a successful response carrying an array of locations replaces the whole
  locations table by one row per location, in order, and changes nothing else.
\<close>

theorem fetchLocations_k_renders:
  assumes "resp_ok st" and "JNull \<notin> set locations"
  shows "fetchLocations_k (Resp st (Some (JArr locations))) s =
         set_locations_tbody (location_rows locations) s"
  using fetchLocations_body_renders [OF assms] by (simp add: fetchLocations_k_def try_catch_def)

text \<open>
  C2: a response that fails leaves the page, the requests and the pending continuations
  as they were and adds one entry to the console: a transport error logs a network
  error; a status outside 200--299 logs an HTTP error with that status, whatever the
  body; a successful status whose body is not JSON logs a syntax error.
\<close>

theorem fetchUsers_k_failure:
  "fetchUsers_k NetFail s = log_error ''Error fetching users:'' NetworkError s \<and>
   (\<not> resp_ok st \<longrightarrow>
      fetchUsers_k (Resp st b) s = log_error ''Error fetching users:'' (HttpError st) s) \<and>
   (resp_ok st \<longrightarrow> fetchUsers_k (Resp st None) s = log_error ''Error fetching users:'' SyntaxError s)"
  by (simp add: fetchUsers_k_def fetchUsers_body_def response_defs)

text \<open>
  C3: when an element of the array is \<open>null\<close>, the rows of the elements before it stay
  in the emptied table and the error is logged: the previous contents are lost although
  the operation failed.
\<close>

theorem fetchUsers_k_partial:
  assumes "resp_ok st" and "JNull \<notin> set xs"
  shows "fetchUsers_k (Resp st (Some (JArr (xs @ JNull # ys)))) s =
         log_error ''Error fetching users:'' TypeError (set_users_tbody (user_rows xs) s)"
  using assms render_rows_stop [OF map_user_row_not_null [OF assms(2)] user_row_null, of "[]" ys]
  by (simp add: fetchUsers_k_def fetchUsers_body_def response_defs)

text \<open>
  C38: the same holds for the locations table: when an element of the array is
  \<open>null\<close>, the rows of the locations before it stay in the emptied table and the
  error is logged.
\<close>

theorem fetchLocations_k_partial:
  assumes "resp_ok st" and "JNull \<notin> set xs"
  shows "fetchLocations_k (Resp st (Some (JArr (xs @ JNull # ys)))) s =
         log_error ''Error fetching locations:'' TypeError (set_locations_tbody (location_rows xs) s)"
  using assms render_rows_stop [OF map_location_row_not_null [OF assms(2)] location_row_null, of "[]" ys]
  by (simp add: fetchLocations_k_def fetchLocations_body_def response_defs)

text \<open>
  C4: a successful response whose body is JSON but not an array empties the table
  (\<open>tbody.innerHTML = ''\<close> runs before \<open>users.forEach\<close> throws) and logs the error.
\<close>

theorem fetchUsers_k_not_array:
  assumes "resp_ok st" and "\<forall>xs. v \<noteq> JArr xs"
  shows "fetchUsers_k (Resp st (Some v)) s =
         log_error ''Error fetching users:'' TypeError (set_users_tbody [] s)"
  using assms
  by (cases v) (simp_all add: fetchUsers_k_def fetchUsers_body_def response_defs)

section \<open>The invariant\<close>

lemma client_inv_frame:
  "sent s' = sent s \<Longrightarrow> pending s' = pending s \<Longrightarrow> client_inv s' = client_inv s"
  by (simp add: client_inv_def)

lemma client_inv_issue:
  assumes "client_inv s" and "task_request t r"
  shows "client_inv (issue t r s)"
proof -
  have old: "list_all (\<lambda>(i, t). i < length (sent s) \<and> task_request t (sent s ! i)) (pending s)"
    and dist: "distinct (map fst (pending s))"
    using assms(1) by (simp_all add: client_inv_def)
  then have "length (sent s) \<notin> set (map fst (pending s))"
    by (auto simp: list_all_iff)
  with old dist assms(2) show ?thesis
    by (auto simp: client_inv_def issue_def list_all_iff nth_append)
qed

lemma client_inv_remove:
  "client_inv s \<Longrightarrow> client_inv (s\<lparr>pending := filter P (pending s)\<rparr>)"
  by (auto simp: client_inv_def list_all_iff distinct_map_filter)

lemma client_inv_log [simp]: "client_inv (log_error m e s) = client_inv s"
  by (simp add: client_inv_def log_error_def)

lemma client_inv_page [simp]: "client_inv (s\<lparr>page := p\<rparr>) = client_inv s"
  by (simp add: client_inv_def)

lemma client_inv_try_catch:
  assumes "\<And>s'. blk s = (s', None) \<or> (\<exists>e. blk s = (s', Some e)) \<Longrightarrow> client_inv s'"
  shows "client_inv (try_catch m blk s)"
  using assms by (auto simp: try_catch_def split: prod.splits option.splits)

lemma client_inv_fetches [intro]:
  "client_inv s \<Longrightarrow> client_inv (fetchUsers s)"
  "client_inv s \<Longrightarrow> client_inv (fetchLocations s)"
  "client_inv s \<Longrightarrow> client_inv (fetchRequestCount s)"
  by (auto simp: fetchUsers_def fetchLocations_def fetchRequestCount_def intro!: client_inv_issue)

lemma client_inv_resume:
  assumes "client_inv s"
  shows "client_inv (resume t r s)"
  using assms
  by (cases t)
     (auto simp: continuation_defs set_users_tbody_def set_locations_tbody_def
        check_response_def read_json_def
        intro!: client_inv_try_catch client_inv_fetches
        split: resume_splits)

lemma client_inv_calls:
  "client_inv s \<Longrightarrow> client_inv (createUser s)"
  "client_inv s \<Longrightarrow> client_inv (createLocation s)"
  "client_inv s \<Longrightarrow> client_inv (deleteUser uid s)"
  "client_inv s \<Longrightarrow> client_inv (deleteLocation lid s)"
  "client_inv s \<Longrightarrow> client_inv (set_input f v s)"
  by (auto simp: createUser_def createLocation_def deleteUser_def deleteLocation_def set_input_def
           Let_def intro!: client_inv_issue split: field.splits)

lemma client_inv_step:
  assumes "client_inv s" and "step s e = Some s'"
  shows "client_inv s'"
  using assms
  by (cases e) (auto simp: client_inv_calls client_inv_fetches
                     intro!: client_inv_resume client_inv_remove split: option.splits)

text \<open>
  C5: in every reachable state each outstanding request has exactly one continuation,
  and that continuation waits for a request already sent, the one its handler built.
\<close>

theorem reachable_client_inv:
  assumes "reachable s"
  shows "client_inv s"
  using assms
proof (induction rule: reachable.induct)
  case (init p)
  show ?case by (simp add: client_inv_def init_client_def)
next
  case (step s e s')
  then show ?case by (blast intro: client_inv_step)
qed

section \<open>Handlers followed by their response\<close>

text \<open>The index of the next request is not pending in a well-formed state.\<close>

lemma fresh_not_pending:
  assumes "client_inv s"
  shows "length (sent s) \<notin> fst ` set (pending s)"
  using assms by (auto simp: client_inv_def list_all_iff)

lemma filter_fresh:
  "client_inv s \<Longrightarrow> filter (\<lambda>p. fst p \<noteq> length (sent s)) (pending s) = pending s"
  using fresh_not_pending by (force intro: filter_True)

text \<open>The response to the request just issued resumes the continuation just left.\<close>

lemma respond_issued:
  assumes "client_inv s"
  shows "step (issue t r s) (Respond (length (sent s)) resp) =
         Some (resume t resp (s\<lparr>sent := sent s @ [r]\<rparr>))"
proof -
  have "map_of (pending s) (length (sent s)) = None"
    using fresh_not_pending [OF assms] by (simp add: map_of_eq_None_iff)
  then show ?thesis
    using filter_fresh [OF assms] by (simp add: issue_def map_of_append map_add_def)
qed

text \<open>A handler that sends one request, followed by the response to that request.\<close>

lemma run_call_respond:
  assumes "client_inv s" and "step s e = Some (issue t rq s)"
  shows "run s [e, Respond (length (sent s)) r] = Some (resume t r (s\<lparr>sent := sent s @ [rq]\<rparr>))"
  using assms by (simp add: respond_issued del: step.simps)

lemma step_createUser_issue:
  "user_username (page s) = name \<Longrightarrow> name \<noteq> [] \<Longrightarrow>
   step s CallCreateUser = Some (issue (TCreateUser name) (post_username users_url name) s)"
  by (simp add: createUser_def)

lemma step_deleteUser_issue:
  "step s (CallDeleteUser uid) = Some (issue (TDeleteUser uid) (delete_request (user_url uid)) s)"
  by (simp add: deleteUser_def)

text \<open>
  C6: the guards of the mutating handlers: \<open>createUser\<close> with an empty input field,
  and \<open>createLocation\<close> with either field empty, send nothing and change nothing.
\<close>

theorem mutation_guards:
  "(user_username (page s) = [] \<longrightarrow> step s CallCreateUser = Some s) \<and>
   (location_username (page s) = [] \<or> ip_address (page s) = [] \<longrightarrow> step s CallCreateLocation = Some s)"
  by (auto simp: createUser_def createLocation_def)

text \<open>
  C7: \<open>createUser\<close> posts every non-empty input, a blank one included: the guard
  \<open>!username\<close> is false for a string of spaces.
\<close>

theorem createUser_posts:
  assumes "user_username (page s) = name" and "name \<noteq> []"
  shows "step s CallCreateUser = Some (issue (TCreateUser name) (post_username users_url name) s)"
  using assms by (simp add: createUser_def)

text \<open>
  C8: after \<open>createUser\<close> and a successful response to its \<open>POST\<close>, the input field
  is empty, exactly one more request has been sent, a \<open>GET\<close> of the users, and its
  continuation is pending; nothing is logged.
\<close>

theorem createUser_success:
  assumes "client_inv s" and "user_username (page s) = name" and "name \<noteq> []"
    and "resp_ok st"
  shows "run s [CallCreateUser, Respond (length (sent s)) (Resp st b)] =
         Some (s\<lparr>page := (page s)\<lparr>user_username := []\<rparr>,
                 sent := sent s @ [post_username users_url name, get_request users_url],
                 pending := pending s @ [(Suc (length (sent s)), TFetchUsers)]\<rparr>)"
  using assms
  using run_call_respond [OF assms(1) step_createUser_issue [OF assms(2,3)]] assms(4)
  by (simp add: createUser_k_def createUser_body_def check_response_def try_catch_def
                fetchUsers_def issue_def)

text \<open>
  C9: when the \<open>POST\<close> of \<open>createUser\<close> fails, the input keeps its value, no
  refresh is requested, and the error is logged.
\<close>

theorem createUser_failure:
  assumes "client_inv s" and "user_username (page s) = name" and "name \<noteq> []"
    and "check_response r = Inl e"
  shows "run s [CallCreateUser, Respond (length (sent s)) r] =
         Some (s\<lparr>console := console s @ [(''Error creating user:'', e)],
                 sent := sent s @ [post_username users_url name]\<rparr>)"
  using assms
  using run_call_respond [OF assms(1) step_createUser_issue [OF assms(2,3)]] assms(4)
  by (simp add: createUser_k_def createUser_body_def try_catch_def log_error_def)

text \<open>
  C10: \<open>deleteUser(id)\<close> sends \<open>DELETE\<close> to the user's resource; on success it
  requests the users exactly once more, on failure it requests nothing and logs.
\<close>

theorem deleteUser_then_response:
  assumes "client_inv s"
  shows "run s [CallDeleteUser uid, Respond (length (sent s)) r] =
         Some (case check_response r of
                 Inl e \<Rightarrow> s\<lparr>console := console s @ [(''Error deleting user:'', e)],
                            sent := sent s @ [delete_request (user_url uid)]\<rparr>
               | Inr b \<Rightarrow> s\<lparr>sent := sent s @ [delete_request (user_url uid), get_request users_url],
                            pending := pending s @ [(Suc (length (sent s)), TFetchUsers)]\<rparr>)"
  using assms
  using run_call_respond [OF assms step_deleteUser_issue]
  by (simp add: deleteUser_k_def deleteUser_body_def try_catch_def log_error_def
                fetchUsers_def issue_def split: sum.splits)

section \<open>The theorems at concrete inputs\<close>

text \<open>The specification's scenario: \<open>GET /users\<close> returns \<open>[{id:1,username:"alice"}]\<close>.\<close>

theorem fetchUsers_k_renders_witness:
  "resp_ok 200 \<and> JNull \<notin> set [JObj [(''id'', JNum 1), (''username'', JStr ''alice'')]] \<and>
   users_tbody (page (fetchUsers_k (Resp 200 (Some (JArr [JObj [(''id'', JNum 1), (''username'', JStr ''alice'')]])))
     (init_client blank_page))) = [user_row_html ''1'' ''alice'']"
  using fetchUsers_k_renders [of 200 "[JObj [(''id'', JNum 1), (''username'', JStr ''alice'')]]"
      "init_client blank_page"]
  by (simp add: resp_ok_def set_users_tbody_def tmpl_def jprop_def show_int_def show_nat.simps digit_char_def decimal_digits_def)

theorem fetchUsers_k_failure_witness:
  "\<not> resp_ok 500 \<and> resp_ok 200 \<and>
   fetchUsers_k NetFail (init_client blank_page) =
     log_error ''Error fetching users:'' NetworkError (init_client blank_page) \<and>
   fetchUsers_k (Resp 500 (Some (JArr [JObj [(''id'', JNum 1), (''username'', JStr ''alice'')]])))
     (init_client blank_page) =
     log_error ''Error fetching users:'' (HttpError 500) (init_client blank_page) \<and>
   fetchUsers_k (Resp 200 None) (init_client blank_page) =
     log_error ''Error fetching users:'' SyntaxError (init_client blank_page)"
proof -
  have h: "\<not> resp_ok 500" "resp_ok 200" by (simp_all add: resp_ok_def)
  show ?thesis
    using fetchUsers_k_failure [of "init_client blank_page" 500
            "Some (JArr [JObj [(''id'', JNum 1), (''username'', JStr ''alice'')]])"]
          fetchUsers_k_failure [of "init_client blank_page" 200 None] h
    by simp
qed

theorem fetchUsers_k_partial_witness:
  "resp_ok 200 \<and> JNull \<notin> set [JObj [(''id'', JNum 1), (''username'', JStr ''alice'')]] \<and>
   fetchUsers_k (Resp 200 (Some (JArr [JObj [(''id'', JNum 1), (''username'', JStr ''alice'')], JNull])))
     (init_client blank_page) =
   \<lparr>page = blank_page\<lparr>users_tbody := [user_row_html ''1'' ''alice'']\<rparr>,
    console = [(''Error fetching users:'', TypeError)], sent = [], pending = []\<rparr>"
  using fetchUsers_k_partial [of 200 "[JObj [(''id'', JNum 1), (''username'', JStr ''alice'')]]"
      "[]" "init_client blank_page"]
  by (simp add: resp_ok_def set_users_tbody_def log_error_def init_client_def tmpl_def jprop_def
                show_int_def show_nat.simps digit_char_def decimal_digits_def)

theorem fetchLocations_k_partial_witness:
  "resp_ok 200 \<and> JNull \<notin> set [JObj [(''id'', JNum 3), (''ipAddress'', JStr ''8.8.8.8''), (''city'', JStr ''Paris'')]] \<and>
   fetchLocations_k
     (Resp 200 (Some (JArr [JObj [(''id'', JNum 3), (''ipAddress'', JStr ''8.8.8.8''), (''city'', JStr ''Paris'')], JNull])))
     (init_client blank_page) =
   \<lparr>page = blank_page\<lparr>locations_tbody := [location_row_html ''3'' ''8.8.8.8'' ''Paris'' []]\<rparr>,
    console = [(''Error fetching locations:'', TypeError)], sent = [], pending = []\<rparr>"
  using fetchLocations_k_partial [of 200 "[JObj [(''id'', JNum 3), (''ipAddress'', JStr ''8.8.8.8''), (''city'', JStr ''Paris'')]]"
      "[]" "init_client blank_page"]
  by (simp add: resp_ok_def set_locations_tbody_def log_error_def init_client_def tmpl_def jprop_def
                or_empty_def show_int_def show_nat.simps digit_char_def decimal_digits_def)

theorem fetchUsers_k_not_array_witness:
  "resp_ok 200 \<and> (\<forall>xs. JObj [] \<noteq> JArr xs) \<and>
   fetchUsers_k (Resp 200 (Some (JObj []))) (init_client (blank_page\<lparr>users_tbody := [''row'']\<rparr>)) =
   \<lparr>page = blank_page, console = [(''Error fetching users:'', TypeError)], sent = [], pending = []\<rparr>"
  using fetchUsers_k_not_array [of 200 "JObj []" "init_client (blank_page\<lparr>users_tbody := [''row'']\<rparr>)"]
  by (simp add: resp_ok_def set_users_tbody_def log_error_def init_client_def blank_page_def)

theorem reachable_client_inv_witness:
  "reachable (fetchUsers (init_client blank_page)) \<and> client_inv (fetchUsers (init_client blank_page))"
proof -
  have r: "reachable (fetchUsers (init_client blank_page))"
    by (rule reachable.step [OF reachable.init, of _ CallFetchUsers]) simp
  then show ?thesis using reachable_client_inv [OF r] by simp
qed

theorem mutation_guards_witness:
  "user_username (page (init_client blank_page)) = [] \<and>
   location_username (page (init_client blank_page)) = [] \<and>
   step (init_client blank_page) CallCreateUser = Some (init_client blank_page) \<and>
   step (init_client blank_page) CallCreateLocation = Some (init_client blank_page)"
  using mutation_guards [of "init_client blank_page"]
  by (simp add: init_client_def blank_page_def)

text \<open>A field holding two spaces is posted.\<close>

theorem createUser_posts_witness:
  "user_username (page (init_client (blank_page\<lparr>user_username := ''  ''\<rparr>))) = ''  '' \<and> ''  '' \<noteq> [] \<and>
   sent (the (step (init_client (blank_page\<lparr>user_username := ''  ''\<rparr>)) CallCreateUser)) =
     [post_username users_url ''  '']"
  using createUser_posts [of "init_client (blank_page\<lparr>user_username := ''  ''\<rparr>)" "''  ''"]
  by (simp add: init_client_def issue_def)

theorem createUser_success_witness:
  "client_inv (init_client (blank_page\<lparr>user_username := ''alice''\<rparr>)) \<and> ''alice'' \<noteq> [] \<and> resp_ok 201 \<and>
   run (init_client (blank_page\<lparr>user_username := ''alice''\<rparr>)) [CallCreateUser, Respond 0 (Resp 201 None)] =
     Some \<lparr>page = blank_page, console = [],
           sent = [post_username users_url ''alice'', get_request users_url],
           pending = [(1, TFetchUsers)]\<rparr>"
  using createUser_success [of "init_client (blank_page\<lparr>user_username := ''alice''\<rparr>)" "''alice''" 201 None]
  by (simp add: client_inv_def init_client_def resp_ok_def blank_page_def)

text \<open>The specification's scenario: the \<open>POST\<close> fails with status 500.\<close>

theorem createUser_failure_witness:
  "client_inv (init_client (blank_page\<lparr>user_username := ''alice''\<rparr>)) \<and> ''alice'' \<noteq> [] \<and>
   check_response (Resp 500 None) = Inl (HttpError 500) \<and>
   run (init_client (blank_page\<lparr>user_username := ''alice''\<rparr>)) [CallCreateUser, Respond 0 (Resp 500 None)] =
     Some \<lparr>page = blank_page\<lparr>user_username := ''alice''\<rparr>,
           console = [(''Error creating user:'', HttpError 500)],
           sent = [post_username users_url ''alice''], pending = []\<rparr>"
  using createUser_failure [of "init_client (blank_page\<lparr>user_username := ''alice''\<rparr>)" "''alice''"
      "Resp 500 None" "HttpError 500"]
  by (simp add: client_inv_def init_client_def check_response_def resp_ok_def)

text \<open>The specification's scenario: \<open>deleteUser(5)\<close> issues \<open>DELETE /users/5\<close>.\<close>

theorem deleteUser_then_response_witness:
  "client_inv (init_client blank_page) \<and>
   run (init_client blank_page) [CallDeleteUser (Some (JNum 5)), Respond 0 (Resp 204 None)] =
     Some \<lparr>page = blank_page, console = [],
           sent = [delete_request ''http://localhost:8080/api/users/5'', get_request users_url],
           pending = [(1, TFetchUsers)]\<rparr>"
  using deleteUser_then_response [of "init_client blank_page" "Some (JNum 5)" "Resp 204 None"]
  by (simp add: client_inv_def init_client_def check_response_def resp_ok_def user_url_def BASE_URL_def
                tmpl_def show_int_def show_nat.simps digit_char_def decimal_digits_def)

section \<open>What one step can change\<close>

text \<open>A continuation sends at most the one refresh request its task starts.\<close>

lemma resume_sent_pending:
  "(sent (resume t r s) = sent s \<and> pending (resume t r s) = pending s) \<or>
   (\<exists>t' q. refresh_of t = Some t' \<and> sent (resume t r s) = sent s @ [q] \<and>
           pending (resume t r s) = pending s @ [(length (sent s), t')])"
  by (cases t)
     (auto simp: resume_defs split: resume_splits)

lemma resume_console:
  "\<exists>es. console (resume t r s) = console s @ es \<and> length es \<le> 1"
  by (cases t)
     (auto simp: resume_defs split: resume_splits)

lemma resume_users_tbody:
  "t \<noteq> TFetchUsers \<Longrightarrow> users_tbody (page (resume t r s)) = users_tbody (page s)"
  by (cases t)
     (auto simp: resume_defs split: resume_splits)

lemma pending_task_request:
  "client_inv s \<Longrightarrow> map_of (pending s) i = Some t \<Longrightarrow>
   i < length (sent s) \<and> task_request t (sent s ! i)"
  by (auto simp: client_inv_def list_all_iff dest!: map_of_SomeD)

text \<open>
  C11: in every reachable state, the users table changes only when the response to a
  pending \<open>GET /users\<close> is processed: no other handler, response or input touches it.
\<close>

theorem users_tbody_changes_only_by_users_fetch:
  assumes "reachable s" and "step s e = Some s'"
    and "users_tbody (page s') \<noteq> users_tbody (page s)"
  shows "\<exists>i r. e = Respond i r \<and> map_of (pending s) i = Some TFetchUsers \<and>
                i < length (sent s) \<and> sent s ! i = get_request users_url"
proof (cases e)
  case (Respond i r)
  with assms(2) obtain t where t: "map_of (pending s) i = Some t"
    and s': "s' = resume t r (s\<lparr>pending := filter (\<lambda>p. fst p \<noteq> i) (pending s)\<rparr>)"
    by (auto split: option.splits)
  have "t = TFetchUsers"
    using assms(3) resume_users_tbody [of t r] s' by fastforce
  with t Respond pending_task_request [OF reachable_client_inv [OF assms(1)] t] show ?thesis
    by simp
qed (use assms in \<open>auto simp: call_defs effect_defs Let_def split: field.splits if_splits\<close>)

lemma append_at_most_one:
  "xs' = xs \<or> (\<exists>q. xs' = xs @ [q]) \<Longrightarrow> \<exists>rs. xs' = xs @ rs \<and> length rs \<le> 1"
proof (elim disjE exE)
  assume "xs' = xs" then show ?thesis by (intro exI [of _ "[]"]) simp
next
  fix q assume "xs' = xs @ [q]" then show ?thesis by (intro exI [of _ "[q]"]) simp
qed
lemma call_appends_only:
  assumes "step s e = Some s'" and "\<forall>i r. e \<noteq> Respond i r"
  shows "(sent s' = sent s \<or> (\<exists>q. sent s' = sent s @ [q])) \<and> console s' = console s"
  using assms by (cases e) (auto simp: call_defs effect_defs Let_def split: field.splits if_splits)

lemma respond_appends_only:
  assumes "step s (Respond i r) = Some s'"
  shows "(sent s' = sent s \<or> (\<exists>q. sent s' = sent s @ [q])) \<and>
         (\<exists>es. console s' = console s @ es \<and> length es \<le> 1)"
proof -
  from assms obtain t where
    s': "s' = resume t r (s\<lparr>pending := filter (\<lambda>p. fst p \<noteq> i) (pending s)\<rparr>)"
    by (auto split: option.splits)
  show ?thesis
    using resume_sent_pending [of t r "s\<lparr>pending := filter (\<lambda>p. fst p \<noteq> i) (pending s)\<rparr>"]
      resume_console [of t r "s\<lparr>pending := filter (\<lambda>p. fst p \<noteq> i) (pending s)\<rparr>"] s'
    by auto
qed

theorem step_appends_only:
  assumes "step s e = Some s'"
  shows "\<exists>rs es. sent s' = sent s @ rs \<and> length rs \<le> 1 \<and> console s' = console s @ es \<and> length es \<le> 1"
proof (cases "\<exists>i r. e = Respond i r")
  case True
  then obtain i r where "e = Respond i r" by blast
  with respond_appends_only [of s i r s'] assms append_at_most_one [of "sent s'" "sent s"]
  show ?thesis by blast
next
  case False
  with call_appends_only [OF assms] append_at_most_one [of "sent s'" "sent s"]
  show ?thesis by fastforce
qed
section \<open>Termination of refresh chains and quiescence\<close>

lemma refresh_of_refresh: "refresh_of t = Some t' \<Longrightarrow> refresh_of t' = None"
  by (cases t) auto

lemma weight_filter:
  "distinct (map fst ps) \<Longrightarrow> map_of ps i = Some t \<Longrightarrow>
   sum_list (map (task_weight \<circ> snd) (filter (\<lambda>p. fst p \<noteq> i) ps)) + task_weight t =
   sum_list (map (task_weight \<circ> snd) ps)"
proof (induction ps)
  case Nil
  then show ?case by simp
next
  case (Cons p ps)
  show ?case
  proof (cases "fst p = i")
    case True
    with Cons.prems have "\<forall>q\<in>set ps. fst q \<noteq> i" "snd p = t"
      by (auto simp: split_beta image_iff)
    then have "filter (\<lambda>p. fst p \<noteq> i) ps = ps" by (simp add: filter_True)
    with True \<open>snd p = t\<close> show ?thesis by simp
  next
    case False
    with Cons show ?thesis by (auto simp: split_beta)
  qed
qed

text \<open>Processing a response lowers the work still outstanding.\<close>

lemma respond_weight:
  assumes "client_inv s" and "step s (Respond i r) = Some s'"
  shows "pending_weight s' < pending_weight s"
proof -
  from assms(2) obtain t where t: "map_of (pending s) i = Some t"
    and s': "s' = resume t r (s\<lparr>pending := filter (\<lambda>p. fst p \<noteq> i) (pending s)\<rparr>)"
    by (auto split: option.splits)
  define s1 where "s1 = s\<lparr>pending := filter (\<lambda>p. fst p \<noteq> i) (pending s)\<rparr>"
  have w: "pending_weight s1 + task_weight t = pending_weight s"
    using weight_filter [OF _ t] assms(1) by (simp add: s1_def pending_weight_def client_inv_def)
  have pos: "0 < task_weight t" by (simp split: option.splits)
  from resume_sent_pending [of t r s1] show ?thesis
  proof
    assume "sent (resume t r s1) = sent s1 \<and> pending (resume t r s1) = pending s1"
    with w pos s' show ?thesis by (simp add: s1_def pending_weight_def)
  next
    assume "\<exists>t' q. refresh_of t = Some t' \<and> sent (resume t r s1) = sent s1 @ [q] \<and>
              pending (resume t r s1) = pending s1 @ [(length (sent s1), t')]"
    then obtain t' where "refresh_of t = Some t'"
      and p: "pending (resume t r s1) = pending s1 @ [(length (sent s1), t')]" by blast
    then have "task_weight t = 2" "task_weight t' = 1"
      by (simp_all add: refresh_of_refresh)
    with w p s' show ?thesis by (simp add: s1_def pending_weight_def)
  qed
qed

text \<open>
  C13: without new calls from the page, the client processes at most
  \<open>pending_weight s\<close> responses: every refresh chain it has started ends.
\<close>

theorem responses_drain:
  assumes "client_inv s" and "run s (map (\<lambda>(i, r). Respond i r) rs) = Some s'"
  shows "length rs \<le> pending_weight s"
  using assms
proof (induction rs arbitrary: s)
  case Nil
  then show ?case by simp
next
  case (Cons x rs)
  obtain i r where x: "x = (i, r)" by fastforce
  with Cons.prems(2) obtain s1 where s1: "step s (Respond i r) = Some s1"
    and rest: "run s1 (map (\<lambda>(i, r). Respond i r) rs) = Some s'"
    by (auto split: option.splits)
  have "client_inv s1" using client_inv_step [OF Cons.prems(1) s1] .
  from this rest have "length rs \<le> pending_weight s1" by (rule Cons.IH)
  moreover have "pending_weight s1 < pending_weight s" by (rule respond_weight [OF Cons.prems(1) s1])
  ultimately show ?case by (simp add: x)
qed

text \<open>
  C14: whatever the server answers, answering the pending requests one by one brings the
  client to a state with nothing pending.
\<close>

theorem quiescence_reachable:
  assumes "client_inv s"
  shows "\<exists>idx s'. run s (map (\<lambda>i. Respond i (answer i)) idx) = Some s' \<and> pending s' = []"
  using assms
proof (induction "pending_weight s" arbitrary: s rule: less_induct)
  case less
  show ?case
  proof (cases "pending s")
    case Nil
    then show ?thesis by (metis list.simps(8) run.simps(1))
  next
    case (Cons p ps)
    then obtain t where "map_of (pending s) (fst p) = Some t"
      by (cases p) auto
    then obtain s1 where s1: "step s (Respond (fst p) (answer (fst p))) = Some s1"
      by simp
    have "client_inv s1" using client_inv_step [OF less.prems s1] .
    with respond_weight [OF less.prems s1] less.hyps obtain idx s' where
      "run s1 (map (\<lambda>i. Respond i (answer i)) idx) = Some s'" "pending s' = []"
      by blast
    with s1 have "run s (map (\<lambda>i. Respond i (answer i)) (fst p # idx)) = Some s'" by simp
    with \<open>pending s' = []\<close> show ?thesis by blast
  qed
qed

section \<open>Witnesses of the safety, bounds and termination theorems\<close>

theorem users_tbody_changes_only_by_users_fetch_witness:
  "reachable (fetchUsers (init_client blank_page)) \<and>
   step (fetchUsers (init_client blank_page)) (Respond 0 (Resp 200 (Some (JArr [JObj []])))) =
     Some \<lparr>page = blank_page\<lparr>users_tbody := [user_row_html ''undefined'' ''undefined'']\<rparr>,
           console = [], sent = [get_request users_url], pending = []\<rparr> \<and>
   [user_row_html ''undefined'' ''undefined''] \<noteq> users_tbody (page (fetchUsers (init_client blank_page))) \<and>
   sent (fetchUsers (init_client blank_page)) ! 0 = get_request users_url"
proof -
  have r: "reachable (fetchUsers (init_client blank_page))"
    by (rule reachable.step [OF reachable.init, of _ CallFetchUsers]) simp
  have st: "step (fetchUsers (init_client blank_page)) (Respond 0 (Resp 200 (Some (JArr [JObj []])))) =
     Some \<lparr>page = blank_page\<lparr>users_tbody := [user_row_html ''undefined'' ''undefined'']\<rparr>,
           console = [], sent = [get_request users_url], pending = []\<rparr>"
    by (simp add: fetchUsers_def issue_def init_client_def fetchUsers_k_def fetchUsers_body_def
                  response_defs resp_ok_def set_users_tbody_def user_row_def tmpl_def)
  have ne: "[user_row_html ''undefined'' ''undefined''] \<noteq> users_tbody (page (fetchUsers (init_client blank_page)))"
    by (simp add: fetchUsers_def issue_def init_client_def blank_page_def)
  from users_tbody_changes_only_by_users_fetch [OF r st] ne
  have "sent (fetchUsers (init_client blank_page)) ! 0 = get_request users_url"
    by (auto simp: fetchUsers_def issue_def init_client_def blank_page_def)
  with r st ne show ?thesis by simp
qed

theorem step_appends_only_witness:
  "step (init_client blank_page) CallFetchUsers = Some (fetchUsers (init_client blank_page)) \<and>
   sent (fetchUsers (init_client blank_page)) = [get_request users_url]"
  using step_appends_only [of "init_client blank_page" CallFetchUsers "fetchUsers (init_client blank_page)"]
  by (simp add: fetchUsers_def issue_def init_client_def)

theorem responses_drain_witness:
  "client_inv (createUser (init_client (blank_page\<lparr>user_username := ''alice''\<rparr>))) \<and>
   run (createUser (init_client (blank_page\<lparr>user_username := ''alice''\<rparr>)))
       (map (\<lambda>(i, r). Respond i r) [(0, Resp 201 None), (1, Resp 200 (Some (JArr [])))]) \<noteq> None \<and>
   length [(0::nat, Resp 201 None), (1, Resp 200 (Some (JArr [])))] \<le>
     pending_weight (createUser (init_client (blank_page\<lparr>user_username := ''alice''\<rparr>)))"
proof -
  let ?s = "createUser (init_client (blank_page\<lparr>user_username := ''alice''\<rparr>))"
  have inv: "client_inv ?s"
    by (simp add: createUser_def Let_def issue_def init_client_def client_inv_def post_username_def)
  have run: "run ?s (map (\<lambda>(i, r). Respond i r) [(0, Resp 201 None), (1, Resp 200 (Some (JArr [])))]) =
             Some \<lparr>page = blank_page, console = [],
                   sent = [post_username users_url ''alice'', get_request users_url], pending = []\<rparr>"
    by (simp add: createUser_def Let_def issue_def init_client_def continuation_defs response_defs resp_ok_def
                  fetchUsers_def set_users_tbody_def blank_page_def)
  show ?thesis using responses_drain [OF inv run] inv run by simp
qed

theorem quiescence_reachable_witness:
  "client_inv (createUser (init_client (blank_page\<lparr>user_username := ''alice''\<rparr>))) \<and>
   (\<exists>idx s'. run (createUser (init_client (blank_page\<lparr>user_username := ''alice''\<rparr>)))
       (map (\<lambda>i. Respond i (Resp 500 None)) idx) = Some s' \<and> pending s' = [])"
proof -
  have inv: "client_inv (createUser (init_client (blank_page\<lparr>user_username := ''alice''\<rparr>)))"
    by (simp add: createUser_def Let_def issue_def init_client_def client_inv_def post_username_def)
  show ?thesis using quiescence_reachable [OF inv, of "\<lambda>i. Resp 500 None"] inv by simp
qed

section \<open>The request counter, createLocation, and racing refreshes\<close>

text \<open>
  C22: a successful response to the counter's request writes the value into the
  counter element as \<open>textContent\<close> does: \<open>null\<close> empties it, any other value is
  converted to a string; nothing else changes.
\<close>

theorem fetchRequestCount_k_sets_text:
  assumes "resp_ok st"
  shows "fetchRequestCount_k (Resp st (Some v)) s = s\<lparr>page := (page s)\<lparr>request_count := text_content v\<rparr>\<rparr>"
  using assms by (simp add: fetchRequestCount_k_def fetchRequestCount_body_def response_defs)

theorem fetchRequestCount_k_sets_text_witness:
  "resp_ok 200 \<and>
   request_count (page (fetchRequestCount_k (Resp 200 (Some (JNum 42))) (init_client blank_page))) = ''42'' \<and>
   request_count (page (fetchRequestCount_k (Resp 200 (Some JNull))
     (init_client (blank_page\<lparr>request_count := ''7''\<rparr>)))) = []"
  using fetchRequestCount_k_sets_text [of 200 "JNum 42" "init_client blank_page"]
    fetchRequestCount_k_sets_text [of 200 JNull "init_client (blank_page\<lparr>request_count := ''7''\<rparr>)"]
  by (simp add: resp_ok_def text_content_def show_int_def show_nat.simps digit_char_def decimal_digits_def)

lemma step_createLocation_issue:
  "location_username (page s) = name \<Longrightarrow> ip_address (page s) = ip \<Longrightarrow> name \<noteq> [] \<Longrightarrow> ip \<noteq> [] \<Longrightarrow>
   step s CallCreateLocation =
     Some (issue (TCreateLocation name ip) (post_username (location_url ip) name) s)"
  by (simp add: createLocation_def)

text \<open>
  C24: after \<open>createLocation\<close> and a successful response to its \<open>POST\<close> to
  \<open>/location?ip=\<dots>\<close>, both input fields are empty and exactly one more request has
  been sent, a \<open>GET\<close> of the locations, whose continuation is pending.
\<close>

theorem createLocation_success:
  assumes "client_inv s" and "location_username (page s) = name" and "ip_address (page s) = ip"
    and "name \<noteq> []" and "ip \<noteq> []" and "resp_ok st"
  shows "run s [CallCreateLocation, Respond (length (sent s)) (Resp st b)] =
         Some (s\<lparr>page := (page s)\<lparr>location_username := [], ip_address := []\<rparr>,
                 sent := sent s @ [post_username (location_url ip) name, get_request locations_url],
                 pending := pending s @ [(Suc (length (sent s)), TFetchLocations)]\<rparr>)"
  using run_call_respond [OF assms(1) step_createLocation_issue [OF assms(2-5)]] assms(6)
  by (simp add: createLocation_k_def createLocation_body_def check_response_def try_catch_def
                fetchLocations_def issue_def)

theorem createLocation_success_witness:
  "client_inv (init_client (blank_page\<lparr>location_username := ''bob'', ip_address := ''10.0.0.1''\<rparr>)) \<and>
   ''bob'' \<noteq> [] \<and> ''10.0.0.1'' \<noteq> [] \<and> resp_ok 201 \<and>
   run (init_client (blank_page\<lparr>location_username := ''bob'', ip_address := ''10.0.0.1''\<rparr>))
       [CallCreateLocation, Respond 0 (Resp 201 None)] =
     Some \<lparr>page = blank_page, console = [],
           sent = [post_username ''http://localhost:8080/api/location?ip=10.0.0.1'' ''bob'',
                   get_request locations_url],
           pending = [(1, TFetchLocations)]\<rparr>"
  using createLocation_success [of "init_client (blank_page\<lparr>location_username := ''bob'', ip_address := ''10.0.0.1''\<rparr>)"
      "''bob''" "''10.0.0.1''" 201 None]
  by (simp add: client_inv_def init_client_def resp_ok_def blank_page_def location_url_def BASE_URL_def)

lemma map_of_filter_other:
  "i \<noteq> j \<Longrightarrow> map_of (filter (\<lambda>p. fst p \<noteq> j) ps) i = map_of ps i"
  by (induction ps) auto

text \<open>
  C25: two users refreshes in flight are not ordered: whichever response is processed
  last determines the table, even when it answers the request sent first.  Nothing in
  the client discards a stale response.
\<close>

theorem last_users_response_wins:
  assumes "map_of (pending s) i = Some TFetchUsers" and "map_of (pending s) j = Some TFetchUsers"
    and "i \<noteq> j" and "resp_ok st1" and "resp_ok st2"
    and "JNull \<notin> set us1" and "JNull \<notin> set us2"
  shows "\<exists>s'. run s [Respond j (Resp st2 (Some (JArr us2))), Respond i (Resp st1 (Some (JArr us1)))] = Some s' \<and>
              users_tbody (page s') = user_rows us1"
proof -
  let ?s1 = "set_users_tbody (user_rows us2) (s\<lparr>pending := filter (\<lambda>p. fst p \<noteq> j) (pending s)\<rparr>)"
  have 1: "step s (Respond j (Resp st2 (Some (JArr us2)))) = Some ?s1"
    using assms(2) fetchUsers_body_renders [OF assms(5,7)] by (simp add: fetchUsers_k_def try_catch_def)
  have "map_of (pending ?s1) i = Some TFetchUsers"
    using assms(1,3) by (simp add: set_users_tbody_def map_of_filter_other)
  then have 2: "step ?s1 (Respond i (Resp st1 (Some (JArr us1)))) =
     Some (set_users_tbody (user_rows us1) (?s1\<lparr>pending := filter (\<lambda>p. fst p \<noteq> i) (pending ?s1)\<rparr>))"
    using fetchUsers_body_renders [OF assms(4,6)] by (simp add: fetchUsers_k_def try_catch_def)
  from 1 2 show ?thesis by (simp add: set_users_tbody_def)
qed

text \<open>Two refreshes sent in order; the response to the first arrives last and wins.\<close>

theorem last_users_response_wins_witness:
  "map_of (pending (fetchUsers (fetchUsers (init_client blank_page)))) 0 = Some TFetchUsers \<and>
   map_of (pending (fetchUsers (fetchUsers (init_client blank_page)))) 1 = Some TFetchUsers \<and>
   (0::nat) \<noteq> 1 \<and> resp_ok 200 \<and> JNull \<notin> set [JObj [(''id'', JNum 1), (''username'', JStr ''alice'')]] \<and>
   JNull \<notin> set ([]::jval list) \<and>
   (\<exists>s'. run (fetchUsers (fetchUsers (init_client blank_page)))
           [Respond 1 (Resp 200 (Some (JArr []))),
            Respond 0 (Resp 200 (Some (JArr [JObj [(''id'', JNum 1), (''username'', JStr ''alice'')]])))] = Some s' \<and>
         users_tbody (page s') = [user_row_html ''1'' ''alice''])"
proof -
  have p: "map_of (pending (fetchUsers (fetchUsers (init_client blank_page)))) 0 = Some TFetchUsers"
    "map_of (pending (fetchUsers (fetchUsers (init_client blank_page)))) 1 = Some TFetchUsers"
    by (simp_all add: fetchUsers_def issue_def init_client_def)
  show ?thesis
    using last_users_response_wins [OF p, of 200 200 "[JObj [(''id'', JNum 1), (''username'', JStr ''alice'')]]" "[]"] p
    by (simp add: resp_ok_def jprop_def tmpl_def show_int_def show_nat.simps digit_char_def decimal_digits_def)
qed

theorem fetchLocations_k_renders_witness:
  "resp_ok 200 \<and> JNull \<notin> set [JObj [(''id'', JNum 3), (''ipAddress'', JStr ''8.8.8.8''), (''city'', JStr ''Paris'')]] \<and>
   locations_tbody (page (fetchLocations_k
     (Resp 200 (Some (JArr [JObj [(''id'', JNum 3), (''ipAddress'', JStr ''8.8.8.8''), (''city'', JStr ''Paris'')]])))
     (init_client blank_page))) = [location_row_html ''3'' ''8.8.8.8'' ''Paris'' []]"
  using fetchLocations_k_renders [of 200 "[JObj [(''id'', JNum 3), (''ipAddress'', JStr ''8.8.8.8''), (''city'', JStr ''Paris'')]]"
      "init_client blank_page"]
  by (simp add: resp_ok_def set_locations_tbody_def tmpl_def jprop_def or_empty_def show_int_def
                show_nat.simps digit_char_def decimal_digits_def)

section \<open>Invariants of the requests and of the tables\<close>

lemma task_request_api: "task_request t q \<Longrightarrow> api_request q"
  by (cases t) (auto intro: api_request.intros)

lemma refresh_request_api:
  "refresh_of t = Some t' \<Longrightarrow> sent (resume t r s) = sent s @ [q] \<Longrightarrow> api_request q"
  by (cases t)
     (auto simp: resume_defs intro: api_request.intros split: resume_splits)

lemma step_sent_api:
  assumes "step s e = Some s'"
  shows "\<exists>rs. sent s' = sent s @ rs \<and> list_all api_request rs"
proof (cases e)
  case (Respond i r)
  with assms obtain t where
    s': "s' = resume t r (s\<lparr>pending := filter (\<lambda>p. fst p \<noteq> i) (pending s)\<rparr>)"
    by (auto split: option.splits)
  have "sent s' = sent s \<or> (\<exists>t' q. refresh_of t = Some t' \<and>
          sent (resume t r (s\<lparr>pending := filter (\<lambda>p. fst p \<noteq> i) (pending s)\<rparr>)) =
          sent (s\<lparr>pending := filter (\<lambda>p. fst p \<noteq> i) (pending s)\<rparr>) @ [q])"
    using resume_sent_pending [of t r "s\<lparr>pending := filter (\<lambda>p. fst p \<noteq> i) (pending s)\<rparr>"] s'
    by auto
  then show ?thesis
  proof
    assume "sent s' = sent s"
    then show ?thesis by simp
  next
    assume "\<exists>t' q. refresh_of t = Some t' \<and>
              sent (resume t r (s\<lparr>pending := filter (\<lambda>p. fst p \<noteq> i) (pending s)\<rparr>)) =
              sent (s\<lparr>pending := filter (\<lambda>p. fst p \<noteq> i) (pending s)\<rparr>) @ [q]"
    then obtain t' q where "refresh_of t = Some t'"
      and q: "sent (resume t r (s\<lparr>pending := filter (\<lambda>p. fst p \<noteq> i) (pending s)\<rparr>)) =
              sent (s\<lparr>pending := filter (\<lambda>p. fst p \<noteq> i) (pending s)\<rparr>) @ [q]"
      by blast
    then have "api_request q" by (rule refresh_request_api)
    with q s' show ?thesis by simp
  qed
qed (use assms in \<open>auto simp: call_defs effect_defs Let_def intro: api_request.intros
                        split: field.splits if_splits\<close>)

text \<open>
  C29: in every reachable state, every request the client has sent is one of the API
  table's; in particular no username it posts is empty.
\<close>

theorem reachable_sent_api:
  assumes "reachable s"
  shows "list_all api_request (sent s)"
  using assms
proof (induction rule: reachable.induct)
  case (init p)
  show ?case by (simp add: init_client_def)
next
  case (step s e s')
  then obtain rs where "sent s' = sent s @ rs" "list_all api_request rs"
    using step_sent_api by blast
  with step.IH show ?case by simp
qed

theorem reachable_sent_api_witness:
  "reachable (createUser (init_client (blank_page\<lparr>user_username := ''alice''\<rparr>))) \<and>
   list_all api_request (sent (createUser (init_client (blank_page\<lparr>user_username := ''alice''\<rparr>))))"
proof -
  have r: "reachable (createUser (init_client (blank_page\<lparr>user_username := ''alice''\<rparr>)))"
    by (rule reachable.step [OF reachable.init, of _ CallCreateUser]) simp
  show ?thesis using reachable_sent_api [OF r] r by simp
qed

section \<open>The tables under every interleaving\<close>

text \<open>A property every step preserves holds after every run.\<close>

lemma run_preserves:
  assumes "\<And>s e s'. step s e = Some s' \<Longrightarrow> P s \<Longrightarrow> P s'"
    and "P s0" and "run s0 es = Some s"
  shows "P s"
  using assms(3,2)
proof (induction es arbitrary: s0)
  case (Cons e es)
  then obtain s1 where s1: "step s0 e = Some s1" "run s1 es = Some s"
    by (auto split: option.splits)
  from assms(1) [OF s1(1) Cons.prems(2)] show ?case by (rule Cons.IH [OF s1(2)])
qed simp

text \<open>Calls and typing leave both tables as they are; only continuations write them.\<close>

lemma step_call_tables:
  assumes "step s e = Some s'" and "\<forall>i r. e \<noteq> Respond i r"
  shows "users_tbody (page s') = users_tbody (page s) \<and>
         locations_tbody (page s') = locations_tbody (page s)"
  using assms
  by (cases e) (auto simp: call_defs effect_defs Let_def set_input_def split: field.splits if_splits)

lemma resume_locations_tbody:
  "t \<noteq> TFetchLocations \<Longrightarrow> locations_tbody (page (resume t r s)) = locations_tbody (page s)"
  by (cases t)
     (auto simp: resume_defs split: resume_splits)

text \<open>
  C35: in every reachable state, the locations table changes only when the response to a
  pending \<open>GET /locations\<close> is processed: no other handler, response or input touches it.
\<close>

theorem locations_tbody_changes_only_by_locations_fetch:
  assumes "reachable s" and "step s e = Some s'"
    and "locations_tbody (page s') \<noteq> locations_tbody (page s)"
  shows "\<exists>i r. e = Respond i r \<and> map_of (pending s) i = Some TFetchLocations \<and>
                i < length (sent s) \<and> sent s ! i = get_request locations_url"
proof (cases "\<exists>i r. e = Respond i r")
  case True
  then obtain i r where e: "e = Respond i r" by blast
  with assms(2) obtain t where t: "map_of (pending s) i = Some t"
    and s': "s' = resume t r (s\<lparr>pending := filter (\<lambda>p. fst p \<noteq> i) (pending s)\<rparr>)"
    by (auto split: option.splits)
  have "t = TFetchLocations"
    using assms(3) resume_locations_tbody [of t r] s' by fastforce
  with t e pending_task_request [OF reachable_client_inv [OF assms(1)] t] show ?thesis
    by simp
next
  case False
  then show ?thesis using step_call_tables [OF assms(2)] assms(3) by blast
qed

text \<open>
  A table that only the continuation of task \<open>T\<close> writes, and that this continuation
  leaves unchanged or sets to a value satisfying \<open>Q\<close>, is after every step its
  initial content or satisfies \<open>Q\<close>.
\<close>

lemma step_table_inv:
  assumes others: "\<And>t r s. t \<noteq> T \<Longrightarrow> tb (page (resume t r s)) = tb (page s)"
    and own: "\<And>r s. tb (page (resume T r s)) = tb (page s) \<or> Q (tb (page (resume T r s)))"
    and calls: "\<And>s e s'. step s e = Some s' \<Longrightarrow> \<forall>i r. e \<noteq> Respond i r \<Longrightarrow> tb (page s') = tb (page s)"
    and st: "step s e = Some s'" and pre: "tb (page s) = rows0 \<or> Q (tb (page s))"
  shows "tb (page s') = rows0 \<or> Q (tb (page s'))"
proof (cases "tb (page s') = tb (page s)")
  case True
  with pre show ?thesis by simp
next
  case False
  show ?thesis
  proof (cases "\<forall>i r. e \<noteq> Respond i r")
    case True
    with calls [OF st] False show ?thesis by blast
  next
    case False
    then obtain i r where e: "e = Respond i r" by blast
    with st obtain t where
      s': "s' = resume t r (s\<lparr>pending := filter (\<lambda>p. fst p \<noteq> i) (pending s)\<rparr>)"
      by (auto split: option.splits)
    with \<open>tb (page s') \<noteq> tb (page s)\<close> others [of t r] have "t = T" by fastforce
    with s' own [of r "s\<lparr>pending := filter (\<lambda>p. fst p \<noteq> i) (pending s)\<rparr>"]
      \<open>tb (page s') \<noteq> tb (page s)\<close>
    show ?thesis by auto
  qed
qed

text \<open>What one refresh can write into each table: complete rows of non-\<open>null\<close> elements.\<close>

lemma render_table_user_rows:
  "\<exists>us. JNull \<notin> set us \<and> fst (render_table user_row v) = user_rows us"
proof (cases "\<exists>xs. v = JArr xs")
  case True
  then obtain xs where v: "v = JArr xs" by blast
  have "JNull \<notin> set (takeWhile (\<lambda>x. x \<noteq> JNull) xs)" by (auto dest: set_takeWhileD)
  with v show ?thesis
    by (auto simp: render_table_def render_rows_user_row)
next
  case False
  then have "fst (render_table user_row v) = []"
    by (cases v) (auto simp: render_table_def)
  then show ?thesis by (intro exI [of _ "[]"]) simp
qed

lemma render_table_location_rows:
  "\<exists>ls. JNull \<notin> set ls \<and> fst (render_table location_row v) = location_rows ls"
proof (cases "\<exists>xs. v = JArr xs")
  case True
  then obtain xs where v: "v = JArr xs" by blast
  have "JNull \<notin> set (takeWhile (\<lambda>x. x \<noteq> JNull) xs)" by (auto dest: set_takeWhileD)
  with v show ?thesis
    by (auto simp: render_table_def render_rows_location_row)
next
  case False
  then have "fst (render_table location_row v) = []"
    by (cases v) (auto simp: render_table_def)
  then show ?thesis by (intro exI [of _ "[]"]) simp
qed

lemma fetchUsers_k_rows:
  "users_tbody (page (fetchUsers_k r s)) = users_tbody (page s) \<or>
   (\<exists>us. JNull \<notin> set us \<and> users_tbody (page (fetchUsers_k r s)) = user_rows us)"
proof (cases "\<exists>st v. r = Resp st (Some v) \<and> resp_ok st")
  case True
  then obtain st v where "r = Resp st (Some v)" "resp_ok st" by blast
  then have "users_tbody (page (fetchUsers_k r s)) = fst (render_table user_row v)"
    by (auto simp: fetchUsers_k_def fetchUsers_body_def try_catch_def check_response_def
                   read_json_def set_users_tbody_def log_error_def split: prod.splits option.splits)
  with render_table_user_rows [of v] show ?thesis by auto
next
  case False
  then have "users_tbody (page (fetchUsers_k r s)) = users_tbody (page s)"
    by (cases r) (auto simp: fetchUsers_k_def fetchUsers_body_def try_catch_def check_response_def
                             read_json_def log_error_def split: option.splits)
  then show ?thesis ..
qed

lemma fetchLocations_k_rows:
  "locations_tbody (page (fetchLocations_k r s)) = locations_tbody (page s) \<or>
   (\<exists>ls. JNull \<notin> set ls \<and> locations_tbody (page (fetchLocations_k r s)) = location_rows ls)"
proof (cases "\<exists>st v. r = Resp st (Some v) \<and> resp_ok st")
  case True
  then obtain st v where "r = Resp st (Some v)" "resp_ok st" by blast
  then have "locations_tbody (page (fetchLocations_k r s)) = fst (render_table location_row v)"
    by (auto simp: fetchLocations_k_def fetchLocations_body_def try_catch_def check_response_def
                   read_json_def set_locations_tbody_def log_error_def split: prod.splits option.splits)
  with render_table_location_rows [of v] show ?thesis by auto
next
  case False
  then have "locations_tbody (page (fetchLocations_k r s)) = locations_tbody (page s)"
    by (cases r) (auto simp: fetchLocations_k_def fetchLocations_body_def try_catch_def check_response_def
                             read_json_def log_error_def split: option.splits)
  then show ?thesis ..
qed

text \<open>
  C30: under every interleaving of calls and responses, the users table is either still
  the page's initial content or consists of complete rows of non-\<open>null\<close> users, in
  order: never a row for a \<open>null\<close> element, never a fragment of a row.
\<close>

theorem run_users_tbody_rows:
  assumes "run (init_client p) es = Some s"
  shows "users_tbody (page s) = users_tbody p \<or>
         (\<exists>us. JNull \<notin> set us \<and> users_tbody (page s) = user_rows us)"
proof -
  have "users_tbody (page s') = users_tbody p \<or> (\<exists>us. JNull \<notin> set us \<and> users_tbody (page s') = user_rows us)"
    if "step s0 e = Some s'"
      and "users_tbody (page s0) = users_tbody p \<or> (\<exists>us. JNull \<notin> set us \<and> users_tbody (page s0) = user_rows us)"
    for s0 e s'
  proof (rule step_table_inv [where T = TFetchUsers and tb = users_tbody
                              and Q = "\<lambda>x. \<exists>us. JNull \<notin> set us \<and> x = user_rows us", OF _ _ _ that])
    show "users_tbody (page (resume TFetchUsers r s1)) = users_tbody (page s1) \<or>
          (\<exists>us. JNull \<notin> set us \<and> users_tbody (page (resume TFetchUsers r s1)) = user_rows us)" for r s1
      using fetchUsers_k_rows by simp
  qed (auto dest: step_call_tables intro: resume_users_tbody)
  moreover have "users_tbody (page (init_client p)) = users_tbody p \<or>
                 (\<exists>us. JNull \<notin> set us \<and> users_tbody (page (init_client p)) = user_rows us)"
    by (simp add: init_client_def)
  ultimately show ?thesis using assms by (rule run_preserves)
qed

text \<open>
  C36: the same holds of the locations table: it is its initial content or complete rows
  of non-\<open>null\<close> locations, under every interleaving.
\<close>

theorem run_locations_tbody_rows:
  assumes "run (init_client p) es = Some s"
  shows "locations_tbody (page s) = locations_tbody p \<or>
         (\<exists>ls. JNull \<notin> set ls \<and> locations_tbody (page s) = location_rows ls)"
proof -
  have "locations_tbody (page s') = locations_tbody p \<or>
        (\<exists>ls. JNull \<notin> set ls \<and> locations_tbody (page s') = location_rows ls)"
    if "step s0 e = Some s'"
      and "locations_tbody (page s0) = locations_tbody p \<or>
           (\<exists>ls. JNull \<notin> set ls \<and> locations_tbody (page s0) = location_rows ls)"
    for s0 e s'
  proof (rule step_table_inv [where T = TFetchLocations and tb = locations_tbody
                              and Q = "\<lambda>x. \<exists>ls. JNull \<notin> set ls \<and> x = location_rows ls", OF _ _ _ that])
    show "locations_tbody (page (resume TFetchLocations r s1)) = locations_tbody (page s1) \<or>
          (\<exists>ls. JNull \<notin> set ls \<and> locations_tbody (page (resume TFetchLocations r s1)) = location_rows ls)" for r s1
      using fetchLocations_k_rows by simp
  qed (auto dest: step_call_tables intro: resume_locations_tbody)
  moreover have "locations_tbody (page (init_client p)) = locations_tbody p \<or>
                 (\<exists>ls. JNull \<notin> set ls \<and> locations_tbody (page (init_client p)) = location_rows ls)"
    by (simp add: init_client_def)
  ultimately show ?thesis using assms by (rule run_preserves)
qed

theorem run_users_tbody_rows_witness:
  "run (init_client blank_page)
     [CallFetchUsers, Respond 0 (Resp 200 (Some (JArr [JObj [(''id'', JNum 1), (''username'', JStr ''alice'')], JNull])))] =
   Some \<lparr>page = blank_page\<lparr>users_tbody := [user_row_html ''1'' ''alice'']\<rparr>,
         console = [(''Error fetching users:'', TypeError)], sent = [get_request users_url], pending = []\<rparr> \<and>
   (users_tbody (blank_page\<lparr>users_tbody := [user_row_html ''1'' ''alice'']\<rparr>) = users_tbody blank_page \<or>
    (\<exists>us. JNull \<notin> set us \<and>
          users_tbody (blank_page\<lparr>users_tbody := [user_row_html ''1'' ''alice'']\<rparr>) = user_rows us))"
proof -
  have r: "run (init_client blank_page)
     [CallFetchUsers, Respond 0 (Resp 200 (Some (JArr [JObj [(''id'', JNum 1), (''username'', JStr ''alice'')], JNull])))] =
   Some \<lparr>page = blank_page\<lparr>users_tbody := [user_row_html ''1'' ''alice'']\<rparr>,
         console = [(''Error fetching users:'', TypeError)], sent = [get_request users_url], pending = []\<rparr>"
    by (simp add: fetchUsers_def issue_def init_client_def fetchUsers_k_def fetchUsers_body_def
                  response_defs resp_ok_def set_users_tbody_def log_error_def user_row_def jprop_def
                  tmpl_def show_int_def show_nat.simps digit_char_def decimal_digits_def)
  show ?thesis using run_users_tbody_rows [OF r] r by simp
qed

section \<open>The location handlers and the failure path of every handler\<close>

lemma step_deleteLocation_issue:
  "step s (CallDeleteLocation lid) =
     Some (issue (TDeleteLocation lid) (delete_request (location_item_url lid)) s)"
  by (simp add: deleteLocation_def)

text \<open>
  C32: \<open>deleteLocation(id)\<close> sends \<open>DELETE\<close> to the location's resource; on success
  it requests the locations exactly once more, on failure it requests nothing and logs.
\<close>

theorem deleteLocation_then_response:
  assumes "client_inv s"
  shows "run s [CallDeleteLocation lid, Respond (length (sent s)) r] =
         Some (case check_response r of
                 Inl e \<Rightarrow> s\<lparr>console := console s @ [(''Error deleting location:'', e)],
                            sent := sent s @ [delete_request (location_item_url lid)]\<rparr>
               | Inr b \<Rightarrow> s\<lparr>sent := sent s @ [delete_request (location_item_url lid), get_request locations_url],
                            pending := pending s @ [(Suc (length (sent s)), TFetchLocations)]\<rparr>)"
  using run_call_respond [OF assms step_deleteLocation_issue]
  by (simp add: deleteLocation_k_def deleteLocation_body_def try_catch_def log_error_def
                fetchLocations_def issue_def split: sum.splits)

text \<open>
  C33: when the \<open>POST\<close> of \<open>createLocation\<close> fails, both inputs keep their values,
  no refresh is requested, and the error is logged.
\<close>

theorem createLocation_failure:
  assumes "client_inv s" and "location_username (page s) = name" and "ip_address (page s) = ip"
    and "name \<noteq> []" and "ip \<noteq> []" and "check_response r = Inl e"
  shows "run s [CallCreateLocation, Respond (length (sent s)) r] =
         Some (s\<lparr>console := console s @ [(''Error creating location:'', e)],
                 sent := sent s @ [post_username (location_url ip) name]\<rparr>)"
  using run_call_respond [OF assms(1) step_createLocation_issue [OF assms(2-5)]] assms(6)
  by (simp add: createLocation_k_def createLocation_body_def try_catch_def log_error_def)

text \<open>
  C34: every handler checks the outcome of its request before anything else: when the
  request fails (network error or a status outside 200--299) the continuation only logs
  the error under the handler's own message, whatever the handler.
\<close>

theorem resume_failure_logs:
  assumes "check_response r = Inl e"
  shows "resume t r s = log_error (task_message t) e s"
  using assms
  by (cases t) (simp_all add: continuation_defs try_catch_def)

theorem deleteLocation_then_response_witness:
  "client_inv (init_client blank_page) \<and>
   run (init_client blank_page) [CallDeleteLocation (Some (JNum 7)), Respond 0 (Resp 404 None)] =
     Some \<lparr>page = blank_page, console = [(''Error deleting location:'', HttpError 404)],
           sent = [delete_request ''http://localhost:8080/api/locations/7''], pending = []\<rparr>"
  using deleteLocation_then_response [of "init_client blank_page" "Some (JNum 7)" "Resp 404 None"]
  by (simp add: client_inv_def init_client_def check_response_def resp_ok_def location_item_url_def
                BASE_URL_def tmpl_def show_int_def show_nat.simps digit_char_def decimal_digits_def)

theorem createLocation_failure_witness:
  "client_inv (init_client (blank_page\<lparr>location_username := ''bob'', ip_address := ''10.0.0.1''\<rparr>)) \<and>
   ''bob'' \<noteq> [] \<and> ''10.0.0.1'' \<noteq> [] \<and> check_response NetFail = Inl NetworkError \<and>
   run (init_client (blank_page\<lparr>location_username := ''bob'', ip_address := ''10.0.0.1''\<rparr>))
       [CallCreateLocation, Respond 0 NetFail] =
     Some \<lparr>page = blank_page\<lparr>location_username := ''bob'', ip_address := ''10.0.0.1''\<rparr>,
           console = [(''Error creating location:'', NetworkError)],
           sent = [post_username (location_url ''10.0.0.1'') ''bob''], pending = []\<rparr>"
  using createLocation_failure [of "init_client (blank_page\<lparr>location_username := ''bob'', ip_address := ''10.0.0.1''\<rparr>)"
      "''bob''" "''10.0.0.1''" NetFail NetworkError]
  by (simp add: client_inv_def init_client_def check_response_def)

theorem resume_failure_logs_witness:
  "check_response (Resp 500 None) = Inl (HttpError 500) \<and>
   resume (TFetchRequestCount) (Resp 500 None) (init_client blank_page) =
     \<lparr>page = blank_page, console = [(''Error fetching request count:'', HttpError 500)],
      sent = [], pending = []\<rparr>"
  using resume_failure_logs [of "Resp 500 None" "HttpError 500" TFetchRequestCount "init_client blank_page"]
  by (simp add: check_response_def resp_ok_def log_error_def init_client_def)

theorem run_locations_tbody_rows_witness:
  "run (init_client blank_page)
     [CallFetchLocations, Respond 0 (Resp 200 (Some (JArr [JNull])))] =
   Some \<lparr>page = blank_page, console = [(''Error fetching locations:'', TypeError)],
         sent = [get_request locations_url], pending = []\<rparr> \<and>
   (locations_tbody blank_page = locations_tbody blank_page \<or>
    (\<exists>ls. JNull \<notin> set ls \<and> locations_tbody blank_page = location_rows ls))"
proof -
  have r: "run (init_client blank_page)
     [CallFetchLocations, Respond 0 (Resp 200 (Some (JArr [JNull])))] =
   Some \<lparr>page = blank_page, console = [(''Error fetching locations:'', TypeError)],
         sent = [get_request locations_url], pending = []\<rparr>"
    by (simp add: fetchLocations_def issue_def init_client_def fetchLocations_k_def
                  fetchLocations_body_def response_defs resp_ok_def set_locations_tbody_def
                  log_error_def blank_page_def location_row_null)
  show ?thesis using run_locations_tbody_rows [OF r] r by simp
qed

theorem locations_tbody_changes_only_by_locations_fetch_witness:
  "reachable (fetchLocations (init_client blank_page)) \<and>
   step (fetchLocations (init_client blank_page))
     (Respond 0 (Resp 200 (Some (JArr [JObj [(''id'', JNum 3), (''ipAddress'', JStr ''8.8.8.8''), (''city'', JStr ''Paris'')]])))) =
     Some \<lparr>page = blank_page\<lparr>locations_tbody := [location_row_html ''3'' ''8.8.8.8'' ''Paris'' []]\<rparr>,
           console = [], sent = [get_request locations_url], pending = []\<rparr> \<and>
   [location_row_html ''3'' ''8.8.8.8'' ''Paris'' []] \<noteq> locations_tbody (page (fetchLocations (init_client blank_page))) \<and>
   sent (fetchLocations (init_client blank_page)) ! 0 = get_request locations_url"
proof -
  have r: "reachable (fetchLocations (init_client blank_page))"
    by (rule reachable.step [OF reachable.init, of _ CallFetchLocations]) simp
  have st: "step (fetchLocations (init_client blank_page))
     (Respond 0 (Resp 200 (Some (JArr [JObj [(''id'', JNum 3), (''ipAddress'', JStr ''8.8.8.8''), (''city'', JStr ''Paris'')]])))) =
     Some \<lparr>page = blank_page\<lparr>locations_tbody := [location_row_html ''3'' ''8.8.8.8'' ''Paris'' []]\<rparr>,
           console = [], sent = [get_request locations_url], pending = []\<rparr>"
    by (simp add: fetchLocations_def issue_def init_client_def fetchLocations_k_def fetchLocations_body_def
                  response_defs resp_ok_def set_locations_tbody_def location_row_def tmpl_def jprop_def
                  or_empty_def show_int_def show_nat.simps digit_char_def decimal_digits_def)
  have ne: "[location_row_html ''3'' ''8.8.8.8'' ''Paris'' []] \<noteq>
            locations_tbody (page (fetchLocations (init_client blank_page)))"
    by (simp add: fetchLocations_def issue_def init_client_def blank_page_def)
  from locations_tbody_changes_only_by_locations_fetch [OF r st] ne
  have "sent (fetchLocations (init_client blank_page)) ! 0 = get_request locations_url"
    by (auto simp: fetchLocations_def issue_def init_client_def blank_page_def)
  with r st ne show ?thesis by simp
qed

end
