(* ===== verification/Refinement.thy ===== *)
theory Refinement
  imports Client
begin

text \<open>
  The specification's view of the client (its section 4.1): each operation is one
  request/response cycle, performed atomically, with its effect on the page on success
  and a logged no-op on failure.  This theory states those operations over an abstract
  view (the page, the log, the requests made) and proves that the asynchronous client
  implements them whenever each call is followed by the responses to its requests before
  the next call, that is, in a sequential session without interleaving.
\<close>

section \<open>The specification's operations\<close>

record view =
  vpage :: page
  vlog :: "(string \<times> js_error) list"
  vreqs :: "request list"

definition view_of :: "client \<Rightarrow> view" where
  "view_of s = \<lparr>vpage = page s, vlog = console s, vreqs = sent s\<rparr>"

text \<open>
  A successful listing: a 2xx status and an array of entities (the data model's
  users or locations, none of them \<open>null\<close>).
\<close>

fun list_result :: "response \<Rightarrow> jval list option" where
  "list_result (Resp st (Some (JArr xs))) = (if resp_ok st \<and> JNull \<notin> set xs then Some xs else None)"
| "list_result r = None"

text \<open>The error a failed request reports: the thrown one, or the body's syntax error.\<close>

definition fail_error :: "response \<Rightarrow> js_error" where
  "fail_error r = (case check_response r of Inl e \<Rightarrow> e | Inr b \<Rightarrow> SyntaxError)"

text \<open>
  The responses the specification describes for a listing: a successful listing, or a
  failure (a rejected fetch, a status outside 200--299, a body that is not JSON).
\<close>

definition listed_or_failed :: "response \<Rightarrow> bool" where
  "listed_or_failed r \<longleftrightarrow> list_result r \<noteq> None \<or> (\<forall>v. check_response r \<noteq> Inr (Some v))"

definition spec_listUsers :: "response \<Rightarrow> view \<Rightarrow> view" where
  "spec_listUsers r v =
     (let v1 = v\<lparr>vreqs := vreqs v @ [get_request users_url]\<rparr> in
      case list_result r of
        Some xs \<Rightarrow> v1\<lparr>vpage := (vpage v)\<lparr>users_tbody := user_rows xs\<rparr>\<rparr>
      | None \<Rightarrow> v1\<lparr>vlog := vlog v @ [(''Error fetching users:'', fail_error r)]\<rparr>)"

definition spec_listLocations :: "response \<Rightarrow> view \<Rightarrow> view" where
  "spec_listLocations r v =
     (let v1 = v\<lparr>vreqs := vreqs v @ [get_request locations_url]\<rparr> in
      case list_result r of
        Some xs \<Rightarrow> v1\<lparr>vpage := (vpage v)\<lparr>locations_tbody := location_rows xs\<rparr>\<rparr>
      | None \<Rightarrow> v1\<lparr>vlog := vlog v @ [(''Error fetching locations:'', fail_error r)]\<rparr>)"

definition spec_getRequestCount :: "response \<Rightarrow> view \<Rightarrow> view" where
  "spec_getRequestCount r v =
     (let v1 = v\<lparr>vreqs := vreqs v @ [get_request request_count_url]\<rparr> in
      case check_response r of
        Inr (Some x) \<Rightarrow> v1\<lparr>vpage := (vpage v)\<lparr>request_count := text_content x\<rparr>\<rparr>
      | _ \<Rightarrow> v1\<lparr>vlog := vlog v @ [(''Error fetching request count:'', fail_error r)]\<rparr>)"

definition spec_createUser :: "response \<Rightarrow> response \<Rightarrow> view \<Rightarrow> view" where
  "spec_createUser r1 r2 v =
     (let name = user_username (vpage v) in
      if name = [] then v
      else let v1 = v\<lparr>vreqs := vreqs v @ [post_username users_url name]\<rparr> in
        case check_response r1 of
          Inl e \<Rightarrow> v1\<lparr>vlog := vlog v @ [(''Error creating user:'', e)]\<rparr>
        | Inr b \<Rightarrow> spec_listUsers r2 (v1\<lparr>vpage := (vpage v)\<lparr>user_username := []\<rparr>\<rparr>))"

definition spec_createLocation :: "response \<Rightarrow> response \<Rightarrow> view \<Rightarrow> view" where
  "spec_createLocation r1 r2 v =
     (let name = location_username (vpage v); ip = ip_address (vpage v) in
      if name = [] \<or> ip = [] then v
      else let v1 = v\<lparr>vreqs := vreqs v @ [post_username (location_url ip) name]\<rparr> in
        case check_response r1 of
          Inl e \<Rightarrow> v1\<lparr>vlog := vlog v @ [(''Error creating location:'', e)]\<rparr>
        | Inr b \<Rightarrow> spec_listLocations r2
                    (v1\<lparr>vpage := (vpage v)\<lparr>location_username := [], ip_address := []\<rparr>\<rparr>))"

definition spec_deleteUser :: "jval option \<Rightarrow> response \<Rightarrow> response \<Rightarrow> view \<Rightarrow> view" where
  "spec_deleteUser uid r1 r2 v =
     (let v1 = v\<lparr>vreqs := vreqs v @ [delete_request (user_url uid)]\<rparr> in
      case check_response r1 of
        Inl e \<Rightarrow> v1\<lparr>vlog := vlog v @ [(''Error deleting user:'', e)]\<rparr>
      | Inr b \<Rightarrow> spec_listUsers r2 v1)"

definition spec_deleteLocation :: "jval option \<Rightarrow> response \<Rightarrow> response \<Rightarrow> view \<Rightarrow> view" where
  "spec_deleteLocation lid r1 r2 v =
     (let v1 = v\<lparr>vreqs := vreqs v @ [delete_request (location_item_url lid)]\<rparr> in
      case check_response r1 of
        Inl e \<Rightarrow> v1\<lparr>vlog := vlog v @ [(''Error deleting location:'', e)]\<rparr>
      | Inr b \<Rightarrow> spec_listLocations r2 v1)"

definition spec_input :: "field \<Rightarrow> string \<Rightarrow> view \<Rightarrow> view" where
  "spec_input f x v =
     (case f of
        UserUsername \<Rightarrow> v\<lparr>vpage := (vpage v)\<lparr>user_username := x\<rparr>\<rparr>
      | LocationUsername \<Rightarrow> v\<lparr>vpage := (vpage v)\<lparr>location_username := x\<rparr>\<rparr>
      | IpAddress \<Rightarrow> v\<lparr>vpage := (vpage v)\<lparr>ip_address := x\<rparr>\<rparr>)"

text \<open>An operation of the specification, with the server's responses to its requests.\<close>

datatype operation =
    ListUsers response
  | ListLocations response
  | GetRequestCount response
  | CreateUser response response           \<comment> \<open>the POST's response, then the refresh's\<close>
  | CreateLocation response response
  | DeleteUser "jval option" response response
  | DeleteLocation "jval option" response response
  | TypeInto field string

fun spec_step :: "operation \<Rightarrow> view \<Rightarrow> view" where
  "spec_step (ListUsers r) = spec_listUsers r"
| "spec_step (ListLocations r) = spec_listLocations r"
| "spec_step (GetRequestCount r) = spec_getRequestCount r"
| "spec_step (CreateUser r1 r2) = spec_createUser r1 r2"
| "spec_step (CreateLocation r1 r2) = spec_createLocation r1 r2"
| "spec_step (DeleteUser uid r1 r2) = spec_deleteUser uid r1 r2"
| "spec_step (DeleteLocation lid r1 r2) = spec_deleteLocation lid r1 r2"
| "spec_step (TypeInto f x) = spec_input f x"

text \<open>The responses are of the kinds the specification describes.\<close>

fun wf_operation :: "operation \<Rightarrow> bool" where
  "wf_operation (ListUsers r) = listed_or_failed r"
| "wf_operation (ListLocations r) = listed_or_failed r"
| "wf_operation (GetRequestCount r) = True"
| "wf_operation (CreateUser r1 r2) = listed_or_failed r2"
| "wf_operation (CreateLocation r1 r2) = listed_or_failed r2"
| "wf_operation (DeleteUser uid r1 r2) = listed_or_failed r2"
| "wf_operation (DeleteLocation lid r1 r2) = listed_or_failed r2"
| "wf_operation (TypeInto f x) = True"

text \<open>
  The events of one operation performed sequentially: the call, then the response to each
  request it makes, as they are made; the first request gets index \<open>n\<close>.
\<close>

definition refresh_events :: "event \<Rightarrow> response \<Rightarrow> response \<Rightarrow> nat \<Rightarrow> event list" where
  "refresh_events e r1 r2 n =
     (case check_response r1 of
        Inl err \<Rightarrow> [e, Respond n r1]
      | Inr b \<Rightarrow> [e, Respond n r1, Respond (Suc n) r2])"

fun events_of :: "operation \<Rightarrow> view \<Rightarrow> event list" where
  "events_of (ListUsers r) v = [CallFetchUsers, Respond (length (vreqs v)) r]"
| "events_of (ListLocations r) v = [CallFetchLocations, Respond (length (vreqs v)) r]"
| "events_of (GetRequestCount r) v = [CallFetchRequestCount, Respond (length (vreqs v)) r]"
| "events_of (CreateUser r1 r2) v =
     (if user_username (vpage v) = [] then [CallCreateUser]
      else refresh_events CallCreateUser r1 r2 (length (vreqs v)))"
| "events_of (CreateLocation r1 r2) v =
     (if location_username (vpage v) = [] \<or> ip_address (vpage v) = [] then [CallCreateLocation]
      else refresh_events CallCreateLocation r1 r2 (length (vreqs v)))"
| "events_of (DeleteUser uid r1 r2) v = refresh_events (CallDeleteUser uid) r1 r2 (length (vreqs v))"
| "events_of (DeleteLocation lid r1 r2) v = refresh_events (CallDeleteLocation lid) r1 r2 (length (vreqs v))"
| "events_of (TypeInto f x) v = [Input f x]"

fun session_events :: "operation list \<Rightarrow> view \<Rightarrow> event list" where
  "session_events [] v = []"
| "session_events (op1 # ops) v = events_of op1 v @ session_events ops (spec_step op1 v)"

section \<open>Simulation\<close>

lemma quiescent_inv: "pending s = [] \<Longrightarrow> client_inv s"
  by (simp add: client_inv_def)

lemma run_append:
  "run s (xs @ ys) = (case run s xs of None \<Rightarrow> None | Some s' \<Rightarrow> run s' ys)"
  by (induction xs arbitrary: s) (auto split: option.splits)

lemma list_result_SomeD:
  "list_result r = Some xs \<Longrightarrow> \<exists>st. r = Resp st (Some (JArr xs)) \<and> resp_ok st \<and> JNull \<notin> set xs"
  by (induction r rule: list_result.induct) (auto split: if_splits)

text \<open>On the responses the specification describes, a listing continuation is the atomic operation.\<close>

lemma fetchUsers_k_spec:
  assumes "listed_or_failed r"
  shows "fetchUsers_k r s =
         (case list_result r of
            Some xs \<Rightarrow> set_users_tbody (user_rows xs) s
          | None \<Rightarrow> log_error ''Error fetching users:'' (fail_error r) s)"
proof (cases "list_result r")
  case None
  with assms have "\<forall>v. check_response r \<noteq> Inr (Some v)" by (simp add: listed_or_failed_def)
  with None show ?thesis
    by (auto simp: fetchUsers_k_def fetchUsers_body_def response_defs fail_error_def
             split: response.splits option.splits sum.splits if_splits)
next
  case (Some xs)
  then obtain st where "r = Resp st (Some (JArr xs))" "resp_ok st" "JNull \<notin> set xs"
    by (blast dest: list_result_SomeD)
  with Some show ?thesis
    using fetchUsers_body_renders by (simp add: fetchUsers_k_def try_catch_def)
qed

lemma fetchLocations_k_spec:
  assumes "listed_or_failed r"
  shows "fetchLocations_k r s =
         (case list_result r of
            Some xs \<Rightarrow> set_locations_tbody (location_rows xs) s
          | None \<Rightarrow> log_error ''Error fetching locations:'' (fail_error r) s)"
proof (cases "list_result r")
  case None
  with assms have "\<forall>v. check_response r \<noteq> Inr (Some v)" by (simp add: listed_or_failed_def)
  with None show ?thesis
    by (auto simp: fetchLocations_k_def fetchLocations_body_def response_defs fail_error_def
             split: response.splits option.splits sum.splits if_splits)
next
  case (Some xs)
  then obtain st where "r = Resp st (Some (JArr xs))" "resp_ok st" "JNull \<notin> set xs"
    by (blast dest: list_result_SomeD)
  with Some show ?thesis
    using fetchLocations_body_renders by (simp add: fetchLocations_k_def try_catch_def)
qed

lemma fetchRequestCount_k_spec:
  "fetchRequestCount_k r s =
     (case check_response r of
        Inr (Some x) \<Rightarrow> s\<lparr>page := (page s)\<lparr>request_count := text_content x\<rparr>\<rparr>
      | _ \<Rightarrow> log_error ''Error fetching request count:'' (fail_error r) s)"
  by (simp add: fetchRequestCount_k_def fetchRequestCount_body_def try_catch_def read_json_def
                fail_error_def split: sum.splits option.splits)

text \<open>Each mutation's continuation: on failure it logs, on success it starts its refresh.\<close>

lemma mutation_k_cases:
  "check_response r = Inl e \<Longrightarrow> createUser_k r s = log_error ''Error creating user:'' e s"
  "check_response r = Inr b \<Longrightarrow>
     createUser_k r s = fetchUsers (s\<lparr>page := (page s)\<lparr>user_username := []\<rparr>\<rparr>)"
  "check_response r = Inl e \<Longrightarrow> createLocation_k r s = log_error ''Error creating location:'' e s"
  "check_response r = Inr b \<Longrightarrow>
     createLocation_k r s = fetchLocations (s\<lparr>page := (page s)\<lparr>location_username := [], ip_address := []\<rparr>\<rparr>)"
  "check_response r = Inl e \<Longrightarrow> deleteUser_k r s = log_error ''Error deleting user:'' e s"
  "check_response r = Inr b \<Longrightarrow> deleteUser_k r s = fetchUsers s"
  "check_response r = Inl e \<Longrightarrow> deleteLocation_k r s = log_error ''Error deleting location:'' e s"
  "check_response r = Inr b \<Longrightarrow> deleteLocation_k r s = fetchLocations s"
  by (simp_all add: continuation_defs try_catch_def)

text \<open>From a quiescent state: a call, and the response to the request it sent.\<close>

lemma quiescent_call_respond:
  assumes "pending s = []" and "step s e = Some (issue t q s)"
  shows "run s [e, Respond (length (sent s)) r] = Some (resume t r (s\<lparr>sent := sent s @ [q]\<rparr>))"
  using run_call_respond [OF quiescent_inv [OF assms(1)] assms(2)] .

text \<open>\<dots> followed by the response to the refresh its continuation sent.\<close>

lemma quiescent_refresh:
  assumes "pending s = []" and "step s e = Some (issue t q s)"
    and "resume t r1 (s\<lparr>sent := sent s @ [q]\<rparr>) = issue t2 q2 s2"
    and "pending s2 = []" and "sent s2 = sent s @ [q]"
  shows "run s [e, Respond (length (sent s)) r1, Respond (Suc (length (sent s))) r2] =
         Some (resume t2 r2 (s2\<lparr>sent := sent s2 @ [q2]\<rparr>))"
proof -
  have first: "run s [e, Respond (length (sent s)) r1] = Some (issue t2 q2 s2)"
    using quiescent_call_respond [OF assms(1,2), of r1] assms(3) by simp
  have n: "Suc (length (sent s)) = length (sent s2)" using assms(5) by simp
  have "run s ([e, Respond (length (sent s)) r1] @ [Respond (Suc (length (sent s))) r2]) =
        run (issue t2 q2 s2) [Respond (length (sent s2)) r2]"
    unfolding run_append first n by simp
  also have "\<dots> = Some (resume t2 r2 (s2\<lparr>sent := sent s2 @ [q2]\<rparr>))"
    using respond_issued [OF quiescent_inv [OF assms(4)]] by (simp del: step.simps)
  finally show ?thesis by simp
qed

lemma refine_listUsers:
  assumes "pending s = []" and "listed_or_failed r"
  shows "\<exists>s'. run s (events_of (ListUsers r) (view_of s)) = Some s' \<and> pending s' = [] \<and>
              view_of s' = spec_step (ListUsers r) (view_of s)"
  using quiescent_call_respond [OF assms(1), of CallFetchUsers TFetchUsers "get_request users_url" r]
    fetchUsers_k_spec [OF assms(2)] assms(1)
  by (simp add: fetchUsers_def view_of_def spec_listUsers_def set_users_tbody_def log_error_def
           split: option.splits)

lemma refine_listLocations:
  assumes "pending s = []" and "listed_or_failed r"
  shows "\<exists>s'. run s (events_of (ListLocations r) (view_of s)) = Some s' \<and> pending s' = [] \<and>
              view_of s' = spec_step (ListLocations r) (view_of s)"
  using quiescent_call_respond [OF assms(1), of CallFetchLocations TFetchLocations "get_request locations_url" r]
    fetchLocations_k_spec [OF assms(2)] assms(1)
  by (simp add: fetchLocations_def view_of_def spec_listLocations_def set_locations_tbody_def log_error_def
           split: option.splits)

lemma refine_getRequestCount:
  assumes "pending s = []"
  shows "\<exists>s'. run s (events_of (GetRequestCount r) (view_of s)) = Some s' \<and> pending s' = [] \<and>
              view_of s' = spec_step (GetRequestCount r) (view_of s)"
  using quiescent_call_respond [OF assms(1), of CallFetchRequestCount TFetchRequestCount
      "get_request request_count_url" r] assms(1)
  by (simp add: fetchRequestCount_def view_of_def spec_getRequestCount_def fetchRequestCount_k_spec
                log_error_def split: sum.splits option.splits)

lemma refine_createUser:
  assumes "pending s = []" and "listed_or_failed r2"
  shows "\<exists>s'. run s (events_of (CreateUser r1 r2) (view_of s)) = Some s' \<and> pending s' = [] \<and>
              view_of s' = spec_step (CreateUser r1 r2) (view_of s)"
proof (cases "user_username (page s) = []")
  case True
  with assms(1) show ?thesis by (simp add: view_of_def spec_createUser_def createUser_def)
next
  case False
  let ?q = "post_username users_url (user_username (page s))"
  have call: "step s CallCreateUser = Some (issue (TCreateUser (user_username (page s))) ?q s)"
    using False by (simp add: createUser_def Let_def)
  show ?thesis
  proof (cases "check_response r1")
    case (Inl e)
    with False quiescent_call_respond [OF assms(1) call, of r1] assms(1) show ?thesis
      by (simp add: view_of_def spec_createUser_def refresh_events_def mutation_k_cases log_error_def)
  next
    case (Inr b)
    let ?s2 = "s\<lparr>sent := sent s @ [?q], page := (page s)\<lparr>user_username := []\<rparr>\<rparr>"
    have "resume (TCreateUser (user_username (page s))) r1 (s\<lparr>sent := sent s @ [?q]\<rparr>) =
          issue TFetchUsers (get_request users_url) ?s2"
      using Inr by (simp add: mutation_k_cases fetchUsers_def)
    from quiescent_refresh [OF assms(1) call this, of r2] assms Inr False show ?thesis
      by (simp add: view_of_def spec_createUser_def spec_listUsers_def refresh_events_def
                    fetchUsers_k_spec set_users_tbody_def log_error_def split: option.splits)
  qed
qed

lemma refine_createLocation:
  assumes "pending s = []" and "listed_or_failed r2"
  shows "\<exists>s'. run s (events_of (CreateLocation r1 r2) (view_of s)) = Some s' \<and> pending s' = [] \<and>
              view_of s' = spec_step (CreateLocation r1 r2) (view_of s)"
proof (cases "location_username (page s) = [] \<or> ip_address (page s) = []")
  case True
  with assms(1) show ?thesis by (auto simp: view_of_def spec_createLocation_def createLocation_def)
next
  case False
  let ?q = "post_username (location_url (ip_address (page s))) (location_username (page s))"
  have call: "step s CallCreateLocation =
              Some (issue (TCreateLocation (location_username (page s)) (ip_address (page s))) ?q s)"
    using False by (simp add: createLocation_def Let_def)
  show ?thesis
  proof (cases "check_response r1")
    case (Inl e)
    with False quiescent_call_respond [OF assms(1) call, of r1] assms(1) show ?thesis
      by (simp add: view_of_def spec_createLocation_def refresh_events_def mutation_k_cases log_error_def)
  next
    case (Inr b)
    let ?s2 = "s\<lparr>sent := sent s @ [?q], page := (page s)\<lparr>location_username := [], ip_address := []\<rparr>\<rparr>"
    have "resume (TCreateLocation (location_username (page s)) (ip_address (page s))) r1
            (s\<lparr>sent := sent s @ [?q]\<rparr>) = issue TFetchLocations (get_request locations_url) ?s2"
      using Inr by (simp add: mutation_k_cases fetchLocations_def)
    from quiescent_refresh [OF assms(1) call this, of r2] assms Inr False show ?thesis
      by (simp add: view_of_def spec_createLocation_def spec_listLocations_def refresh_events_def
                    fetchLocations_k_spec set_locations_tbody_def log_error_def split: option.splits)
  qed
qed

lemma refine_deleteUser:
  assumes "pending s = []" and "listed_or_failed r2"
  shows "\<exists>s'. run s (events_of (DeleteUser uid r1 r2) (view_of s)) = Some s' \<and> pending s' = [] \<and>
              view_of s' = spec_step (DeleteUser uid r1 r2) (view_of s)"
proof -
  have call: "step s (CallDeleteUser uid) =
              Some (issue (TDeleteUser uid) (delete_request (user_url uid)) s)"
    by (simp add: deleteUser_def)
  show ?thesis
  proof (cases "check_response r1")
    case (Inl e)
    with quiescent_call_respond [OF assms(1) call, of r1] assms(1) show ?thesis
      by (simp add: view_of_def spec_deleteUser_def refresh_events_def mutation_k_cases log_error_def)
  next
    case (Inr b)
    let ?s2 = "s\<lparr>sent := sent s @ [delete_request (user_url uid)]\<rparr>"
    have "resume (TDeleteUser uid) r1 ?s2 = issue TFetchUsers (get_request users_url) ?s2"
      using Inr by (simp add: mutation_k_cases fetchUsers_def)
    from quiescent_refresh [OF assms(1) call this, of r2] assms Inr show ?thesis
      by (simp add: view_of_def spec_deleteUser_def spec_listUsers_def refresh_events_def
                    fetchUsers_k_spec set_users_tbody_def log_error_def split: option.splits)
  qed
qed

lemma refine_deleteLocation:
  assumes "pending s = []" and "listed_or_failed r2"
  shows "\<exists>s'. run s (events_of (DeleteLocation lid r1 r2) (view_of s)) = Some s' \<and> pending s' = [] \<and>
              view_of s' = spec_step (DeleteLocation lid r1 r2) (view_of s)"
proof -
  have call: "step s (CallDeleteLocation lid) =
              Some (issue (TDeleteLocation lid) (delete_request (location_item_url lid)) s)"
    by (simp add: deleteLocation_def)
  show ?thesis
  proof (cases "check_response r1")
    case (Inl e)
    with quiescent_call_respond [OF assms(1) call, of r1] assms(1) show ?thesis
      by (simp add: view_of_def spec_deleteLocation_def refresh_events_def mutation_k_cases log_error_def)
  next
    case (Inr b)
    let ?s2 = "s\<lparr>sent := sent s @ [delete_request (location_item_url lid)]\<rparr>"
    have "resume (TDeleteLocation lid) r1 ?s2 = issue TFetchLocations (get_request locations_url) ?s2"
      using Inr by (simp add: mutation_k_cases fetchLocations_def)
    from quiescent_refresh [OF assms(1) call this, of r2] assms Inr show ?thesis
      by (simp add: view_of_def spec_deleteLocation_def spec_listLocations_def refresh_events_def
                    fetchLocations_k_spec set_locations_tbody_def log_error_def split: option.splits)
  qed
qed

lemma refine_typeInto:
  "\<exists>s'. run s (events_of (TypeInto f x) (view_of s)) = Some s' \<and> pending s' = pending s \<and>
        view_of s' = spec_step (TypeInto f x) (view_of s)"
  by (cases f) (simp_all add: view_of_def spec_input_def set_input_def)

lemma refine_operation:
  assumes "pending s = []" and "wf_operation op1"
  shows "\<exists>s'. run s (events_of op1 (view_of s)) = Some s' \<and> pending s' = [] \<and>
              view_of s' = spec_step op1 (view_of s)"
proof (cases op1)
  case (ListUsers r)
  from refine_listUsers [OF assms(1)] assms(2) show ?thesis unfolding ListUsers by simp
next
  case (ListLocations r)
  from refine_listLocations [OF assms(1)] assms(2) show ?thesis unfolding ListLocations by simp
next
  case (GetRequestCount r)
  from refine_getRequestCount [OF assms(1)] show ?thesis unfolding GetRequestCount .
next
  case (CreateUser r1 r2)
  from refine_createUser [OF assms(1)] assms(2) show ?thesis unfolding CreateUser by simp
next
  case (CreateLocation r1 r2)
  from refine_createLocation [OF assms(1)] assms(2) show ?thesis unfolding CreateLocation by simp
next
  case (DeleteUser uid r1 r2)
  from refine_deleteUser [OF assms(1)] assms(2) show ?thesis unfolding DeleteUser by simp
next
  case (DeleteLocation lid r1 r2)
  from refine_deleteLocation [OF assms(1)] assms(2) show ?thesis unfolding DeleteLocation by simp
next
  case (TypeInto f x)
  from refine_typeInto [of s f x] assms(1) show ?thesis unfolding TypeInto by simp
qed

text \<open>
  C26: in a session where each operation's responses arrive before the next operation
  is called, the asynchronous client implements the specification's atomic operations:
  from a state with nothing in flight, running the session's events reaches a state with
  nothing in flight whose page, log and requests are those the specification's
  operations produce, provided the listings return what the specification describes
  (an array of entities, or a failure).
\<close>

theorem session_refines_spec:
  assumes "pending s = []" and "list_all wf_operation ops"
  shows "\<exists>s'. run s (session_events ops (view_of s)) = Some s' \<and> pending s' = [] \<and>
              view_of s' = fold spec_step ops (view_of s)"
  using assms
proof (induction ops arbitrary: s)
  case Nil
  then show ?case by simp
next
  case (Cons op1 ops)
  from refine_operation [OF Cons.prems(1)] Cons.prems(2) obtain s1 where
    s1: "run s (events_of op1 (view_of s)) = Some s1" "pending s1 = []"
        "view_of s1 = spec_step op1 (view_of s)"
    by auto
  from Cons.IH [OF s1(2)] Cons.prems(2) obtain s' where
    "run s1 (session_events ops (view_of s1)) = Some s'" "pending s' = []"
    "view_of s' = fold spec_step ops (view_of s1)"
    by auto
  with s1 show ?case by (simp add: run_append)
qed

theorem session_refines_spec_witness:
  "pending (init_client (blank_page\<lparr>user_username := ''alice''\<rparr>)) = [] \<and>
   list_all wf_operation
     [CreateUser (Resp 201 None) (Resp 200 (Some (JArr [JObj [(''id'', JNum 1), (''username'', JStr ''alice'')]]))),
      DeleteUser (Some (JNum 1)) (Resp 500 None) (Resp 200 None)] \<and>
   (\<exists>s'. run (init_client (blank_page\<lparr>user_username := ''alice''\<rparr>))
           (session_events
             [CreateUser (Resp 201 None) (Resp 200 (Some (JArr [JObj [(''id'', JNum 1), (''username'', JStr ''alice'')]]))),
              DeleteUser (Some (JNum 1)) (Resp 500 None) (Resp 200 None)]
             (view_of (init_client (blank_page\<lparr>user_username := ''alice''\<rparr>)))) = Some s' \<and>
         pending s' = [] \<and>
         view_of s' = fold spec_step
             [CreateUser (Resp 201 None) (Resp 200 (Some (JArr [JObj [(''id'', JNum 1), (''username'', JStr ''alice'')]]))),
              DeleteUser (Some (JNum 1)) (Resp 500 None) (Resp 200 None)]
             (view_of (init_client (blank_page\<lparr>user_username := ''alice''\<rparr>))))"
proof -
  have h: "pending (init_client (blank_page\<lparr>user_username := ''alice''\<rparr>)) = []"
    "list_all wf_operation
     [CreateUser (Resp 201 None) (Resp 200 (Some (JArr [JObj [(''id'', JNum 1), (''username'', JStr ''alice'')]]))),
      DeleteUser (Some (JNum 1)) (Resp 500 None) (Resp 200 None)]"
    by (simp_all add: init_client_def listed_or_failed_def resp_ok_def check_response_def)
  show ?thesis using session_refines_spec [OF h] h by blast
qed

end
