(* ===== verification/Wire.thy ===== *)
theory Wire
  imports Http_Api
begin

text \<open>
  What the server reads back from the client's requests: the decimal id at the end of a
  resource path, the string member of a JSON body, and the value of a query parameter.
  These readers are not part of the repository; they are the standard decoding of the
  formats the client writes (decimal integers, RFC 8259 strings, RFC 3986 query
  strings), against which the client's encoders are checked.
\<close>

section \<open>Decimal integers\<close>

definition digit_val :: "char \<Rightarrow> nat option" where
  "digit_val c = (let n = of_char c in if 48 \<le> n \<and> n \<le> 57 then Some (n - 48) else None)"

fun read_digits :: "nat \<Rightarrow> string \<Rightarrow> nat option" where
  "read_digits acc [] = Some acc"
| "read_digits acc (c # cs) =
     (case digit_val c of None \<Rightarrow> None | Some d \<Rightarrow> read_digits (10 * acc + d) cs)"

definition read_nat :: "string \<Rightarrow> nat option" where
  "read_nat s = (if s = [] then None else read_digits 0 s)"

definition read_int :: "string \<Rightarrow> int option" where
  "read_int s =
     (case s of
        [] \<Rightarrow> None
      | c # ds \<Rightarrow> if c = CHR ''-'' then map_option (\<lambda>n. - int n) (read_nat ds)
                 else map_option int (read_nat s))"

text \<open>
  The route \<open>/users/{id}\<close> (and \<open>/locations/{id}\<close>): the path after the
  collection's URL and a slash, read as an integer.
\<close>

definition read_resource_id :: "string \<Rightarrow> string \<Rightarrow> int option" where
  "read_resource_id coll u =
     (if take (length coll + 1) u = coll @ ''/'' then read_int (drop (length coll + 1) u) else None)"

section \<open>JSON strings\<close>

definition hex_val :: "char \<Rightarrow> nat option" where
  "hex_val c =
     (let n = of_char c in
      if 48 \<le> n \<and> n \<le> 57 then Some (n - 48)
      else if 97 \<le> n \<and> n \<le> 102 then Some (n - 87)
      else if 65 \<le> n \<and> n \<le> 70 then Some (n - 55)
      else None)"

definition hex4 :: "char \<Rightarrow> char \<Rightarrow> char \<Rightarrow> char \<Rightarrow> nat option" where
  "hex4 a b c d =
     (case (hex_val a, hex_val b, hex_val c, hex_val d) of
        (Some w, Some x, Some y, Some z) \<Rightarrow> Some (((w * 16 + x) * 16 + y) * 16 + z)
      | _ \<Rightarrow> None)"

text \<open>The single-character escapes of RFC 8259.\<close>

definition unescape :: "char \<Rightarrow> char option" where
  "unescape e =
     (if e = CHR ''b'' then Some (CHR 0x08)
      else if e = CHR ''t'' then Some (CHR 0x09)
      else if e = CHR ''n'' then Some (CHR 0x0A)
      else if e = CHR ''f'' then Some (CHR 0x0C)
      else if e = CHR ''r'' then Some (CHR 0x0D)
      else if e = CHR 0x22 then Some (CHR 0x22)
      else if e = bs then Some bs
      else if e = CHR ''/'' then Some (CHR ''/'')
      else None)"

text \<open>
  The characters of a string after its opening quote, up to the closing quote: the
  decoded text and what follows the string.  Code points above 255 have no 8-bit
  character and are rejected.
\<close>

fun json_chars :: "string \<Rightarrow> (string \<times> string) option" where
  "json_chars [] = None"
| "json_chars (c # cs) =
     (if c = CHR 0x22 then Some ([], cs)
      else if c = bs then
        (case cs of
           [] \<Rightarrow> None
         | e # rest \<Rightarrow>
             if e = CHR ''u'' then
               (case rest of
                  h1 # h2 # h3 # h4 # rest' \<Rightarrow>
                    (case hex4 h1 h2 h3 h4 of
                       Some n \<Rightarrow> if n < 256
                                 then map_option (\<lambda>(d, r). (char_of n # d, r)) (json_chars rest')
                                 else None
                     | None \<Rightarrow> None)
                | _ \<Rightarrow> None)
             else (case unescape e of
                     None \<Rightarrow> None
                   | Some d \<Rightarrow> map_option (\<lambda>(x, r). (d # x, r)) (json_chars rest)))
      else if of_char c < (32::nat) then None
      else map_option (\<lambda>(d, r). (c # d, r)) (json_chars cs))"

text \<open>A body \<open>{"username":"..."}\<close>, with nothing after the closing brace.\<close>

definition username_prefix :: string where
  "username_prefix = ''{'' @ dq @ ''username'' @ dq @ '':''"

definition read_username_body :: "string \<Rightarrow> string option" where
  "read_username_body b =
     (if take (length username_prefix) b = username_prefix then
        (case drop (length username_prefix) b of
           q # rest \<Rightarrow>
             if q = CHR 0x22 then
               (case json_chars rest of Some (v, r) \<Rightarrow> if r = ''}'' then Some v else None | None \<Rightarrow> None)
             else None
         | [] \<Rightarrow> None)
      else None)"

section \<open>Query strings\<close>

text \<open>A string cut at every occurrence of a delimiter.\<close>

fun split_by :: "char \<Rightarrow> string \<Rightarrow> string list" where
  "split_by d [] = [[]]"
| "split_by d (c # cs) =
     (if c = d then [] # split_by d cs
      else (case split_by d cs of [] \<Rightarrow> [[c]] | w # ws \<Rightarrow> (c # w) # ws))"

text \<open>
  The value of the first parameter \<open>k\<close> in the query of a URL: the text between the
  first \<open>?\<close> and the first \<open>#\<close>, cut at \<open>&\<close>.  Percent-decoding is left out:
  the theorems below are about values with no \<open>%\<close> or \<open>+\<close>, on which it is the
  identity.
\<close>

definition query_param :: "string \<Rightarrow> string \<Rightarrow> string option" where
  "query_param k u =
     (let q = takeWhile (\<lambda>c. c \<noteq> CHR ''#'') (drop 1 (dropWhile (\<lambda>c. c \<noteq> CHR ''?'') u)) in
      case find (\<lambda>s. take (length k + 1) s = k @ ''='') (split_by CHR ''&'' q) of
        None \<Rightarrow> None
      | Some s \<Rightarrow> Some (drop (length k + 1) s))"

text \<open>The characters of IPv4 and IPv6 addresses.\<close>

definition ip_chars :: string where
  "ip_chars = ''0123456789abcdefABCDEF.:''"

section \<open>Decimal round trip\<close>

lemma less_10_cases: "(d::nat) < 10 \<Longrightarrow> d \<in> {0, 1, 2, 3, 4, 5, 6, 7, 8, 9}"
proof -
  assume "d < 10"
  then have "d \<in> set [0..<10]" by simp
  also have "set [0..<10] = {0, 1, 2, 3, 4, 5, 6, 7, 8, 9::nat}" by code_simp
  finally show ?thesis .
qed

lemma less_16_cases: "(d::nat) < 16 \<Longrightarrow> d \<in> {0, 1, 2, 3, 4, 5, 6, 7, 8, 9, 10, 11, 12, 13, 14, 15}"
proof -
  assume "d < 16"
  then have "d \<in> set [0..<16]" by simp
  also have "set [0..<16] = {0, 1, 2, 3, 4, 5, 6, 7, 8, 9, 10, 11, 12, 13, 14, 15::nat}" by code_simp
  finally show ?thesis .
qed

lemma digit_val_digit_char [simp]: "d < 10 \<Longrightarrow> digit_val (digit_char d) = Some d"
  by (drule less_10_cases) (auto simp: digit_val_def digit_char_def decimal_digits_def)

lemma digit_char_in_digits: "d < 10 \<Longrightarrow> digit_char d \<in> set decimal_digits"
  unfolding digit_char_def by (rule nth_mem) (simp add: decimal_digits_def)

lemma read_digits_append:
  "read_digits acc (xs @ ys) = (case read_digits acc xs of None \<Rightarrow> None | Some v \<Rightarrow> read_digits v ys)"
  by (induction xs arbitrary: acc) (auto split: option.splits)

lemma read_digits_show_nat: "read_digits 0 (show_nat n) = Some n"
proof (induction n rule: show_nat.induct)
  case (1 n)
  show ?case
  proof (cases "n < 10")
    case True
    then show ?thesis by (simp add: show_nat.simps [of n])
  next
    case False
    with "1.IH" have "read_digits 0 (show_nat (n div 10)) = Some (n div 10)" by simp
    with False show ?thesis by (simp add: show_nat.simps [of n] read_digits_append)
  qed
qed

lemma show_nat_digits: "set (show_nat n) \<subseteq> set decimal_digits"
proof (induction n rule: show_nat.induct)
  case (1 n)
  then show ?case
    by (cases "n < 10") (simp_all add: show_nat.simps [of n] digit_char_in_digits)
qed

lemma show_nat_not_empty: "show_nat n \<noteq> []"
  by (simp add: show_nat.simps [of n])

lemma read_int_show_int_neg: "i < 0 \<Longrightarrow> read_int (show_int i) = Some i"
  by (simp add: show_int_def read_int_def read_nat_def read_digits_show_nat show_nat_not_empty)

lemma read_int_show_int_nonneg:
  assumes "\<not> i < 0"
  shows "read_int (show_int i) = Some i"
proof -
  obtain c cs where cs: "show_nat (nat i) = c # cs"
    using show_nat_not_empty by (cases "show_nat (nat i)") auto
  have "c \<in> set decimal_digits" using show_nat_digits [of "nat i"] cs by auto
  then have "c \<noteq> CHR ''-''" by (auto simp: decimal_digits_def)
  from read_digits_show_nat [of "nat i"] have r: "read_digits 0 (c # cs) = Some (nat i)"
    unfolding cs .
  from assms \<open>c \<noteq> CHR ''-''\<close> show ?thesis
    by (simp add: show_int_def read_int_def read_nat_def cs r del: read_digits.simps)
qed

text \<open>
  C15: the decimal text of an integer, as \<open>${id}\<close> prints it into a URL, reads back as
  the same integer.
\<close>

theorem read_int_show_int: "read_int (show_int i) = Some i"
  using read_int_show_int_neg read_int_show_int_nonneg by blast

text \<open>The server reads the id of a resource URL the client builds from a number.\<close>

lemma read_resource_id_show_int:
  "read_resource_id coll (coll @ ''/'' @ show_int i) = Some i"
  using read_int_show_int_neg [of i] read_int_show_int_nonneg [of i]
  by (auto simp: read_resource_id_def)

section \<open>JSON string round trip\<close>

lemma hex_val_hex_digit [simp]: "d < 16 \<Longrightarrow> hex_val (hex_digit d) = Some d"
  by (drule less_16_cases) (auto simp: hex_val_def hex_digit_def)

text \<open>The escape of a control character without a short form reads back as it.\<close>

lemma hex4_control:
  assumes "of_char c < (32::nat)"
  shows "hex4 (CHR ''0'') (CHR ''0'') (hex_digit (of_char c div 16)) (hex_digit (of_char c mod 16)) =
         Some (of_char c)"
proof -
  have "of_char c div 16 < (16::nat)" using assms by simp
  moreover have "hex_val (CHR ''0'') = Some 0" by (simp add: hex_val_def)
  ultimately show ?thesis by (simp add: hex4_def)
qed

text \<open>Each character's escape decodes to that character.\<close>

lemma json_chars_quote_char:
  "json_chars (quote_char c @ rest) = map_option (\<lambda>(d, r). (c # d, r)) (json_chars rest)"
proof -
  consider "c = CHR 0x08" | "c = CHR 0x09" | "c = CHR 0x0A" | "c = CHR 0x0C" | "c = CHR 0x0D"
    | "c = CHR 0x22" | "c = bs"
    | "c \<notin> {CHR 0x08, CHR 0x09, CHR 0x0A, CHR 0x0C, CHR 0x0D, CHR 0x22, bs}" "of_char c < (32::nat)"
    | "c \<notin> {CHR 0x08, CHR 0x09, CHR 0x0A, CHR 0x0C, CHR 0x0D, CHR 0x22, bs}" "\<not> of_char c < (32::nat)"
    by blast
  then show ?thesis
  proof cases
    case 8
    then show ?thesis
      by (simp add: quote_char_def bs_def unescape_def hex4_control)
  next
    case 9
    then show ?thesis
      by (simp add: quote_char_def bs_def)
  qed (simp_all add: quote_char_def bs_def unescape_def)
qed

lemma json_chars_quoted:
  "json_chars (concat (map quote_char s) @ dq @ rest) = Some (s, rest)"
  by (induction s) (simp_all add: json_chars_quote_char dq_def)

text \<open>
  C16: the body \<open>JSON.stringify({ username })\<close> that \<open>createUser\<close> and
  \<open>createLocation\<close> post reads back, as JSON, as exactly the username typed, whatever
  characters it holds.
\<close>

theorem read_username_body_roundtrip: "read_username_body (username_body name) = Some name"
proof -
  have "username_body name = username_prefix @ CHR 0x22 # (concat (map quote_char name) @ dq @ ''}'')"
    by (simp add: username_body_def username_prefix_def json_quote_def dq_def)
  then show ?thesis
    by (simp add: read_username_body_def json_chars_quoted)
qed

section \<open>The address in the query of \<open>createLocation\<close>\<close>

lemma split_by_no_delim: "d \<notin> set s \<Longrightarrow> split_by d s = [s]"
  by (induction s) auto

text \<open>
  C17: an address made of the characters of IP addresses reaches the server as the
  \<open>ip\<close> parameter unchanged.
\<close>

theorem location_url_query:
  assumes "set ip \<subseteq> set ip_chars"
  shows "query_param ''ip'' (location_url ip) = Some ip"
proof -
  have amp: "CHR ''&'' \<notin> set ip" and hash: "CHR ''#'' \<notin> set ip"
    using assms by (auto simp: ip_chars_def)
  have d: "dropWhile (\<lambda>c. c \<noteq> CHR ''?'') (location_url ip) = ''?ip='' @ ip"
    by (simp add: location_url_def BASE_URL_def)
  have q: "takeWhile (\<lambda>c. c \<noteq> CHR ''#'') (drop 1 (dropWhile (\<lambda>c. c \<noteq> CHR ''?'') (location_url ip))) =
           ''ip='' @ ip"
    using hash unfolding d by (auto simp: takeWhile_eq_all_conv)
  have s: "split_by CHR ''&'' (''ip='' @ ip) = [''ip='' @ ip]"
    using amp by (intro split_by_no_delim) simp
  show ?thesis unfolding query_param_def Let_def q s by simp
qed

lemma split_by_delim: "d \<notin> set a \<Longrightarrow> split_by d (a @ d # b) = a # split_by d b"
  by (induction a) auto

text \<open>
  C18: the address is not encoded: the server reads only the part of an address before
  its first \<open>&\<close>, and the rest becomes further parameters.
\<close>

theorem location_url_query_cut:
  assumes "set a \<subseteq> set ip_chars"
  shows "query_param ''ip'' (location_url (a @ CHR ''&'' # b)) =
         Some a"
proof -
  have amp: "CHR ''&'' \<notin> set a" and hash: "CHR ''#'' \<notin> set a"
    using assms by (auto simp: ip_chars_def)
  have d: "dropWhile (\<lambda>c. c \<noteq> CHR ''?'') (location_url (a @ CHR ''&'' # b)) = ''?ip='' @ a @ CHR ''&'' # b"
    by (simp add: location_url_def BASE_URL_def)
  have q: "takeWhile (\<lambda>c. c \<noteq> CHR ''#'') (drop 1 (dropWhile (\<lambda>c. c \<noteq> CHR ''?'') (location_url (a @ CHR ''&'' # b)))) =
           (''ip='' @ a) @ CHR ''&'' # takeWhile (\<lambda>c. c \<noteq> CHR ''#'') b"
  proof -
    have "takeWhile (\<lambda>c. c \<noteq> CHR ''#'') (a @ CHR ''&'' # b) =
          a @ CHR ''&'' # takeWhile (\<lambda>c. c \<noteq> CHR ''#'') b"
      using hash by (subst takeWhile_append2) auto
    then show ?thesis unfolding d by simp
  qed
  have s: "split_by CHR ''&'' ((''ip='' @ a) @ CHR ''&'' # takeWhile (\<lambda>c. c \<noteq> CHR ''#'') b) =
           (''ip='' @ a) # split_by CHR ''&'' (takeWhile (\<lambda>c. c \<noteq> CHR ''#'') b)"
    using amp by (intro split_by_delim) simp
  show ?thesis unfolding query_param_def Let_def q s by simp
qed

theorem location_url_query_cut_witness:
  "set ''10.0.0.1'' \<subseteq> set ip_chars \<and>
   query_param ''ip'' (location_url (''10.0.0.1'' @ CHR ''&'' # ''role=admin'')) = Some ''10.0.0.1'' \<and>
   query_param ''role'' (location_url (''10.0.0.1'' @ CHR ''&'' # ''role=admin'')) = Some ''admin''"
proof -
  have a: "set ''10.0.0.1'' \<subseteq> set ip_chars" by (simp add: ip_chars_def)
  have "query_param ''role'' (location_url (''10.0.0.1'' @ CHR ''&'' # ''role=admin'')) = Some ''admin''"
    by (simp add: query_param_def location_url_def BASE_URL_def)
  with a location_url_query_cut [OF a, of "''role=admin''"] show ?thesis by simp
qed

theorem location_url_query_witness:
  "set ''192.168.0.7'' \<subseteq> set ip_chars \<and> query_param ''ip'' (location_url ''192.168.0.7'') = Some ''192.168.0.7''"
proof -
  have a: "set ''192.168.0.7'' \<subseteq> set ip_chars" by (simp add: ip_chars_def)
  with location_url_query [OF a] show ?thesis by simp
qed

end
