(* ===== verification/Markup.thy ===== *)
theory Markup
  imports Render Wire
begin

text \<open>
  How the browser reads the markup the row templates write.  An \<open>onclick\<close>
  attribute: its double-quoted value, then the JavaScript in it, by a reader of
  single-quoted string literals and of the calls \<open>startEditUser(id, 'name')\<close>,
  \<open>startEditLocation(id, 'ip', 'city', 'country')\<close> and \<open>deleteUser(n)\<close> /
  \<open>deleteLocation(n)\<close>; the literal's escapes are \<open>\n\<close>, \<open>\t\<close>, \<open>\r\<close> and
  the identity escape.  A table cell: the text of the element with a given id, up to the
  next tag.  The theorems show that a name made of ordinary characters reaches
  \<open>startEditUser\<close> and the username cell unchanged, that a name with a single quote
  runs the rest of the name as code, that a name with a double quote breaks the Edit
  button, and that a name with a tag creates markup.
\<close>

definition js_escape :: "char \<Rightarrow> char" where
  "js_escape e =
     (if e = CHR ''n'' then CHR 0x0A else if e = CHR ''t'' then CHR 0x09
      else if e = CHR ''r'' then CHR 0x0D else e)"

text \<open>The characters of a literal after its opening quote, up to the closing one.\<close>

fun read_sq_chars :: "string \<Rightarrow> (string \<times> string) option" where
  "read_sq_chars [] = None"
| "read_sq_chars (c # cs) =
     (if c = CHR 0x27 then Some ([], cs)
      else if c = bs then
        (case cs of
           [] \<Rightarrow> None
         | e # rest \<Rightarrow> map_option (\<lambda>(x, r). (js_escape e # x, r)) (read_sq_chars rest))
      else if c = CHR 0x0A \<or> c = CHR 0x0D then None
      else map_option (\<lambda>(x, r). (c # x, r)) (read_sq_chars cs))"

text \<open>
  \<open>startEditUser(id, 'name')\<close>: the text of the first argument, the name the literal
  denotes, and the code after the closing parenthesis.
\<close>

definition read_edit_user_call :: "string \<Rightarrow> (string \<times> string \<times> string) option" where
  "read_edit_user_call s =
     (let pre = ''startEditUser(''; r1 = drop (length pre) s;
          i = takeWhile (\<lambda>c. c \<noteq> CHR '','') r1; r2 = dropWhile (\<lambda>c. c \<noteq> CHR '','') r1 in
      if take (length pre) s = pre \<and> take 3 r2 = '', '' @ sq then
        (case read_sq_chars (drop 3 r2) of
           Some (n, c # rest) \<Rightarrow> if c = CHR '')'' then Some (i, n, rest) else None
         | _ \<Rightarrow> None)
      else None)"

text \<open>
  A call \<open>f(n)\<close> of a one-argument handler with an integer literal, as the Delete
  buttons write it: the value the handler receives.
\<close>

definition read_id_call :: "string \<Rightarrow> string \<Rightarrow> jval option" where
  "read_id_call f s =
     (let pre = f @ ''(''; arg = drop (length pre) s in
      if take (length pre) s = pre \<and> arg \<noteq> [] \<and> last arg = CHR '')''
      then map_option JNum (read_int (butlast arg)) else None)"

text \<open>A further argument \<open>, 'x'\<close>: the string it denotes and the text after it.\<close>

definition read_sq_arg :: "string \<Rightarrow> (string \<times> string) option" where
  "read_sq_arg s = (if take 3 s = '', '' @ sq then read_sq_chars (drop 3 s) else None)"

text \<open>
  \<open>startEditLocation(id, 'ip', 'city', 'country')\<close>: the text of the first argument,
  the three strings, and the code after the closing parenthesis.
\<close>

definition read_edit_location_call ::
    "string \<Rightarrow> (string \<times> string \<times> string \<times> string \<times> string) option" where
  "read_edit_location_call s =
     (let pre = ''startEditLocation(''; r1 = drop (length pre) s;
          i = takeWhile (\<lambda>c. c \<noteq> CHR '','') r1; r2 = dropWhile (\<lambda>c. c \<noteq> CHR '','') r1 in
      if take (length pre) s = pre then
        (case read_sq_arg r2 of None \<Rightarrow> None | Some (ip, r3) \<Rightarrow>
         (case read_sq_arg r3 of None \<Rightarrow> None | Some (city, r4) \<Rightarrow>
          (case read_sq_arg r4 of None \<Rightarrow> None | Some (country, r5) \<Rightarrow>
           (case r5 of c # rest \<Rightarrow> if c = CHR '')'' then Some (i, ip, city, country, rest) else None
                     | [] \<Rightarrow> None))))
      else None)"


text \<open>The text after the first occurrence of a pattern.\<close>

fun after_first :: "string \<Rightarrow> string \<Rightarrow> string option" where
  "after_first pat [] = (if pat = [] then Some [] else None)"
| "after_first pat (c # cs) =
     (if take (length pat) (c # cs) = pat then Some (drop (length pat) (c # cs))
      else after_first pat cs)"

text \<open>
  How the browser reads a double-quoted attribute value such as \<open>onclick="..."\<close>:
  the value runs up to the next \<open>"\<close>.  Character references (\<open>&...;\<close>), carriage
  returns and NUL characters are changed by the browser; a value holding one is outside
  the reader.  A value without its closing quote is not read.
\<close>

definition attr_value :: "string \<Rightarrow> (string \<times> string) option" where
  "attr_value t =
     (let v = takeWhile (\<lambda>c. c \<noteq> CHR 0x22) t; r = dropWhile (\<lambda>c. c \<noteq> CHR 0x22) t in
      if r = [] \<or> CHR ''&'' \<in> set v \<or> CHR 0x0D \<in> set v \<or> CHR 0x00 \<in> set v then None
      else Some (v, tl r))"

text \<open>The handler text of an attribute value, read by a JavaScript reader \<open>rd\<close>.\<close>

definition attr_call :: "(string \<Rightarrow> 'a option) \<Rightarrow> string \<Rightarrow> 'a option" where
  "attr_call rd t = (case attr_value t of None \<Rightarrow> None | Some (v, _) \<Rightarrow> rd v)"

text \<open>
  The first \<open>onclick\<close> attribute of a row's markup, as the browser reads it, then read
  as a call by \<open>rd\<close>: the handler of the row's Edit button.
\<close>

definition first_onclick :: "(string \<Rightarrow> 'a option) \<Rightarrow> string \<Rightarrow> 'a option" where
  "first_onclick rd html =
     (case after_first (''onclick='' @ dq) html of None \<Rightarrow> None | Some r \<Rightarrow> attr_call rd r)"

text \<open>
  How the browser reads the text of a table cell: \<open>getElementById(key)\<close> finds the
  first element whose attribute is \<open>id="key"\<close>, and its text runs up to the next
  \<open><\<close> that opens a tag, that is a \<open><\<close> followed by an ASCII letter, \<open>/\<close>, \<open>!\<close>
  or \<open>?\<close>; any other \<open><\<close> is text.  Character references (\<open>&...;\<close>) are
  outside the reader: a text holding \<open>&\<close> is not read.
\<close>

definition tag_open :: "char \<Rightarrow> bool" where
  "tag_open d \<longleftrightarrow>
     (let k = of_char d :: nat in
      (65 \<le> k \<and> k \<le> 90) \<or> (97 \<le> k \<and> k \<le> 122) \<or> d = CHR ''/'' \<or> d = CHR ''!'' \<or> d = CHR ''?'')"

fun text_run :: "string \<Rightarrow> string \<times> string" where
  "text_run [] = ([], [])"
| "text_run (c # cs) =
     (if c = CHR ''<'' \<and> cs \<noteq> [] \<and> tag_open (hd cs) then ([], c # cs)
      else (let (x, r) = text_run cs in (c # x, r)))"

definition read_text :: "string \<Rightarrow> (string \<times> string) option" where
  "read_text t = (let (x, r) = text_run t in if CHR ''&'' \<in> set x then None else Some (x, r))"

definition element_text :: "string \<Rightarrow> string \<Rightarrow> (string \<times> string) option" where
  "element_text key html =
     (case after_first (''id='' @ dq @ key @ dq @ ''>'') html of
        None \<Rightarrow> None
      | Some r \<Rightarrow> read_text r)"

text \<open>A name a single-quoted literal holds as it is.\<close>

definition sq_safe :: "string \<Rightarrow> bool" where
  "sq_safe n \<longleftrightarrow> (\<forall>c\<in>set n. c \<noteq> CHR 0x27 \<and> c \<noteq> bs \<and> c \<noteq> CHR 0x0A \<and> c \<noteq> CHR 0x0D)"

text \<open>
  A text the browser keeps as it is, in a cell and in a double-quoted attribute value:
  no \<open><\<close>, \<open>&\<close>, \<open>"\<close>, carriage return or NUL.
\<close>

definition markup_safe :: "string \<Rightarrow> bool" where
  "markup_safe s \<longleftrightarrow>
     (\<forall>c\<in>set s. c \<noteq> CHR ''<'' \<and> c \<noteq> CHR ''&'' \<and> c \<noteq> CHR 0x22 \<and> c \<noteq> CHR 0x0D \<and> c \<noteq> CHR 0x00)"

section \<open>Searching the markup\<close>

lemma after_first_skip:
  "pat \<noteq> [] \<Longrightarrow> hd pat \<notin> set xs \<Longrightarrow> after_first pat (xs @ ys) = after_first pat ys"
proof (induction xs)
  case (Cons x xs)
  then have "take (length pat) (x # xs @ ys) \<noteq> pat" by (cases pat) auto
  with Cons show ?case by simp
qed simp

lemma after_first_here: "pat \<noteq> [] \<Longrightarrow> after_first pat (pat @ ys) = Some ys"
  by (cases pat) simp_all

text \<open>
  A pattern \<open>p\<close> closed by a quote \<open>d\<close> can only match where a quote is: a window of
  the pattern's length that ends at the first quote of the text starts at its front.
\<close>

lemma take_window_quote:
  assumes "d \<notin> set xs" and "d \<notin> set p" and "take (Suc (length p)) (xs @ d # ys) = p @ [d]"
  shows "xs = p"
  using assms
proof (induction xs arbitrary: p)
  case Nil
  then show ?case by (cases p) auto
next
  case (Cons x xs)
  then show ?case by (cases p) auto
qed

lemma after_first_quote:
  assumes "d \<notin> set xs" and "d \<notin> set p"
  shows "after_first (p @ [d]) (xs @ d # ys) =
         (if \<exists>q. xs = q @ p then Some ys else after_first (p @ [d]) ys)"
  using assms(1)
proof (induction xs)
  case Nil
  then show ?case using assms(2) by (cases p) auto
next
  case (Cons x xs)
  have w: "take (Suc (length p)) (x # xs @ d # ys) = p @ [d] \<longleftrightarrow> x # xs = p"
    using take_window_quote [of d "x # xs" p ys] Cons.prems assms(2) by auto
  have q: "(\<exists>q. x # xs = q @ p) \<longleftrightarrow> x # xs = p \<or> (\<exists>q. xs = q @ p)"
    by (auto simp: Cons_eq_append_conv)
  show ?case using Cons w q by auto
qed

lemma after_first_quote_skip:
  "d \<notin> set xs \<Longrightarrow> d \<notin> set p \<Longrightarrow> \<forall>q. xs \<noteq> q @ p \<Longrightarrow>
   after_first (p @ [d]) (xs @ d # ys) = after_first (p @ [d]) ys"
  by (simp add: after_first_quote)

lemma after_first_quote_here:
  "d \<notin> set xs \<Longrightarrow> d \<notin> set p \<Longrightarrow> after_first (p @ [d]) ((xs @ p) @ d # ys) = Some ys"
  by (subst after_first_quote) auto

text \<open>Two ways to see that a text does not end with the pattern.\<close>

lemma not_suffix_char: "c \<in> set p \<Longrightarrow> c \<notin> set xs \<Longrightarrow> xs \<noteq> q @ p"
  by auto

lemma not_suffix_tail:
  assumes "length p \<le> length s" and "drop (length s - length p) s \<noteq> p"
  shows "xs @ s \<noteq> q @ p"
proof
  assume eq: "xs @ s = q @ p"
  have "p = drop (length (q @ p) - length p) (q @ p)" by simp
  also have "\<dots> = drop (length (xs @ s) - length p) (xs @ s)" by (simp only: eq)
  also have "\<dots> = drop (length s - length p) s" using assms(1) by (simp add: drop_append)
  finally show False using assms(2) by simp
qed

text \<open>
  A text cut by quotes into segments, none of which ends with the pattern, is passed
  over; the match is at the quote closing the last segment.
\<close>

lemma after_first_quote_segments:
  assumes "d \<notin> set p" and "\<forall>x\<in>set xss. d \<notin> set x \<and> (\<forall>q. x \<noteq> q @ p)" and "d \<notin> set xs"
  shows "after_first (p @ [d]) (concat (map (\<lambda>x. x @ [d]) xss) @ (xs @ p) @ d # ys) = Some ys"
  using assms(2)
proof (induction xss)
  case Nil
  then show ?case using after_first_quote_here [OF assms(3,1)] by simp
next
  case (Cons x xss)
  then show ?case using after_first_quote_skip [OF _ assms(1), of x] by simp
qed

section \<open>Texts the markup keeps\<close>

lemma markup_safe_Nil [simp]: "markup_safe []"
  by (simp add: markup_safe_def)

lemma markup_safe_Cons [simp]:
  "markup_safe (c # s) \<longleftrightarrow>
     c \<noteq> CHR ''<'' \<and> c \<noteq> CHR ''&'' \<and> c \<noteq> CHR 0x22 \<and> c \<noteq> CHR 0x0D \<and> c \<noteq> CHR 0x00 \<and> markup_safe s"
  by (auto simp: markup_safe_def)

lemma markup_safe_append [simp]: "markup_safe (xs @ ys) \<longleftrightarrow> markup_safe xs \<and> markup_safe ys"
  by (auto simp: markup_safe_def)

lemma markup_safe_no_dq: "markup_safe s \<Longrightarrow> CHR 0x22 \<notin> set s"
  by (auto simp: markup_safe_def)

lemma show_int_chars: "set (show_int k) \<subseteq> insert (CHR ''-'') (set decimal_digits)"
  using show_nat_digits [of "nat (- k)"] show_nat_digits [of "nat k"]
  by (auto simp: show_int_def)

lemma show_int_not_in:
  "c \<noteq> CHR ''-'' \<Longrightarrow> c \<notin> set decimal_digits \<Longrightarrow> c \<notin> set (show_int k)"
  using show_int_chars [of k] by auto

lemma show_int_no_i: "CHR ''i'' \<notin> set (show_int k)"
  by (rule show_int_not_in) (simp_all add: decimal_digits_def)

lemma markup_safe_show_int [simp]: "markup_safe (show_int k)"
  using show_int_chars [of k] by (auto simp: markup_safe_def decimal_digits_def)

lemma attr_value_plain:
  assumes "markup_safe v"
  shows "attr_value (v @ CHR 0x22 # r) = Some (v, r)"
proof -
  have "\<forall>c\<in>set v. c \<noteq> CHR 0x22" using assms by (auto simp: markup_safe_def)
  then have "takeWhile (\<lambda>c. c \<noteq> CHR 0x22) (v @ CHR 0x22 # r) = v"
    and "dropWhile (\<lambda>c. c \<noteq> CHR 0x22) (v @ CHR 0x22 # r) = CHR 0x22 # r"
    by (simp_all add: takeWhile_append2 dropWhile_append2)
  with assms show ?thesis by (auto simp: attr_value_def markup_safe_def)
qed

lemma attr_call_plain: "markup_safe v \<Longrightarrow> attr_call rd (v @ dq @ r) = rd v"
  by (simp add: attr_call_def dq_def attr_value_plain)

section \<open>The Edit button of a row\<close>

text \<open>
  The search for \<open>onclick="\<close> passes the first cells of a user row: the id cell and
  the opening tag of the username cell hold no \<open>o\<close>; it goes on at the name.
\<close>

lemma after_onclick_user_row:
  "after_first (''onclick='' @ dq) (user_row_html (show_int k) n) =
   after_first (''onclick='' @ dq) (''>'' @ n @ ''</td>'' @ nl @ spaces 16 @ ''<td>'' @ nl @ spaces 20 @
     ''<button onclick='' @ dq @ edit_user_handler (show_int k) n @ dq @ ''>Edit</button>'' @
     line 20 (''<button onclick='' @ dq @ delete_user_handler (show_int k) @ dq @ ''>Delete</button>'') @
     line 16 ''</td>'' @ line 12 [])"
proof -
  let ?i = "show_int k"
  let ?pre = "nl @ spaces 16 @ ''<td>'' @ ?i @ ''</td>'' @ nl @ spaces 16 @ ''<td id='' @ dq @
              ''username-'' @ ?i @ dq"
  have o: "CHR ''o'' \<notin> set ?i" by (rule show_int_not_in) (simp_all add: decimal_digits_def)
  have "hd (''onclick='' @ dq) \<notin> set ?pre"
    using o by (auto simp: nl_def spaces_def dq_def)
  then show ?thesis
    by (subst (2) after_first_skip [symmetric, where xs = ?pre])
       (simp_all add: user_row_html_def line_def)
qed

lemma first_onclick_user_row:
  assumes "markup_safe n"
  shows "first_onclick rd (user_row_html (show_int k) n) = rd (edit_user_handler (show_int k) n)"
proof -
  let ?mid = "''>'' @ n @ ''</td>'' @ nl @ spaces 16 @ ''<td>'' @ nl @ spaces 20 @ ''<button ''"
  have d: "CHR 0x22 \<notin> set ?mid"
    using markup_safe_no_dq [OF assms] by (auto simp: nl_def spaces_def)
  have "after_first (''onclick='' @ dq) (user_row_html (show_int k) n) =
        Some (edit_user_handler (show_int k) n @ dq @ ''>Edit</button>'' @
          line 20 (''<button onclick='' @ dq @ delete_user_handler (show_int k) @ dq @ ''>Delete</button>'') @
          line 16 ''</td>'' @ line 12 [])"
    unfolding after_onclick_user_row
    using after_first_quote_here [OF d, of "''onclick=''"] by (simp add: dq_def)
  moreover have "markup_safe (edit_user_handler (show_int k) n)"
    using assms by (simp add: edit_user_handler_def sq_def)
  ultimately show ?thesis by (simp add: first_onclick_def attr_call_plain)
qed

text \<open>
  In a location row the search passes the id cell, then the address, city and country
  cells: each quote it meets closes a text that does not end with \<open>onclick=\<close>.
\<close>

lemma first_onclick_location_row:
  assumes "markup_safe ip" and "markup_safe city" and "markup_safe country"
  shows "first_onclick rd (location_row_html (show_int k) ip city country) =
         rd (edit_location_handler (show_int k) ip city country)"
proof -
  let ?i = "show_int k" and ?p = "''onclick=''" and ?d = "CHR 0x22"
  let ?td = "''</td>'' @ nl @ spaces 16 @ ''<td id=''"
  let ?R = "''>Edit</button>'' @
     line 20 (''<button onclick='' @ dq @ delete_location_handler ?i @ dq @ ''>Delete</button>'') @
     line 16 ''</td>'' @ line 12 []"
  let ?H = "edit_location_handler ?i ip city country"
  let ?last = "''>'' @ country @ ''</td>'' @ nl @ spaces 16 @ ''<td>'' @ nl @ spaces 20 @ ''<button ''"
  have o: "CHR ''o'' \<notin> set ?i" and e: "CHR ''='' \<notin> set ?i"
    by (rule show_int_not_in, simp_all add: decimal_digits_def)+
  have dqs: "?d \<notin> set ip" "?d \<notin> set city" "?d \<notin> set country"
    using assms markup_safe_no_dq by blast+
  have tl: "\<forall>q. xs @ ?td \<noteq> q @ ?p" for xs
    by (intro allI not_suffix_tail) (simp_all add: nl_def spaces_def)
  have ns: "\<forall>q. ''ip-'' @ ?i \<noteq> q @ ?p" "\<forall>q. ''city-'' @ ?i \<noteq> q @ ?p"
    "\<forall>q. ''country-'' @ ?i \<noteq> q @ ?p"
    using not_suffix_char [of "CHR ''=''" ?p "''ip-'' @ ?i"] not_suffix_char [of "CHR ''=''" ?p "''city-'' @ ?i"]
      not_suffix_char [of "CHR ''=''" ?p "''country-'' @ ?i"] e by simp_all
  have ns0: "\<forall>q. nl @ spaces 16 @ ''<td>'' @ ?i @ ''</td>'' @ nl @ spaces 16 @ ''<td id='' \<noteq> q @ ?p"
    using not_suffix_char [of "CHR ''o''" ?p "nl @ spaces 16 @ ''<td>'' @ ?i @ ''</td>'' @ nl @ spaces 16 @ ''<td id=''"] o
    by (simp add: nl_def spaces_def)
  have row: "location_row_html ?i ip city country =
     (nl @ spaces 16 @ ''<td>'' @ ?i @ ''</td>'' @ nl @ spaces 16 @ ''<td id='') @ ?d #
     (''ip-'' @ ?i) @ ?d # (''>'' @ ip @ ?td) @ ?d # (''city-'' @ ?i) @ ?d #
     (''>'' @ city @ ?td) @ ?d # (''country-'' @ ?i) @ ?d # (?last @ ?p) @ ?d # ?H @ dq @ ?R"
    by (simp add: location_row_html_def line_def dq_def)
  have a: "after_first (?p @ [?d]) (location_row_html ?i ip city country) = Some (?H @ dq @ ?R)"
    unfolding row
    using after_first_quote_segments [of ?d ?p
       "[nl @ spaces 16 @ ''<td>'' @ ?i @ ''</td>'' @ nl @ spaces 16 @ ''<td id='', ''ip-'' @ ?i,
         ''>'' @ ip @ ?td, ''city-'' @ ?i, ''>'' @ city @ ?td, ''country-'' @ ?i]" ?last "?H @ dq @ ?R"]
    using ns ns0 dqs tl [of "''>'' @ ip"] tl [of "''>'' @ city"] show_int_not_in [of "CHR 0x22" k]
    by (simp add: nl_def spaces_def decimal_digits_def)
  have h: "markup_safe ?H"
    using assms by (simp add: edit_location_handler_def sq_def)
  have pat: "''onclick='' @ dq = ?p @ [?d]" by (simp add: dq_def)
  show ?thesis unfolding first_onclick_def pat a by (simp add: attr_call_plain [OF h])
qed


section \<open>What the Edit handlers pass\<close>

lemma read_sq_chars_safe:
  "sq_safe n \<Longrightarrow> read_sq_chars (n @ CHR 0x27 # rest) = Some (n, rest)"
  by (induction n) (auto simp: sq_safe_def)


text \<open>Reading the call up to the literal: the id text, then the literal's reader decides.\<close>

lemma read_edit_user_call_prefix:
  assumes "CHR '','' \<notin> set i"
  shows "read_edit_user_call (''startEditUser('' @ i @ '', '' @ sq @ t) =
         (case read_sq_chars t of
            Some (n, c # rest) \<Rightarrow> if c = CHR '')'' then Some (i, n, rest) else None
          | _ \<Rightarrow> None)"
proof -
  have tw: "takeWhile (\<lambda>c. c \<noteq> CHR '','') (i @ CHR '','' # CHR '' '' # CHR 0x27 # t) = i"
    using assms by (subst takeWhile_append2) auto
  have dw: "dropWhile (\<lambda>c. c \<noteq> CHR '','') (i @ CHR '','' # CHR '' '' # CHR 0x27 # t) =
            CHR '','' # CHR '' '' # CHR 0x27 # t"
    using assms by (subst dropWhile_append2) auto
  show ?thesis
    unfolding read_edit_user_call_def Let_def
    by (simp add: tw dw sq_def split: option.splits prod.splits list.splits)
qed

lemma show_int_no_comma: "CHR '','' \<notin> set (show_int k)"
  by (rule show_int_not_in) (simp_all add: decimal_digits_def)

lemma read_id_call_show_int:
  "read_id_call f (f @ ''('' @ show_int n @ '')'') = Some (JNum n)"
  using read_int_show_int_neg [of n] read_int_show_int_nonneg [of n]
  by (auto simp: read_id_call_def butlast_append)

lemma read_sq_arg_safe:
  "sq_safe x \<Longrightarrow> read_sq_arg ('', '' @ sq @ x @ sq @ rest) = Some (x, rest)"
  by (simp add: read_sq_arg_def sq_def read_sq_chars_safe)

text \<open>The Edit handler of a location row, read as JavaScript.\<close>

lemma read_edit_location_call_handler:
  assumes "CHR '','' \<notin> set i" and "sq_safe ip" and "sq_safe city" and "sq_safe country"
  shows "read_edit_location_call (edit_location_handler i ip city country) =
         Some (i, ip, city, country, [])"
proof -
  let ?t = "'', '' @ sq @ ip @ sq @ '', '' @ sq @ city @ sq @ '', '' @ sq @ country @ sq @ '')''"
  have eq: "edit_location_handler i ip city country = ''startEditLocation('' @ i @ ?t"
    by (simp add: edit_location_handler_def)
  have tw: "takeWhile (\<lambda>c. c \<noteq> CHR '','') (i @ ?t) = i"
    using assms(1) by (subst takeWhile_append2) (auto simp: sq_def)
  have dw: "dropWhile (\<lambda>c. c \<noteq> CHR '','') (i @ ?t) = ?t"
    using assms(1) by (subst dropWhile_append2) (auto simp: sq_def)
  have args: "read_sq_arg ?t = Some (ip, '', '' @ sq @ city @ sq @ '', '' @ sq @ country @ sq @ '')'')"
    "read_sq_arg ('', '' @ sq @ city @ sq @ '', '' @ sq @ country @ sq @ '')'') =
       Some (city, '', '' @ sq @ country @ sq @ '')'')"
    "read_sq_arg ('', '' @ sq @ country @ sq @ '')'') = Some (country, '')'')"
    using read_sq_arg_safe assms(2-4) by simp_all
  have p: "take (length ''startEditLocation('') (''startEditLocation('' @ i @ ?t) = ''startEditLocation(''"
    and r1: "drop (length ''startEditLocation('') (''startEditLocation('' @ i @ ?t) = i @ ?t"
    by simp_all
  show ?thesis
    unfolding eq read_edit_location_call_def Let_def p r1 tw dw using args by simp
qed

section \<open>What a cell shows\<close>

lemma tag_open_slash: "tag_open CHR ''/''"
  by (simp add: tag_open_def)

lemma text_run_tag:
  "CHR ''<'' \<notin> set a \<Longrightarrow> tag_open d \<Longrightarrow> text_run (a @ CHR ''<'' # d # r) = (a, CHR ''<'' # d # r)"
  by (induction a) auto

text \<open>A \<open><\<close> that opens no tag stays in the text, as in \<open>I <3 cats\<close>.\<close>

lemma text_run_lt_text:
  "\<not> tag_open d \<Longrightarrow> text_run (CHR ''<'' # d # r) = (let (x, r') = text_run (d # r) in (CHR ''<'' # x, r'))"
  by simp

lemma read_text_tag:
  "CHR ''<'' \<notin> set a \<Longrightarrow> CHR ''&'' \<notin> set a \<Longrightarrow> tag_open d \<Longrightarrow>
   read_text (a @ CHR ''<'' # d # r) = Some (a, CHR ''<'' # d # r)"
  by (simp add: read_text_def text_run_tag)

text \<open>The username cell of a row: its text is read from the name up to the cell's end tag.\<close>

lemma element_text_username:
  assumes "CHR ''i'' \<notin> set i"
  shows "\<exists>r. element_text (''username-'' @ i) (user_row_html i n) = read_text (n @ CHR ''<'' # CHR ''/'' # r)"
proof -
  let ?pat = "''id='' @ dq @ ''username-'' @ i @ dq @ ''>''"
  let ?pre = "nl @ spaces 16 @ ''<td>'' @ i @ ''</td>'' @ nl @ spaces 16 @ ''<td ''"
  obtain r where eq: "user_row_html i n = ?pre @ ?pat @ n @ CHR ''<'' # CHR ''/'' # r"
    by (auto simp: user_row_html_def line_def)
  have hd: "hd ?pat \<notin> set ?pre"
    using assms by (auto simp: nl_def spaces_def)
  have ne: "?pat \<noteq> []" by simp
  have "after_first ?pat (user_row_html i n) = after_first ?pat (?pat @ n @ CHR ''<'' # CHR ''/'' # r)"
    unfolding eq by (rule after_first_skip [OF ne hd])
  also have "\<dots> = Some (n @ CHR ''<'' # CHR ''/'' # r)" by (rule after_first_here [OF ne])
  finally have "after_first ?pat (user_row_html i n) = Some (n @ CHR ''<'' # CHR ''/'' # r)" .
  then show ?thesis by (auto simp: element_text_def)
qed

section \<open>The Edit buttons, as the browser runs them\<close>

text \<open>
  C27: in the row of a user with integer id \<open>k\<close>, the Edit button's \<open>onclick\<close>
  attribute, read by the browser, calls \<open>startEditUser(k, name)\<close> with the name
  unchanged and runs nothing after the call, when the name holds no quote, backslash,
  line break, \<open><\<close> or \<open>&\<close>.
\<close>

theorem edit_user_handler_roundtrip:
  assumes "sq_safe n" and "markup_safe n"
  shows "first_onclick read_edit_user_call (user_row_html (show_int k) n) = Some (show_int k, n, [])"
proof -
  have eq: "edit_user_handler (show_int k) n =
            ''startEditUser('' @ show_int k @ '', '' @ sq @ (n @ CHR 0x27 # '')'')"
    by (simp add: edit_user_handler_def sq_def)
  show ?thesis
    unfolding first_onclick_user_row [OF assms(2)] eq read_edit_user_call_prefix [OF show_int_no_comma]
      read_sq_chars_safe [OF assms(1)] by simp
qed

text \<open>
  C28: the name is not escaped for JavaScript: a name \<open>a'); c\<close> makes the Edit button
  of its row call \<open>startEditUser\<close> with \<open>a\<close> and then run \<open>c\<close> as code (stored
  script injection through the users' data), when \<open>a\<close> and \<open>c\<close> are kept as they are
  by the markup.
\<close>

theorem edit_user_handler_injection:
  assumes "sq_safe a" and "markup_safe a" and "markup_safe c"
  shows "first_onclick read_edit_user_call (user_row_html (show_int k) (a @ sq @ '')'' @ c)) =
         Some (show_int k, a, c @ sq @ '')'')"
proof -
  have m: "markup_safe (a @ sq @ '')'' @ c)" using assms(2,3) by (simp add: sq_def)
  have eq: "edit_user_handler (show_int k) (a @ sq @ '')'' @ c) =
        ''startEditUser('' @ show_int k @ '', '' @ sq @ (a @ CHR 0x27 # CHR '')'' # c @ sq @ '')'')"
    by (simp add: edit_user_handler_def sq_def)
  show ?thesis
    unfolding first_onclick_user_row [OF m] eq read_edit_user_call_prefix [OF show_int_no_comma]
      read_sq_chars_safe [OF assms(1)] by simp
qed


text \<open>
  C37: in the row of a location with integer id \<open>k\<close>, the Edit button's \<open>onclick\<close>
  attribute, read by the browser, calls \<open>startEditLocation\<close> with the address, city and
  country unchanged and runs nothing after the call, when they hold no quote, backslash,
  line break, \<open><\<close> or \<open>&\<close>.
\<close>

theorem edit_location_handler_roundtrip:
  assumes "sq_safe ip" and "sq_safe city" and "sq_safe country"
    and "markup_safe ip" and "markup_safe city" and "markup_safe country"
  shows "first_onclick read_edit_location_call (location_row_html (show_int k) ip city country) =
         Some (show_int k, ip, city, country, [])"
  unfolding first_onclick_location_row [OF assms(4-6)]
  by (rule read_edit_location_call_handler [OF show_int_no_comma assms(1-3)])

section \<open>The username cell, as the browser shows it\<close>

text \<open>
  C39: the username cell of the row of a user with integer id \<open>k\<close> reads back, in the
  browser, as the username, when the name holds no \<open><\<close> or \<open>&\<close>.
\<close>

theorem username_cell_roundtrip:
  assumes "CHR ''<'' \<notin> set n" and "CHR ''&'' \<notin> set n"
  shows "map_option fst (element_text (''username-'' @ show_int k) (user_row_html (show_int k) n)) = Some n"
  using element_text_username [OF show_int_no_i, of k n] read_text_tag [OF assms tag_open_slash] by auto

text \<open>
  C40: the name is written into the markup unescaped: in a name \<open>a<tb\<close> where \<open>t\<close>
  opens a tag (a letter, \<open>/\<close>, \<open>!\<close> or \<open>?\<close>), the cell's text ends at \<open>a\<close> and
  the rest of the name is read as markup (a tag such as \<open><img src=x onerror=...>\<close> is
  created and its handler runs).
\<close>

theorem username_cell_injection:
  assumes "CHR ''<'' \<notin> set a" and "CHR ''&'' \<notin> set a" and "tag_open t"
  shows "\<exists>r. element_text (''username-'' @ show_int k) (user_row_html (show_int k) (a @ CHR ''<'' # t # b)) =
             Some (a, CHR ''<'' # t # b @ r)"
proof -
  obtain r where "element_text (''username-'' @ show_int k) (user_row_html (show_int k) (a @ CHR ''<'' # t # b)) =
                    read_text ((a @ CHR ''<'' # t # b) @ CHR ''<'' # CHR ''/'' # r)"
    using element_text_username [OF show_int_no_i] by blast
  with read_text_tag [OF assms, of "b @ CHR ''<'' # CHR ''/'' # r"] show ?thesis by auto
qed

theorem edit_user_handler_roundtrip_witness:
  "sq_safe ''alice'' \<and> markup_safe ''alice'' \<and>
   first_onclick read_edit_user_call (user_row_html (show_int 1) ''alice'') = Some (show_int 1, ''alice'', [])"
proof -
  have h: "sq_safe ''alice''" "markup_safe ''alice''" by (simp_all add: sq_safe_def bs_def)
  show ?thesis using edit_user_handler_roundtrip [OF h, of 1] h by simp
qed

theorem edit_user_handler_injection_witness:
  "sq_safe ''x'' \<and> markup_safe ''x'' \<and> markup_safe ''; alert(1); //'' \<and>
   first_onclick read_edit_user_call (user_row_html (show_int 1) (''x'' @ sq @ '')'' @ ''; alert(1); //'')) =
     Some (show_int 1, ''x'', ''; alert(1); //'' @ sq @ '')'')"
proof -
  have h: "sq_safe ''x''" "markup_safe ''x''" "markup_safe ''; alert(1); //''"
    by (simp_all add: sq_safe_def bs_def)
  show ?thesis using edit_user_handler_injection [OF h, of 1] h by simp
qed


theorem edit_location_handler_roundtrip_witness:
  "sq_safe ''10.0.0.1'' \<and> sq_safe ''Minsk'' \<and> sq_safe [] \<and>
   markup_safe ''10.0.0.1'' \<and> markup_safe ''Minsk'' \<and> markup_safe [] \<and>
   first_onclick read_edit_location_call (location_row_html (show_int 2) ''10.0.0.1'' ''Minsk'' []) =
     Some (show_int 2, ''10.0.0.1'', ''Minsk'', [], [])"
proof -
  have h: "sq_safe ''10.0.0.1''" "sq_safe ''Minsk''" "sq_safe []"
    "markup_safe ''10.0.0.1''" "markup_safe ''Minsk''" "markup_safe []"
    by (simp_all add: sq_safe_def bs_def)
  show ?thesis using edit_location_handler_roundtrip [OF h, of 2] h by simp
qed

theorem username_cell_roundtrip_witness:
  "CHR ''<'' \<notin> set ''alice'' \<and> CHR ''&'' \<notin> set ''alice'' \<and>
   map_option fst (element_text (''username-'' @ show_int 1) (user_row_html (show_int 1) ''alice'')) =
     Some ''alice''"
proof -
  have h: "CHR ''<'' \<notin> set ''alice''" "CHR ''&'' \<notin> set ''alice''" by simp_all
  show ?thesis using username_cell_roundtrip [OF h, of 1] h by simp
qed

theorem username_cell_injection_witness:
  "CHR ''<'' \<notin> set ''x'' \<and> CHR ''&'' \<notin> set ''x'' \<and> tag_open CHR ''i'' \<and>
   (\<exists>r. element_text (''username-'' @ show_int 1)
          (user_row_html (show_int 1) (''x'' @ CHR ''<'' # CHR ''i'' # ''mg src=x onerror=alert(1)>'')) =
        Some (''x'', CHR ''<'' # CHR ''i'' # ''mg src=x onerror=alert(1)>'' @ r))"
proof -
  have h: "CHR ''<'' \<notin> set ''x''" "CHR ''&'' \<notin> set ''x''" "tag_open CHR ''i''"
    by (simp_all add: tag_open_def)
  show ?thesis using username_cell_injection [OF h, of 1 "''mg src=x onerror=alert(1)>''"] h by simp
qed
end
