(* ===== verification/Spec2Isabelle.thy ===== *)
theory Spec2Isabelle
  imports Refinement Wire Markup
begin

text \<open>
  \<^bold>\<open>A verification development of the users-and-locations CRUD client.\<close>

  \<^emph>\<open>The program.\<close> The repository's one script,
  \<^verbatim>\<open>src/main/resources/static/app.js\<close>, is a browser client of a REST API under
  \<^verbatim>\<open>http://localhost:8080/api\<close>.  Its parts: the read handlers \<open>fetchUsers\<close>,
  \<open>fetchLocations\<close>, \<open>fetchRequestCount\<close> (GET a resource, render it); the mutating
  handlers \<open>createUser\<close>, \<open>createLocation\<close>, \<open>deleteUser\<close>, \<open>deleteLocation\<close>
  (send a POST or DELETE, then start a refresh without awaiting it); the row binders in
  the two \<open>forEach\<close> loops, which turn each JSON element into the markup of one table
  row; and the JavaScript and DOM semantics they rely on.  Every handler catches its
  errors and logs them to the console.  The handlers interact only through the page (the
  tables, the counter and the three input fields) and through the order in which the
  server's responses arrive.

  \<^emph>\<open>The theories, in import order.\<close>
  \<^item> \<open>Prelude\<close>: the rule collections \<open>handler_simps\<close> and \<open>render_simps\<close>, the
    newline and indentation of the template literals, shared list lemmas.
  \<^item> \<open>Js_Value\<close>: \<open>jval\<close>, the values \<open>response.json()\<close> yields; \<open>get_prop\<close>
    (\<open>v.k\<close>, throwing on \<open>null\<close>); \<open>show_int\<close>, \<open>join\<close>, \<open>to_str\<close> and
    \<open>tmpl\<close> (\<open>${v}\<close> of a template literal); \<open>truthy\<close> and \<open>or_empty\<close>
    (\<open>v || ''\<close>); \<open>text_content\<close> (assignment to \<open>textContent\<close>); \<open>quote_char\<close>
    and \<open>json_quote\<close> (\<open>JSON.stringify\<close> of a string).
  \<^item> \<open>Http_Api\<close>: \<open>BASE_URL\<close> (line 1), the \<open>request\<close> record (the options of
    \<open>fetch\<close>), the \<open>response\<close> datatype (rejected, or a status and a body that parses
    or not), \<open>resp_ok\<close> (\<open>response.ok\<close>), one definition per URL and per request.
  \<^item> \<open>Render\<close>: \<open>user_row_html\<close>/\<open>user_row\<close> (lines 11--19) and
    \<open>location_row_html\<close>/\<open>location_row\<close> (lines 35--45), the exact template
    literals; \<open>render_rows\<close> (the \<open>forEach\<close> loops, stopping at the first element
    that throws) and \<open>render_table\<close> (\<open>tbody.innerHTML = ''\<close>, then \<open>forEach\<close>).
  \<^item> \<open>Client\<close>: the state (\<open>page\<close>, the DOM elements of the contract; \<open>client\<close>,
    adding the console, the requests sent and the pending continuations); one definition
    per handler up to its \<open>await fetch\<close> (\<open>fetchUsers\<close> \<dots> \<open>deleteLocation\<close>) and
    one per continuation after it (\<open>fetchUsers_body\<close>, wrapped by \<open>try_catch\<close> into
    \<open>fetchUsers_k\<close>, and so on); \<open>resume\<close>, the events, \<open>step\<close>, \<open>run\<close> and the
    inductive \<open>reachable\<close>; the invariant \<open>client_inv\<close>; \<open>refresh_of\<close> and the
    measure \<open>pending_weight\<close>.
  \<^item> \<open>Refinement\<close>: the specification's section 4.1 as atomic operations on an
    abstract \<open>view\<close> (page, log, requests), and the simulation of those operations by
    the asynchronous client.
  \<^item> \<open>Wire\<close>: the standard readers of what the client writes (decimal ids and the
    \<open>/users/{id}\<close> route, JSON strings, query parameters), for round-trip theorems
    about the client's encoders.
  \<^item> \<open>Markup\<close>: the browser's reading of a row's markup: the first
    \<open>onclick\<close> attribute's double-quoted value (\<open>first_onclick\<close>, over
    \<open>after_first\<close> and \<open>attr_value\<close>), then the JavaScript in it
    (\<open>read_edit_user_call\<close>, \<open>read_edit_location_call\<close>, over a reader of
    single-quoted literals, and \<open>read_id_call\<close> for \<open>deleteUser(n)\<close>), to show what
    \<open>startEditUser\<close> receives; the text of a cell by id (\<open>element_text\<close>, over
    \<open>text_run\<close>, which ends at a \<open><\<close> that opens a tag).

  \<^emph>\<open>Concurrency and the environment.\<close> Handlers are \<open>async\<close>: each runs up to its
  \<open>await\<close>, sends its request and leaves a continuation pending.  An event is a handler
  call, the user typing into a field, or the response to any pending request
  (\<open>Respond i r\<close>, with any \<open>r\<close>): the reachable states are those of every
  interleaving and every server behaviour.  The two awaits of a read handler (\<open>fetch\<close>,
  then \<open>response.json()\<close>) are one event, since nothing observable happens between
  them.  No fuel is needed: every loop of the program is a \<open>forEach\<close> over a finite
  list; the only unbounded behaviour, chains of refreshes, is bounded by the measure
  \<open>pending_weight\<close> (one unit per pending read, two per pending mutation).  The
  client receives a body already parsed (\<open>Some v\<close>) or not JSON (\<open>None\<close>):
  \<open>JSON.parse\<close> itself is the browser's and is not modelled.

  \<^emph>\<open>What is proved\<close> (claim ids C1--C40).
  \<^item> Rendering: a successful listing replaces the table by one row per element, showing
    its fields (C1, C21); the loop equals a non-recursive description (C19); blank city
    and country render empty (C20); the counter follows \<open>textContent\<close> (C22).
  \<^item> Errors: every failure only logs, with the error of its branch: network, HTTP
    status, or a body that is not JSON (C2); but a \<open>null\<close> element leaves a partial
    table, for users (C3) and for locations (C38), and a non-array body empties it (C4),
    contrary to the specification.
  \<^item> The state machine: every reachable state is well formed (C5, rule induction); only a
    users fetch changes the users table (C11), only a locations fetch the locations
    table (C35); one event sends at most one request and
    logs at most one error, both logs only grow (C12); refresh chains end (C13,
    termination by \<open>pending_weight\<close>) and answering requests always reaches quiescence
    (C14); the last response to arrive wins a race between refreshes (C25); every request
    sent is one of the API table's, no POST with an empty field (C29); each table is
    always its initial content or complete rows of non-\<open>null\<close> elements (C30, C36),
    proved once for any table by \<open>step_table_inv\<close> and \<open>run_preserves\<close>.
  \<^item> Handlers: the guards of both create handlers (C6); the request/refresh sequences
    of \<open>createUser\<close> (C7--C9, with the blank-username divergence C7),
    \<open>deleteUser\<close> (C10), \<open>createLocation\<close> (C24, C33) and \<open>deleteLocation\<close> (C32); every
    handler's failed request only logs, under the handler's own message (C34).
  \<^item> Encoders: ids print and read back exactly (C15); the JSON body carries exactly the
    typed username (C16); IP addresses reach the server intact (C17), but an unencoded
    \<open>&\<close> cuts the address and injects parameters (C18).
  \<^item> Refinement: sequential sessions of the asynchronous client implement the
    specification's atomic operations (C26).
  \<^item> Markup, as the browser reads it: in the row of an entity with integer id, the Edit
    button's \<open>onclick\<close> value calls \<open>startEditUser\<close> with a plain username
    unchanged (C27), but a single quote in the name ends the literal and the rest runs
    as script (C28), and a double quote ends the attribute, so that the button does
    nothing (C23); plain address, city and country reach \<open>startEditLocation\<close>
    unchanged (C37).  The Delete buttons carry an entity's integer id through the
    \<open>onclick\<close> text, the handler and the \<open>DELETE\<close> URL to the server intact (C31,
    stated here as it spans Render, Client, Markup and Wire).  A username without
    \<open><\<close> or \<open>&\<close> reads back from its cell (C39); one with a \<open><\<close> that opens a
    tag ends the cell's text and injects markup (C40).

  \<^emph>\<open>Not modelled.\<close> \<open>startEditUser\<close> and \<open>startEditLocation\<close> are called from
  the rows but not defined in the repository.  The HTML page and the server are outside
  it: the page is a record of the elements the script uses, the server any function from
  requests to responses.  The source breaks off inside \<open>deleteLocation\<close> (line 117);
  its continuation after the status check follows the specification.  Markup is kept as
  the string assigned to \<open>innerHTML\<close>; the browser's reading of it is modelled only
  as far as the claims need: the first \<open>onclick\<close> value found by a plain text
  search (sound for names without \<open>"\<close> and \<open><\<close>, which cannot fake an attribute
  or open a tag), single-quoted literals, integer call arguments, a cell's text up to
  the next tag; character references, carriage returns and NUL characters, which the
  browser rewrites, are excluded from the attribute reader, and the cell reader excludes
  character references only (C39 assumes no \<open><\<close> or \<open>&\<close>; a name with a
  carriage return or NUL would show with it rewritten).  JSON numbers are unbounded
  integers, where JavaScript rounds beyond \<open>2^53\<close>; \<open>show_int\<close> prints every
  integer in plain decimal, where JavaScript switches to exponent form from
  \<open>10^21\<close>: ids of the API are far below both bounds, so the claims on ids (C15,
  C31) concern the numbers the program meets.  Strings are lists of 8-bit characters.
  The repository holds no further code: every handler and helper of \<^verbatim>\<open>app.js\<close> up
  to the truncation is a definition here, and what remains outside (the edit flows,
  the rest of \<open>deleteLocation\<close>, the page and the server) cannot be modelled from
  the sources.

  \<^emph>\<open>Further work.\<close> Properties that need no new code: an invariant relating each
  table to the last listing response processed, the location cells' text, the
  injection through \<open>startEditLocation\<close>'s arguments beside C28 and C40, and the
  attributes a name with a double quote adds to the Edit button beside C23.
\<close>

text \<open>
  C31: the Delete button of the row of an entity with integer id \<open>n\<close> calls
  \<open>deleteUser\<close> (\<open>deleteLocation\<close>) with the number \<open>n\<close>, and the
  \<open>DELETE\<close> request it sends names a resource the server reads as id \<open>n\<close>.
\<close>

theorem delete_buttons_reach_server:
  "read_id_call ''deleteUser'' (delete_user_handler (tmpl (Some (JNum n)))) = Some (JNum n) \<and>
   read_resource_id users_url (url (last (sent (deleteUser (Some (JNum n)) s)))) = Some n \<and>
   read_id_call ''deleteLocation'' (delete_location_handler (tmpl (Some (JNum n)))) = Some (JNum n) \<and>
   read_resource_id locations_url (url (last (sent (deleteLocation (Some (JNum n)) s)))) = Some n"
proof -
  have du: "delete_user_handler (tmpl (Some (JNum n))) = ''deleteUser'' @ ''('' @ show_int n @ '')''"
    and dl: "delete_location_handler (tmpl (Some (JNum n))) =
             ''deleteLocation'' @ ''('' @ show_int n @ '')''"
    by (simp_all add: delete_user_handler_def delete_location_handler_def tmpl_def)
  have u: "url (last (sent (deleteUser (Some (JNum n)) s))) = users_url @ ''/'' @ show_int n"
    and l: "url (last (sent (deleteLocation (Some (JNum n)) s))) = locations_url @ ''/'' @ show_int n"
    by (simp_all add: deleteUser_def deleteLocation_def issue_def delete_request_def user_url_def
                      users_url_def location_item_url_def locations_url_def tmpl_def)
  show ?thesis unfolding du dl u l read_id_call_show_int read_resource_id_show_int by simp
qed

end
